(* ===== verification/Ava_Prelude.thy ===== *)
theory Ava_Prelude
  imports Complex_Main "HOL-Library.AList" "HOL-Library.Sublist" "HOL-Library.Char_ord"
    "HOL-Library.List_Lexorder" "HOL-Library.Product_Lexorder"
begin

text \<open>
  Shared vocabulary of the development: the types the components have in common, the part of
  Python's built-in library the sources use (string methods, insertion-ordered dictionaries,
  bounded deques, exceptions), and the lemmas about them that carry the component proofs.

  Floats are modelled by exact rationals (\<open>rat\<close>): every arithmetic expression, comparison and
  decimal constant of the sources keeps its shape, and IEEE rounding is not modelled. Strings are
  ASCII. A clock reading (\<open>time.monotonic()\<close>, \<open>time.time()\<close>) is an argument of the operation that
  takes it. A mutating operation takes the old state and returns the new one; an operation that
  can raise returns a sum with the exception on the left.
\<close>

section \<open>Types and automation collections\<close>

type_synonym pyfloat = rat
type_synonym time_s = rat

named_theorems ava_defs \<open>one-step definitions that proofs of the components unfold together\<close>
named_theorems ava_inv \<open>introduction rules that say an operation keeps its invariant\<close>

section \<open>Exceptions\<close>

text \<open>The exception classes the sources raise, catch or test with \<open>isinstance\<close>.\<close>

datatype py_exc =
    ValueError string
  | TypeError string
  | KeyError string
  | RuntimeError string
  | TimeoutError string
  | QueueEmpty
  | QueueFull
  | OSError string
  | FileNotFoundError string
  | MemoryError
  | SystemExit
  | KeyboardInterrupt
  | OtherException string

definition sbind :: "'e + 'a \<Rightarrow> ('a \<Rightarrow> 'e + 'b) \<Rightarrow> 'e + 'b" where
  "sbind m f = (case m of Inl e \<Rightarrow> Inl e | Inr a \<Rightarrow> f a)"

lemma sbind_Inl [simp]: "sbind (Inl e) f = Inl e"
  by (simp add: sbind_def)

lemma sbind_Inr [simp]: "sbind (Inr a) f = f a"
  by (simp add: sbind_def)

lemma sbind_eq_Inr: "sbind m f = Inr b \<longleftrightarrow> (\<exists>a. m = Inr a \<and> f a = Inr b)"
  by (cases m) auto

text \<open>Sequencing of operations that change the state and may raise: the changes made before an exception
  stay.\<close>

definition eseq :: "('e + 'a) \<times> 's \<Rightarrow> ('a \<Rightarrow> 's \<Rightarrow> ('e + 'b) \<times> 's) \<Rightarrow> ('e + 'b) \<times> 's" where
  "eseq x f = (case x of (Inl e, s) \<Rightarrow> (Inl e, s) | (Inr a, s) \<Rightarrow> f a s)"

lemma eseq_simps [simp]: "eseq (Inl e, s) f = (Inl e, s)" "eseq (Inr a, s) f = f a s"
  by (simp_all add: eseq_def)

lemma if_Inl_eq_Inr: "(if b then Inl e else x) = Inr q \<longleftrightarrow> \<not> b \<and> x = Inr q"
  by simp

section \<open>Strings\<close>

definition is_space :: "char \<Rightarrow> bool" where
  "is_space c = (let n = (of_char c :: nat) in (9 \<le> n \<and> n \<le> 13) \<or> (28 \<le> n \<and> n \<le> 32))"

definition lower_char :: "char \<Rightarrow> char" where
  "lower_char c = (let n = (of_char c :: nat) in if 65 \<le> n \<and> n \<le> 90 then char_of (n + 32) else c)"

definition py_lower :: "string \<Rightarrow> string" where
  "py_lower s = map lower_char s"

definition upper_char :: "char \<Rightarrow> char" where
  "upper_char c = (let n = (of_char c :: nat) in if 97 \<le> n \<and> n \<le> 122 then char_of (n - 32) else c)"

definition py_upper :: "string \<Rightarrow> string" where
  "py_upper s = map upper_char s"

definition py_strip :: "string \<Rightarrow> string" where
  "py_strip s = rev (dropWhile is_space (rev (dropWhile is_space s)))"

fun split_from :: "string \<Rightarrow> string \<Rightarrow> string list" where
  "split_from w [] = (if w = [] then [] else [w])"
| "split_from w (c # cs) =
     (if is_space c then (if w = [] then split_from [] cs else w # split_from [] cs)
      else split_from (w @ [c]) cs)"

definition py_split :: "string \<Rightarrow> string list" where
  "py_split s = split_from [] s"

text \<open>\<open>splitlines\<close>: the line separators among the ASCII characters; \<open>\r\n\<close> is one of them.\<close>

definition is_linebreak :: "char \<Rightarrow> bool" where
  "is_linebreak c = (let n = (of_char c :: nat) in (10 \<le> n \<and> n \<le> 13) \<or> (28 \<le> n \<and> n \<le> 30))"

fun lines_from :: "string \<Rightarrow> string \<Rightarrow> string list" where
  "lines_from l [] = (if l = [] then [] else [l])"
| "lines_from l [c] = (if is_linebreak c then [l] else [l @ [c]])"
| "lines_from l (c # d # cs) =
     (if of_char c = (13 :: nat) \<and> of_char d = (10 :: nat) then l # lines_from [] cs
      else if is_linebreak c then l # lines_from [] (d # cs)
      else lines_from (l @ [c]) (d # cs))"

definition py_splitlines :: "string \<Rightarrow> string list" where
  "py_splitlines s = lines_from [] s"

fun py_join :: "string \<Rightarrow> string list \<Rightarrow> string" where
  "py_join sep [] = []"
| "py_join sep [x] = x"
| "py_join sep (x # y # ys) = x @ sep @ py_join sep (y # ys)"

definition drop_blanks :: "string \<Rightarrow> string" where
  "drop_blanks s = filter (\<lambda>c. c \<noteq> CHR '' '') s"

lemma lower_char_idem [simp]: "lower_char (lower_char c) = lower_char c"
  by (cases "65 \<le> (of_char c :: nat) \<and> of_char c \<le> (90 :: nat)") (auto simp: lower_char_def Let_def)

lemma py_lower_idem [simp]: "py_lower (py_lower s) = py_lower s"
  by (simp add: py_lower_def)

lemma py_lower_Nil [simp]: "py_lower [] = []"
  by (simp add: py_lower_def)

lemma py_lower_eq_Nil [simp]: "py_lower s = [] \<longleftrightarrow> s = []"
  by (simp add: py_lower_def)

lemma length_py_lower [simp]: "length (py_lower s) = length s"
  by (simp add: py_lower_def)

lemma py_lower_append [simp]: "py_lower (s @ t) = py_lower s @ py_lower t"
  by (simp add: py_lower_def)

lemma split_from_no_blank: "w \<in> set (split_from v s) \<Longrightarrow> w \<noteq> []"
  by (induction v s rule: split_from.induct) (auto split: if_splits)

lemma py_split_no_blank: "w \<in> set (py_split s) \<Longrightarrow> w \<noteq> []"
  unfolding py_split_def by (rule split_from_no_blank)

section \<open>Numbers\<close>

text \<open>\<open>int(x)\<close> truncates towards zero.\<close>

definition py_int :: "pyfloat \<Rightarrow> int" where
  "py_int x = (if x < 0 then - \<lfloor>- x\<rfloor> else \<lfloor>x\<rfloor>)"

text \<open>Python's \<open>round(x, n)\<close>: to \<open>n\<close> decimals, ties to the even digit.\<close>

definition py_round :: "nat \<Rightarrow> pyfloat \<Rightarrow> pyfloat" where
  "py_round n x =
     (let s = x * 10 ^ n; f = \<lfloor>s\<rfloor>; d = s - of_int f in
      of_int (if d < 1/2 then f else if 1/2 < d then f + 1 else if even f then f else f + 1) / 10 ^ n)"

definition py_max :: "pyfloat \<Rightarrow> pyfloat list \<Rightarrow> pyfloat" where
  "py_max x xs = foldr max xs x"

lemma py_max_upper: "y \<in> insert x (set xs) \<Longrightarrow> y \<le> py_max x xs"
  unfolding py_max_def by (induction xs) (auto simp: le_max_iff_disj)

lemma py_max_in: "py_max x xs \<in> insert x (set xs)"
  unfolding py_max_def by (induction xs) (auto simp: max_def)

lemma py_max_bounds:
  "\<forall>y\<in>insert x (set xs). l \<le> y \<and> y \<le> u \<Longrightarrow> l \<le> py_max x xs \<and> py_max x xs \<le> u"
  using py_max_in [of x xs] by blast

lemma py_max_ge_iff: "c \<le> py_max x xs \<longleftrightarrow> (\<exists>y\<in>insert x (set xs). c \<le> y)"
  using py_max_in [of x xs] py_max_upper [of _ x xs] by (meson order_trans)

section \<open>Clamping\<close>

definition clamp01 :: "pyfloat \<Rightarrow> pyfloat" where
  "clamp01 v = max 0 (min 1 v)"

lemma clamp01_bounds [simp]: "0 \<le> clamp01 v" "clamp01 v \<le> 1"
  by (auto simp: clamp01_def)

lemma clamp01_mono: "u \<le> v \<Longrightarrow> clamp01 u \<le> clamp01 v"
  by (auto simp: clamp01_def)

lemma clamp01_id: "0 \<le> v \<Longrightarrow> v \<le> 1 \<Longrightarrow> clamp01 v = v"
  by (simp add: clamp01_def)

lemma clamp01_le0: "v \<le> 0 \<Longrightarrow> clamp01 v = 0"
  by (simp add: clamp01_def)

section \<open>Bounded sequences\<close>

text \<open>\<open>last_n n xs\<close>: what a deque with \<open>maxlen=n\<close> keeps of the values appended to it.\<close>

definition last_n :: "nat \<Rightarrow> 'a list \<Rightarrow> 'a list" where
  "last_n n xs = drop (length xs - n) xs"

lemma length_last_n [simp]: "length (last_n n xs) = min n (length xs)"
  by (simp add: last_n_def)

lemma last_n_short [simp]: "length xs \<le> n \<Longrightarrow> last_n n xs = xs"
  by (simp add: last_n_def)

lemma set_last_n: "set (last_n n xs) \<subseteq> set xs"
  by (simp add: last_n_def set_drop_subset)

lemma last_n_last: "0 < n \<Longrightarrow> last (last_n n (xs @ [x])) = x"
  by (cases "length xs < n") (auto simp: last_n_def)

lemma last_n_absorb: "last_n n (last_n n xs @ ys) = last_n n (xs @ ys)"
proof (cases "length xs \<le> n")
  case False
  then have "drop (length xs - n + (n + length ys - n)) xs = drop (length xs + length ys - n) xs"
    by simp
  with False show ?thesis by (simp add: last_n_def add.commute)
qed simp

lemma last_n_pop: "length xs \<le> n \<Longrightarrow> 0 < n \<Longrightarrow>
    last_n n (xs @ [x]) = (if length (xs @ [x]) > n then tl (xs @ [x]) else xs @ [x])"
  by (cases "length xs = n") (auto simp: last_n_def drop_Suc Suc_diff_le)

section \<open>Insertion-ordered dictionaries\<close>

text \<open>
  A Python dictionary is an association list with distinct keys: \<open>AList.update\<close> overwrites in
  place or appends, \<open>AList.delete\<close> is \<open>pop(key, None)\<close>, \<open>map_of\<close> is \<open>get\<close>.
\<close>

type_synonym ('k, 'v) dict = "('k \<times> 'v) list"

definition dict_wf :: "('k, 'v) dict \<Rightarrow> bool" where
  "dict_wf d = distinct (map fst d)"

lemma dict_wf_Nil [simp, intro]: "dict_wf []"
  by (simp add: dict_wf_def)

lemma dict_wf_update [simp, intro]: "dict_wf d \<Longrightarrow> dict_wf (AList.update k v d)"
  by (simp add: dict_wf_def distinct_update)

lemma dict_wf_delete [simp, intro]: "dict_wf d \<Longrightarrow> dict_wf (AList.delete k d)"
  by (simp add: dict_wf_def distinct_delete)

lemma map_of_update [simp]: "map_of (AList.update k v d) = (map_of d)(k \<mapsto> v)"
  by (rule update_conv')

lemma map_of_delete [simp]: "map_of (AList.delete k d) = (map_of d)(k := None)"
  by (rule delete_conv')

lemma update_fresh: "k \<notin> fst ` set d \<Longrightarrow> AList.update k v d = d @ [(k, v)]"
  by (induction d) auto

lemma map_of_in_set: "dict_wf d \<Longrightarrow> map_of d k = Some v \<longleftrightarrow> (k, v) \<in> set d"
  by (simp add: dict_wf_def)

lemma dict_wf_unique: "dict_wf d \<Longrightarrow> (k, v) \<in> set d \<Longrightarrow> (k, w) \<in> set d \<Longrightarrow> v = w"
  by (metis map_of_in_set option.inject)

lemma set_update_subset: "set (AList.update k v d) \<subseteq> insert (k, v) (set d)"
  by (induction d) auto

lemma set_delete_subset: "set (AList.delete k d) \<subseteq> set d"
  by (induction d) auto

section \<open>Filters and maxima used by several components\<close>

lemma dropWhile_eq_filter:
  assumes "sorted xs"
  shows "dropWhile (\<lambda>x. x < c) xs = filter (\<lambda>x. c \<le> x) (xs :: 'a :: linorder list)"
  using assms by (induction xs) (auto simp: not_less intro!: filter_True [symmetric])

lemma length_filter_mono:
  "(\<And>x. x \<in> set xs \<Longrightarrow> P x \<Longrightarrow> Q x) \<Longrightarrow> length (filter P xs) \<le> length (filter Q xs)"
  by (induction xs) auto

lemma sum_list_bounds:
  assumes "\<And>x. x \<in> set xs \<Longrightarrow> l \<le> x" "\<And>x. x \<in> set xs \<Longrightarrow> x \<le> (u :: rat)"
  shows "of_nat (length xs) * l \<le> sum_list xs \<and> sum_list xs \<le> of_nat (length xs) * u"
  using assms by (induction xs) (force simp: algebra_simps)+

definition mean :: "rat list \<Rightarrow> rat" where
  "mean xs = (if xs = [] then 0 else sum_list xs / of_nat (length xs))"

lemma mean_bounds:
  assumes "xs \<noteq> []" "\<And>x. x \<in> set xs \<Longrightarrow> l \<le> x" "\<And>x. x \<in> set xs \<Longrightarrow> x \<le> u"
  shows "l \<le> mean xs" "mean xs \<le> u"
proof -
  have n: "0 < (of_nat (length xs) :: rat)" using assms(1) by simp
  have "of_nat (length xs) * l \<le> sum_list xs" "sum_list xs \<le> of_nat (length xs) * u"
    using sum_list_bounds [of xs l u] assms(2,3) by blast+
  with n assms(1) show "l \<le> mean xs" "mean xs \<le> u"
    by (simp_all add: mean_def field_simps)
qed

end
