(* ===== verification/Ava_Contracts.thy ===== *)
theory Ava_Contracts
  imports Ava_Prelude
begin

text \<open>
  The interfaces the components use of each other, one locale each: the operations a client calls
  are the fixed parameters, the laws a provider promises are the assumptions, and what a client
  may conclude is proved once here. Every locale is interpreted on the model of the code in the
  theory of the component that provides it.
\<close>

section \<open>Bounded logs\<close>

text \<open>
  Several components keep the most recent \<open>cap\<close> values of a stream and forget older ones (the VAD
  noise history, the pre-roll buffer, the latency windows, the telemetry queue). The contract is
  that one push keeps the last \<open>cap\<close> values.
\<close>

locale bounded_log =
  fixes push :: "'a \<Rightarrow> 's \<Rightarrow> 's"
    and contents :: "'s \<Rightarrow> 'a list"
    and cap :: nat
    and inv :: "'s \<Rightarrow> bool"
  assumes push_contents: "inv s \<Longrightarrow> contents (push x s) = last_n cap (contents s @ [x])"
    and push_inv: "inv s \<Longrightarrow> inv (push x s)"
    and inv_length: "inv s \<Longrightarrow> length (contents s) \<le> cap"
    and cap_pos: "0 < cap"
begin

lemma fold_inv: "inv s \<Longrightarrow> inv (fold push xs s)"
  by (induction xs arbitrary: s) (auto intro: push_inv)

lemma fold_contents: "inv s \<Longrightarrow> contents (fold push xs s) = last_n cap (contents s @ xs)"
proof (induction xs arbitrary: s)
  case Nil
  then show ?case by (simp add: inv_length)
next
  case (Cons x xs)
  then have "contents (fold push (x # xs) s) = last_n cap (last_n cap (contents s @ [x]) @ xs)"
    by (simp add: push_inv push_contents)
  then show ?case by (simp add: last_n_absorb)
qed

lemma fold_length: "inv s \<Longrightarrow> length (contents (fold push xs s)) \<le> cap"
  by (simp add: fold_contents)

lemma push_newest: "inv s \<Longrightarrow> last (contents (push x s)) = x"
  by (simp add: push_contents last_n_last cap_pos)

lemma push_subset: "inv s \<Longrightarrow> set (contents (push x s)) \<subseteq> insert x (set (contents s))"
  using set_last_n [of cap "contents s @ [x]"] by (auto simp: push_contents)

end

section \<open>Keyed stores\<close>

locale keyed_store =
  fixes put :: "'k \<Rightarrow> 'v \<Rightarrow> 's \<Rightarrow> 's"
    and get :: "'s \<Rightarrow> 'k \<Rightarrow> 'v option"
    and remove :: "'k \<Rightarrow> 's \<Rightarrow> 's"
    and inv :: "'s \<Rightarrow> bool"
  assumes put_get: "inv s \<Longrightarrow> get (put k v s) = (get s)(k \<mapsto> v)"
    and remove_get: "inv s \<Longrightarrow> get (remove k s) = (get s)(k := None)"
    and put_inv: "inv s \<Longrightarrow> inv (put k v s)"
    and remove_inv: "inv s \<Longrightarrow> inv (remove k s)"
begin

definition put_all :: "('k \<times> 'v) list \<Rightarrow> 's \<Rightarrow> 's" where
  "put_all kvs s = fold (\<lambda>(k, v). put k v) kvs s"

lemma put_all_inv: "inv s \<Longrightarrow> inv (put_all kvs s)"
  by (induction kvs arbitrary: s) (auto simp: put_all_def intro: put_inv)

lemma put_all_get: "inv s \<Longrightarrow> get (put_all kvs s) = get s ++ map_of (rev kvs)"
proof (induction kvs arbitrary: s)
  case Nil
  then show ?case by (simp add: put_all_def)
next
  case (Cons kv kvs)
  obtain k v where kv: "kv = (k, v)" by (cases kv)
  have "get (put_all (kv # kvs) s) = get (put_all kvs (put k v s))"
    by (simp add: put_all_def kv)
  also have "\<dots> = get (put k v s) ++ map_of (rev kvs)"
    using Cons.prems by (intro Cons.IH put_inv)
  finally show ?case using Cons.prems by (simp add: kv put_get)
qed

end

section \<open>Machines with an inductive invariant\<close>

locale invariant_machine =
  fixes init :: "'s \<Rightarrow> bool"
    and step :: "'s \<Rightarrow> 's \<Rightarrow> bool"
    and inv :: "'s \<Rightarrow> bool"
  assumes init_inv: "init s \<Longrightarrow> inv s"
    and step_inv: "inv s \<Longrightarrow> step s t \<Longrightarrow> inv t"
begin

lemma steps_inv: "step\<^sup>*\<^sup>* s t \<Longrightarrow> inv s \<Longrightarrow> inv t"
  by (induction rule: rtranclp_induct) (auto intro: step_inv)

lemma reachable_inv: "init s \<Longrightarrow> step\<^sup>*\<^sup>* s t \<Longrightarrow> inv t"
  by (blast intro: steps_inv init_inv)

end

section \<open>Retry policies\<close>

text \<open>
  What the watchdog and the restart manager use of a retry policy: a failure is counted, asking for
  the delay gives a value between a positive floor and a ceiling, and a policy whose count has
  reached its budget is exhausted until it is cleared.
\<close>

locale retry_policy =
  fixes fail :: "time_s \<Rightarrow> 'p \<Rightarrow> 'p"
    and delay :: "'p \<Rightarrow> rat \<times> 'p"
    and exhausted :: "'p \<Rightarrow> bool"
    and clear :: "'p \<Rightarrow> 'p"
    and count :: "'p \<Rightarrow> nat"
    and budget :: "'p \<Rightarrow> nat"
    and lo :: "'p \<Rightarrow> rat"
    and hi :: "'p \<Rightarrow> rat"
    and inv :: "'p \<Rightarrow> bool"
  assumes fail_count: "count (fail t p) = Suc (count p)"
    and fail_const: "budget (fail t p) = budget p" "lo (fail t p) = lo p" "hi (fail t p) = hi p"
    and delay_const: "count (snd (delay p)) = count p" "budget (snd (delay p)) = budget p"
      "lo (snd (delay p)) = lo p" "hi (snd (delay p)) = hi p"
    and delay_bounds: "inv p \<Longrightarrow> 0 < count p \<Longrightarrow> lo p \<le> fst (delay p) \<and> fst (delay p) \<le> hi p"
    and exhausted_budget: "budget p \<le> count p \<Longrightarrow> exhausted p"
    and clear_count: "count (clear p) = 0"
    and clear_const: "budget (clear p) = budget p" "lo (clear p) = lo p" "hi (clear p) = hi p"
    and inv_fail: "inv p \<Longrightarrow> inv (fail t p)"
    and inv_delay: "inv p \<Longrightarrow> inv (snd (delay p))"
    and inv_clear: "inv p \<Longrightarrow> inv (clear p)"
begin

definition attempt :: "time_s \<Rightarrow> 'p \<Rightarrow> 'p" where
  "attempt t p = snd (delay (fail t p))"

lemma attempt_count: "count (attempt t p) = Suc (count p)"
  by (simp add: attempt_def delay_const fail_count)

lemma attempt_budget: "budget (attempt t p) = budget p"
  by (simp add: attempt_def delay_const fail_const)

lemma attempt_inv: "inv p \<Longrightarrow> inv (attempt t p)"
  by (simp add: attempt_def inv_delay inv_fail)

lemma attempt_delay: "inv p \<Longrightarrow> lo p \<le> fst (delay (fail t p)) \<and> fst (delay (fail t p)) \<le> hi p"
  using delay_bounds [of "fail t p"] by (simp add: inv_fail fail_count fail_const)

lemma attempts_count: "count (fold attempt ts p) = count p + length ts"
  by (induction ts arbitrary: p) (auto simp: attempt_count)

lemma attempts_budget: "budget (fold attempt ts p) = budget p"
  by (induction ts arbitrary: p) (auto simp: attempt_budget)

lemma attempts_exhausted: "budget p \<le> count p + length ts \<Longrightarrow> exhausted (fold attempt ts p)"
  by (rule exhausted_budget) (simp add: attempts_count attempts_budget)

end

section \<open>Resettable streams\<close>

text \<open>
  What the engine and the watchdog use of the speech stream: a reset that succeeds moves to a
  generation that was never seen before.
\<close>

locale resettable =
  fixes reset :: "'i \<Rightarrow> 's \<Rightarrow> ('e + unit) \<times> 's"
    and generation :: "'s \<Rightarrow> nat"
  assumes reset_generation: "generation (snd (reset i s)) = Suc (generation s)"
begin

lemma resets_generation:
  "generation (fold (\<lambda>i s. snd (reset i s)) is s) = generation s + length is"
  by (induction "is" arbitrary: s) (auto simp: reset_generation)

lemma reset_fresh: "g \<le> generation s \<Longrightarrow> g \<noteq> generation (snd (reset i s))"
  by (simp add: reset_generation)

end

end
