(* ===== verification/Recovery_Policy.thy ===== *)
theory Recovery_Policy
  imports Ava_Contracts
begin

text \<open>
  \<^verbatim>\<open>src/runtime/hardening/recovery_policy.py\<close>: the exponential-backoff retry policy of one
  subsystem, used by the watchdog and by the restart manager. The record has the fields of the
  class; the lemmas give the closed form of the delays and of the escalation decision, and the
  interpretation says that it provides the contract \<open>retry_policy\<close>.
\<close>

section \<open>State and operations\<close>

record recovery_policy =
  rp_max_retries :: nat
  rp_initial_ms :: pyfloat
  rp_max_ms :: pyfloat
  rp_threshold :: nat
  rp_retries :: nat
  rp_at_max :: nat
  rp_last_failure :: time_s
  rp_total :: nat

definition new_policy :: "nat \<Rightarrow> pyfloat \<Rightarrow> pyfloat \<Rightarrow> nat \<Rightarrow> recovery_policy" where
  "new_policy n i m e =
     \<lparr>rp_max_retries = n, rp_initial_ms = i, rp_max_ms = m, rp_threshold = e,
      rp_retries = 0, rp_at_max = 0, rp_last_failure = 0, rp_total = 0\<rparr>"

definition rp_record_failure :: "time_s \<Rightarrow> recovery_policy \<Rightarrow> recovery_policy" where
  "rp_record_failure now p =
     p\<lparr>rp_retries := rp_retries p + 1, rp_total := rp_total p + 1, rp_last_failure := now\<rparr>"

text \<open>\<open>2 ** (retries - 1)\<close>, which is 0.5 when nothing has failed yet.\<close>

definition backoff_factor :: "nat \<Rightarrow> pyfloat" where
  "backoff_factor r = (if r = 0 then 1/2 else 2 ^ (r - 1))"

definition rp_next_backoff :: "recovery_policy \<Rightarrow> pyfloat \<times> recovery_policy" where
  "rp_next_backoff p =
     (let delay = min (rp_initial_ms p * backoff_factor (rp_retries p)) (rp_max_ms p) in
      (delay, if rp_max_ms p \<le> delay then p\<lparr>rp_at_max := rp_at_max p + 1\<rparr> else p))"

definition rp_should_escalate :: "recovery_policy \<Rightarrow> bool" where
  "rp_should_escalate p =
     (if rp_max_retries p \<le> rp_retries p then True
      else if rp_threshold p \<le> rp_at_max p then True
      else False)"

definition rp_reset :: "recovery_policy \<Rightarrow> recovery_policy" where
  "rp_reset p = p\<lparr>rp_retries := 0, rp_at_max := 0, rp_last_failure := 0\<rparr>"

text \<open>\<open>float("inf")\<close> is \<open>None\<close>.\<close>

definition rp_seconds_since_failure :: "time_s \<Rightarrow> recovery_policy \<Rightarrow> time_s option" where
  "rp_seconds_since_failure now p =
     (if rp_last_failure p = 0 then None else Some (now - rp_last_failure p))"

section \<open>The contract of a retry policy\<close>

definition rp_wf :: "recovery_policy \<Rightarrow> bool" where
  "rp_wf p \<longleftrightarrow> 0 < rp_initial_ms p \<and> 0 < rp_max_ms p"

definition rp_floor :: "recovery_policy \<Rightarrow> pyfloat" where
  "rp_floor p = min (rp_initial_ms p) (rp_max_ms p)"

lemmas rp_ops_defs = rp_record_failure_def rp_next_backoff_def rp_should_escalate_def rp_reset_def

lemma backoff_factor_ge1: "0 < r \<Longrightarrow> 1 \<le> backoff_factor r"
  by (simp add: backoff_factor_def)

lemma backoff_factor_mono: "r \<le> s \<Longrightarrow> backoff_factor r \<le> backoff_factor s"
proof (cases "r = 0")
  case True
  assume "r \<le> s"
  show ?thesis
  proof (cases "s = 0")
    case False
    then have "1 \<le> backoff_factor s" by (simp add: backoff_factor_ge1)
    with True show ?thesis by (simp add: backoff_factor_def)
  qed (simp add: True)
next
  case False
  assume "r \<le> s"
  with False show ?thesis by (simp add: backoff_factor_def power_increasing diff_le_mono)
qed

interpretation rpol: retry_policy rp_record_failure rp_next_backoff rp_should_escalate rp_reset
  rp_retries rp_max_retries rp_floor rp_max_ms rp_wf
proof unfold_locales
  fix p
  assume "rp_wf p" "0 < rp_retries p"
  then have "rp_initial_ms p * 1 \<le> rp_initial_ms p * backoff_factor (rp_retries p)"
    by (intro mult_left_mono) (auto simp: backoff_factor_ge1 rp_wf_def)
  then show "rp_floor p \<le> fst (rp_next_backoff p) \<and> fst (rp_next_backoff p) \<le> rp_max_ms p"
    by (auto simp: rp_next_backoff_def rp_floor_def Let_def)
qed (auto simp: rp_ops_defs rp_floor_def rp_wf_def Let_def)

section \<open>Closed forms\<close>

text \<open>The delay of the \<open>k\<close>-th consecutive failure of a policy, counting from 1.\<close>

definition rp_delay_at :: "recovery_policy \<Rightarrow> nat \<Rightarrow> pyfloat" where
  "rp_delay_at p k = min (rp_initial_ms p * 2 ^ (k - 1)) (rp_max_ms p)"

lemma rp_attempt_delay:
  "fst (rp_next_backoff (rp_record_failure t p)) = rp_delay_at p (rp_retries p + 1)"
  by (simp add: rp_ops_defs rp_delay_at_def backoff_factor_def Let_def)

lemma rp_attempt_consts [simp]:
  "rp_initial_ms (rpol.attempt t p) = rp_initial_ms p"
  "rp_max_ms (rpol.attempt t p) = rp_max_ms p"
  "rp_threshold (rpol.attempt t p) = rp_threshold p"
  "rp_max_retries (rpol.attempt t p) = rp_max_retries p"
  "rp_retries (rpol.attempt t p) = rp_retries p + 1"
  by (simp_all add: rpol.attempt_def rp_ops_defs Let_def)

lemma rp_attempt_at_max:
  "rp_at_max (rpol.attempt t p) =
     rp_at_max p + (if rp_max_ms p \<le> rp_initial_ms p * 2 ^ rp_retries p then 1 else 0)"
  by (simp add: rpol.attempt_def rp_ops_defs backoff_factor_def Let_def)

lemma rp_attempts_consts [simp]:
  "rp_initial_ms (fold rpol.attempt ts p) = rp_initial_ms p"
  "rp_max_ms (fold rpol.attempt ts p) = rp_max_ms p"
  "rp_threshold (fold rpol.attempt ts p) = rp_threshold p"
  "rp_max_retries (fold rpol.attempt ts p) = rp_max_retries p"
  by (induction ts arbitrary: p) simp_all

lemma rp_attempts_at_max:
  "rp_at_max (fold rpol.attempt ts p) =
     rp_at_max p + length (filter (\<lambda>j. rp_max_ms p \<le> rp_initial_ms p * 2 ^ j)
                             [rp_retries p..<rp_retries p + length ts])"
proof (induction ts arbitrary: p)
  case (Cons t ts)
  have "[rp_retries p..<rp_retries p + length (t # ts)]
      = rp_retries p # [rp_retries p + 1..<rp_retries p + 1 + length ts]"
    by (simp add: upt_rec)
  then show ?case
    using Cons.IH [of "rpol.attempt t p"] by (simp add: rp_attempt_at_max)
qed simp

lemma rp_attempts_escalate:
  "rp_should_escalate (fold rpol.attempt ts p) \<longleftrightarrow>
     rp_max_retries p \<le> rp_retries p + length ts \<or>
     rp_threshold p \<le> rp_at_max p + length (filter (\<lambda>j. rp_max_ms p \<le> rp_initial_ms p * 2 ^ j)
                             [rp_retries p..<rp_retries p + length ts])"
  by (simp add: rp_should_escalate_def rpol.attempts_count rp_attempts_at_max)

text \<open>
  Where the ceiling is not reached before the last retry, the second escalation rule never fires
  first: the policy escalates at \<open>max_retries\<close> failures and not before.
\<close>

lemma rp_no_early_escalation:
  assumes slow: "rp_initial_ms p * 2 ^ (rp_max_retries p - 2) < rp_max_ms p"
    and thr: "0 < rp_threshold p" and pos: "0 < rp_initial_ms p"
    and fresh: "rp_retries p = 0" "rp_at_max p = 0"
  shows "rp_should_escalate (fold rpol.attempt ts p) \<longleftrightarrow> rp_max_retries p \<le> length ts"
proof (cases "rp_max_retries p \<le> length ts")
  case False
  have "rp_initial_ms p * 2 ^ j < rp_max_ms p" if "j < length ts" for j
  proof -
    have "rp_initial_ms p * 2 ^ j \<le> rp_initial_ms p * 2 ^ (rp_max_retries p - 2)"
      using that False pos by (intro mult_left_mono power_increasing) auto
    with slow show ?thesis by simp
  qed
  then have "filter (\<lambda>j. rp_max_ms p \<le> rp_initial_ms p * 2 ^ j) [0..<length ts] = []"
    by (auto simp: filter_empty_conv not_le)
  with False thr fresh show ?thesis by (simp add: rp_attempts_escalate)
qed (simp add: rp_attempts_escalate fresh)

section \<open>Properties\<close>

text \<open>After \<open>n\<close> consecutive failures of a policy that has just been reset, the next delay is
  \<open>min (initial * 2^n) max\<close> milliseconds: it never leaves the interval from the smaller of the two
  parameters to the ceiling, and no later failure waits for less.\<close>

theorem backoff_closed_form:
  assumes "0 < rp_initial_ms p" "0 < rp_max_ms p" "length ts \<le> length us"
  shows "let delay = (\<lambda>hist. fst (rp_next_backoff (rp_record_failure now
                        (fold rpol.attempt hist (rp_reset p))))) in
    delay ts = min (rp_initial_ms p * 2 ^ length ts) (rp_max_ms p) \<and>
    min (rp_initial_ms p) (rp_max_ms p) \<le> delay ts \<and> delay ts \<le> delay us \<and> delay us \<le> rp_max_ms p"
proof -
  have eq: "fst (rp_next_backoff (rp_record_failure now (fold rpol.attempt hist (rp_reset p))))
      = min (rp_initial_ms p * 2 ^ length hist) (rp_max_ms p)" for hist
    by (simp add: rp_attempt_delay rp_delay_at_def rpol.attempts_count rp_reset_def)
  have "(1::rat) \<le> 2 ^ length ts" "(2::rat) ^ length ts \<le> 2 ^ length us"
    using assms(3) by (simp_all add: power_increasing)
  with assms(1) have "rp_initial_ms p * 1 \<le> rp_initial_ms p * 2 ^ length ts"
    "rp_initial_ms p * 2 ^ length ts \<le> rp_initial_ms p * 2 ^ length us"
    by (auto intro: mult_left_mono)
  then show ?thesis by (auto simp: eq Let_def)
qed

theorem backoff_closed_form_witness:
  "fst (rp_next_backoff (rp_record_failure 7 (fold rpol.attempt [1, 2, 3] (rp_reset (new_policy 8 100 8000 4))))) = 800"
  using backoff_closed_form [of "new_policy 8 100 8000 4" "[1, 2, 3]" "[1, 2, 3]" 7]
  by (simp add: new_policy_def Let_def)

text \<open>A policy escalates at the latest after \<open>max_retries\<close> consecutive failures, and earlier
  exactly when the delay has reached the ceiling \<open>escalation_threshold\<close> times; a reset clears it.\<close>

theorem escalation_exact:
  "rp_should_escalate (fold rpol.attempt ts (rp_reset p)) \<longleftrightarrow>
     rp_max_retries p \<le> length ts \<or>
     rp_threshold p \<le> length (filter (\<lambda>j. rp_max_ms p \<le> rp_initial_ms p * 2 ^ j) [0..<length ts])"
  using rp_attempts_escalate [of ts "rp_reset p"] by (simp add: rp_reset_def)

end
