(* ===== verification/Telemetry_Events.thy ===== *)
theory Telemetry_Events
  imports Ava_Contracts
begin

text \<open>
  \<^verbatim>\<open>src/runtime/telemetry/events.py\<close> and \<^verbatim>\<open>schema.py\<close>: the telemetry dispatcher, a bounded queue that
  drops its oldest event when it is full. The generated event id and time stamp of an event are not
  read by any modelled code and are left out. \<open>td_logged\<close> records what the worker thread printed.
\<close>

datatype pval = PStr string | PInt int | PFloat pyfloat | PBool bool

record telemetry_event =
  te_correlation_id :: string
  te_subsystem :: string
  te_event_type :: string
  te_payload :: "(string, pval) dict"

record dispatcher =
  td_queue :: "telemetry_event list"
  td_dropped :: nat
  td_logged :: "telemetry_event list"

definition td_maxsize :: nat where
  "td_maxsize = 1000"

definition new_dispatcher :: dispatcher where
  "new_dispatcher = \<lparr>td_queue = [], td_dropped = 0, td_logged = []\<rparr>"

definition td_put :: "telemetry_event \<Rightarrow> dispatcher \<Rightarrow> dispatcher" where
  "td_put e d =
     (if length (td_queue d) < td_maxsize then d\<lparr>td_queue := td_queue d @ [e]\<rparr>
      else d\<lparr>td_queue := tl (td_queue d) @ [e], td_dropped := td_dropped d + 1\<rparr>)"

definition emit_structured_event ::
  "string \<Rightarrow> string \<Rightarrow> string \<Rightarrow> (string, pval) dict \<Rightarrow> dispatcher \<Rightarrow> dispatcher" where
  "emit_structured_event corr sub typ payload d =
     td_put \<lparr>te_correlation_id = corr, te_subsystem = sub, te_event_type = typ, te_payload = payload\<rparr> d"

text \<open>One round of the worker thread: take the oldest event and print it, if there is one.\<close>

definition td_worker :: "dispatcher \<Rightarrow> dispatcher" where
  "td_worker d =
     (case td_queue d of [] \<Rightarrow> d
      | e # es \<Rightarrow> d\<lparr>td_queue := es, td_logged := td_logged d @ [e]\<rparr>)"

definition td_wf :: "dispatcher \<Rightarrow> bool" where
  "td_wf d \<longleftrightarrow> length (td_queue d) \<le> td_maxsize"

lemma td_wf_new [ava_inv]: "td_wf new_dispatcher"
  by (simp add: td_wf_def new_dispatcher_def)

lemma td_wf_worker [ava_inv]: "td_wf d \<Longrightarrow> td_wf (td_worker d)"
  by (auto simp: td_wf_def td_worker_def split: list.splits)

interpretation tlog: bounded_log td_put td_queue td_maxsize td_wf
proof unfold_locales
  fix e d
  assume wf: "td_wf d"
  show "td_queue (td_put e d) = last_n td_maxsize (td_queue d @ [e])"
    using wf last_n_pop [of "td_queue d" td_maxsize e]
    by (cases "td_queue d") (auto simp: td_put_def td_wf_def td_maxsize_def)
qed (auto simp: td_wf_def td_put_def td_maxsize_def)

lemma td_wf_emit [ava_inv]: "td_wf d \<Longrightarrow> td_wf (emit_structured_event c s t p d)"
  unfolding emit_structured_event_def by (rule tlog.push_inv)

text \<open>A run of the dispatcher: events put by any thread, interleaved with rounds of the worker.\<close>

datatype td_action = Put telemetry_event | Work

fun td_act :: "td_action \<Rightarrow> dispatcher \<Rightarrow> dispatcher" where
  "td_act (Put e) d = td_put e d"
| "td_act Work d = td_worker d"

fun puts :: "td_action list \<Rightarrow> telemetry_event list" where
  "puts [] = []"
| "puts (Put e # as) = e # puts as"
| "puts (Work # as) = puts as"

lemma puts_snoc: "puts (as @ [a]) = puts as @ (case a of Put e \<Rightarrow> [e] | Work \<Rightarrow> [])"
  by (induction as rule: puts.induct) (auto split: td_action.splits)

lemma td_run_accounts:
  fixes as
  defines "d \<equiv> fold td_act as new_dispatcher"
  shows "td_wf d \<and> length (puts as) = length (td_logged d) + length (td_queue d) + td_dropped d
    \<and> (\<exists>old. puts as = old @ td_queue d)"
  unfolding d_def
proof (induction as rule: rev_induct)
  case Nil
  then show ?case by (simp add: td_wf_def new_dispatcher_def)
next
  case (snoc a as)
  let ?d = "fold td_act as new_dispatcher"
  from snoc obtain old where wf: "td_wf ?d" and old: "puts as = old @ td_queue ?d"
    and len: "length (puts as) = length (td_logged ?d) + length (td_queue ?d) + td_dropped ?d" by blast
  show ?case
  proof (cases a)
    case (Put e)
    show ?thesis
    proof (cases "length (td_queue ?d) < td_maxsize")
      case True
      with Put wf old len show ?thesis by (simp add: puts_snoc td_put_def td_wf_def)
    next
      case False
      then obtain q qs where q: "td_queue ?d = q # qs" by (cases "td_queue ?d") (auto simp: td_maxsize_def)
      with Put False wf old len show ?thesis
        by (auto simp: puts_snoc td_put_def td_wf_def intro!: exI [of _ "old @ [q]"])
    qed
  next
    case Work
    with wf old len show ?thesis
      by (cases "td_queue ?d") (auto simp: puts_snoc td_worker_def td_wf_def)
  qed
qed

text \<open>However emitting threads and the worker interleave, the queue never exceeds 1000 events, it
  holds the most recently emitted ones in order, and every emitted event is printed, queued or
  counted as dropped.\<close>

theorem telemetry_accounts_for_every_event:
  "length (td_queue (fold td_act as new_dispatcher)) \<le> 1000
   \<and> td_queue (fold td_act as new_dispatcher)
       = last_n (length (td_queue (fold td_act as new_dispatcher))) (puts as)
   \<and> length (puts as) = length (td_logged (fold td_act as new_dispatcher))
       + length (td_queue (fold td_act as new_dispatcher)) + td_dropped (fold td_act as new_dispatcher)"
proof -
  note acc = td_run_accounts [of as]
  then obtain old where "puts as = old @ td_queue (fold td_act as new_dispatcher)" by blast
  then have "td_queue (fold td_act as new_dispatcher)
      = last_n (length (td_queue (fold td_act as new_dispatcher))) (puts as)"
    by (simp add: last_n_def)
  with acc show ?thesis by (simp add: td_wf_def td_maxsize_def)
qed

end
