(* ===== verification/Fault_Classifier.thy ===== *)
theory Fault_Classifier
  imports Ava_Prelude
begin

text \<open>
  \<^verbatim>\<open>src/runtime/hardening/fault_classifier.py\<close>: the triage of failures. \<open>isinstance\<close> is modelled by
  the position of an exception in Python's class hierarchy: \<open>TimeoutError\<close> and
  \<open>FileNotFoundError\<close> are subclasses of \<open>OSError\<close>; the constructor \<open>OSError\<close> stands for that class and
  its other subclasses.
\<close>

datatype fault_type = TRANSIENT | RECOVERABLE | CRITICAL

fun fault_rank :: "fault_type \<Rightarrow> nat" where
  "fault_rank TRANSIENT = 0"
| "fault_rank RECOVERABLE = 1"
| "fault_rank CRITICAL = 2"

text \<open>Faults are ordered by severity.\<close>

instantiation fault_type :: linorder
begin

definition less_eq_fault_type :: "fault_type \<Rightarrow> fault_type \<Rightarrow> bool" where
  "less_eq_fault_type a b \<longleftrightarrow> fault_rank a \<le> fault_rank b"

definition less_fault_type :: "fault_type \<Rightarrow> fault_type \<Rightarrow> bool" where
  "less_fault_type a b \<longleftrightarrow> fault_rank a < fault_rank b"

instance
proof
  fix a b :: fault_type
  assume "a \<le> b" "b \<le> a"
  then show "a = b" by (cases a; cases b) (auto simp: less_eq_fault_type_def)
qed (auto simp: less_eq_fault_type_def less_fault_type_def)

end

fun fault_value :: "fault_type \<Rightarrow> string" where
  "fault_value TRANSIENT = ''TRANSIENT''"
| "fault_value RECOVERABLE = ''RECOVERABLE''"
| "fault_value CRITICAL = ''CRITICAL''"

fun is_transient_exc :: "py_exc \<Rightarrow> bool" where
  "is_transient_exc (TimeoutError m) = True"
| "is_transient_exc QueueEmpty = True"
| "is_transient_exc QueueFull = True"
| "is_transient_exc (OSError m) = True"
| "is_transient_exc (FileNotFoundError m) = True"
| "is_transient_exc _ = False"

fun is_critical_exc :: "py_exc \<Rightarrow> bool" where
  "is_critical_exc (FileNotFoundError m) = True"
| "is_critical_exc MemoryError = True"
| "is_critical_exc SystemExit = True"
| "is_critical_exc KeyboardInterrupt = True"
| "is_critical_exc _ = False"

definition classify_exception :: "py_exc \<Rightarrow> fault_type" where
  "classify_exception e =
     (if is_critical_exc e then CRITICAL
      else if is_transient_exc e then TRANSIENT
      else RECOVERABLE)"

definition classify_watchdog_trigger :: "string \<Rightarrow> fault_type" where
  "classify_watchdog_trigger reason =
     (if reason \<in> {''model_corrupted'', ''memory_exhausted''} then CRITICAL
      else if reason \<in> {''worker_hang'', ''queue_overflow'', ''inactivity''} then TRANSIENT
      else RECOVERABLE)"

datatype fault_cause = Cause_exc py_exc | Cause_reason string | Cause_none

fun cause_str :: "fault_cause \<Rightarrow> string" where
  "cause_str (Cause_reason r) = r"
| "cause_str (Cause_exc (ValueError m)) = m"
| "cause_str (Cause_exc (TypeError m)) = m"
| "cause_str (Cause_exc (KeyError m)) = m"
| "cause_str (Cause_exc (RuntimeError m)) = m"
| "cause_str (Cause_exc (TimeoutError m)) = m"
| "cause_str (Cause_exc (OSError m)) = m"
| "cause_str (Cause_exc (FileNotFoundError m)) = m"
| "cause_str (Cause_exc (OtherException m)) = m"
| "cause_str (Cause_exc _) = ''''"
| "cause_str Cause_none = ''None''"

definition classify :: "fault_cause \<Rightarrow> bool \<Rightarrow> bool \<Rightarrow> bool \<Rightarrow> fault_type" where
  "classify cause is_timeout is_queue_overflow is_watchdog =
     (if is_timeout \<or> is_queue_overflow then TRANSIENT
      else case cause of
        Cause_exc e \<Rightarrow> classify_exception e
      | Cause_reason r \<Rightarrow> if is_watchdog then classify_watchdog_trigger r else RECOVERABLE
      | Cause_none \<Rightarrow> RECOVERABLE)"

lemma classify_flagged [simp]: "t \<or> q \<Longrightarrow> classify c t q w = TRANSIENT"
  by (auto simp: classify_def)

lemma classify_watchdog [simp]:
  "classify (Cause_reason r) False False True = classify_watchdog_trigger r"
  by (simp add: classify_def)

text \<open>A fault is classified CRITICAL exactly when neither a timeout nor a queue overflow is
  signalled and the cause is one of the four fatal exceptions or one of the two fatal watchdog
  reasons; in particular a missing file is critical although it also is an \<open>OSError\<close>, and none of
  the four reasons the watchdog raises itself is ever critical.\<close>

theorem classify_critical_iff:
  "(classify c t q w = CRITICAL \<longleftrightarrow>
      \<not> t \<and> \<not> q \<and>
      (case c of
         Cause_exc e \<Rightarrow> e \<in> {MemoryError, SystemExit, KeyboardInterrupt} \<or> (\<exists>m. e = FileNotFoundError m)
       | Cause_reason r \<Rightarrow> w \<and> r \<in> {''model_corrupted'', ''memory_exhausted''}
       | Cause_none \<Rightarrow> False))
   \<and> classify_watchdog_trigger ` {''worker_dead'', ''worker_hang'', ''queue_overflow'', ''vad_failure''}
       = {TRANSIENT, RECOVERABLE}"
proof
  have exc: "classify_exception e = CRITICAL \<longleftrightarrow>
      e \<in> {MemoryError, SystemExit, KeyboardInterrupt} \<or> (\<exists>m. e = FileNotFoundError m)" for e
    by (cases e) (auto simp: classify_exception_def)
  have wd: "classify_watchdog_trigger r = CRITICAL \<longleftrightarrow> r \<in> {''model_corrupted'', ''memory_exhausted''}" for r
    by (auto simp: classify_watchdog_trigger_def)
  show "classify c t q w = CRITICAL \<longleftrightarrow>
      \<not> t \<and> \<not> q \<and>
      (case c of
         Cause_exc e \<Rightarrow> e \<in> {MemoryError, SystemExit, KeyboardInterrupt} \<or> (\<exists>m. e = FileNotFoundError m)
       | Cause_reason r \<Rightarrow> w \<and> r \<in> {''model_corrupted'', ''memory_exhausted''}
       | Cause_none \<Rightarrow> False)"
    by (cases c) (simp_all add: classify_def exc wd)
qed (simp add: classify_watchdog_trigger_def, blast)

end
