(* ===== verification/Restart_Manager.thy ===== *)
theory Restart_Manager
  imports Recovery_Policy Telemetry_Events Fault_Classifier
begin

text \<open>
  \<^verbatim>\<open>src/runtime/hardening/restart_manager.py\<close>: restart counts, backoff and cooldown per managed
  subsystem. A registered handler is code of the caller; the model takes its outcome (returned, or
  raised an exception) as an argument. \<open>request_restart\<close> reads the clock when the failure is
  recorded, for the cooldown, and after the handler has returned.
\<close>

section \<open>State\<close>

definition MANAGED_SUBSYSTEMS :: "string list" where
  "MANAGED_SUBSYSTEMS = [''audio'', ''asr'', ''vad'', ''matcher'']"

definition default_policies :: "(string, recovery_policy) dict" where
  "default_policies =
     [(''audio'', new_policy 5 200 8000 3),
      (''asr'', new_policy 5 100 4000 3),
      (''vad'', new_policy 3 200 3200 2),
      (''matcher'', new_policy 3 50 800 2)]"

record restart_record =
  rr_name :: string
  rr_policy :: recovery_policy
  rr_restart_count :: nat
  rr_last_restart :: time_s
  rr_cooldown :: time_s

definition new_restart_record :: "string \<Rightarrow> recovery_policy \<Rightarrow> restart_record" where
  "new_restart_record n p =
     \<lparr>rr_name = n, rr_policy = p, rr_restart_count = 0, rr_last_restart = 0, rr_cooldown = 2\<rparr>"

record restart_manager =
  rm_records :: "(string, restart_record) dict"
  rm_handlers :: "(string, bool) dict" \<comment> \<open>whether a handler is registered\<close>

definition new_restart_manager :: restart_manager where
  "new_restart_manager =
     \<lparr>rm_records = map (\<lambda>(n, p). (n, new_restart_record n p)) default_policies,
      rm_handlers = map (\<lambda>n. (n, False)) MANAGED_SUBSYSTEMS\<rparr>"

section \<open>Operations\<close>

definition rm_register_handler :: "string \<Rightarrow> restart_manager \<Rightarrow> py_exc + restart_manager" where
  "rm_register_handler subsystem m =
     (if subsystem \<notin> set MANAGED_SUBSYSTEMS
      then Inl (ValueError (''Unknown subsystem: '' @ subsystem))
      else Inr (m\<lparr>rm_handlers := AList.update subsystem True (rm_handlers m)\<rparr>))"

record restart_clock =
  rc_failure :: time_s
  rc_now :: time_s
  rc_done :: time_s

definition rm_delay :: "restart_clock \<Rightarrow> restart_record \<Rightarrow> pyfloat" where
  "rm_delay clk r =
     (let delay = fst (rp_next_backoff (rp_record_failure (rc_failure clk) (rr_policy r)));
          since_last = rc_now clk - rr_last_restart r in
      if since_last < rr_cooldown r \<and> 0 < rr_last_restart r
      then max delay ((rr_cooldown r - since_last) * 1000) else delay)"

definition rm_run_handler :: "py_exc option \<Rightarrow> string \<Rightarrow> string \<Rightarrow> time_s \<Rightarrow>
    restart_record \<times> dispatcher \<Rightarrow> restart_record \<times> dispatcher" where
  "rm_run_handler outcome corr subsystem t_done rd =
     (case rd of (r, d) \<Rightarrow>
       (case outcome of
          None \<Rightarrow>
            (let r' = r\<lparr>rr_restart_count := rr_restart_count r + 1, rr_last_restart := t_done\<rparr> in
             (r', emit_structured_event corr subsystem ''subsystem_restart_completed''
                    [(''restart_count'', PInt (int (rr_restart_count r')))] d))
        | Some e \<Rightarrow>
            (r, emit_structured_event corr subsystem ''subsystem_restart_failed''
                  [(''error'', PStr (cause_str (Cause_exc e)))] d)))"

definition rm_request_restart :: "string \<Rightarrow> string \<Rightarrow> string \<Rightarrow> restart_clock \<Rightarrow> py_exc option \<Rightarrow>
    restart_manager \<times> dispatcher \<Rightarrow> py_exc + pyfloat \<times> restart_manager \<times> dispatcher" where
  "rm_request_restart subsystem reason corr clk outcome md =
     (case md of (m, d) \<Rightarrow>
       (case map_of (rm_records m) subsystem of
          None \<Rightarrow> Inl (ValueError (''Unknown subsystem: '' @ subsystem))
        | Some r \<Rightarrow>
            (let p = rpol.attempt (rc_failure clk) (rr_policy r);
                 delay_ms = rm_delay clk r;
                 esc = rp_should_escalate p;
                 d1 = emit_structured_event corr subsystem ''subsystem_restart_requested''
                        [(''reason'', PStr reason), (''retries'', PInt (int (rp_retries p))),
                         (''max_retries'', PInt (int (rp_max_retries p))),
                         (''delay_ms'', PFloat delay_ms), (''should_escalate'', PBool esc)] d;
                 (r2, d2) =
                   (if map_of (rm_handlers m) subsystem = Some True \<and> \<not> esc
                    then rm_run_handler outcome corr subsystem (rc_done clk) (r\<lparr>rr_policy := p\<rparr>, d1)
                    else (r\<lparr>rr_policy := p\<rparr>, d1))
             in Inr (delay_ms, m\<lparr>rm_records := AList.update subsystem r2 (rm_records m)\<rparr>, d2))))"

definition rm_record_success :: "string \<Rightarrow> restart_manager \<Rightarrow> restart_manager" where
  "rm_record_success subsystem m =
     (case map_of (rm_records m) subsystem of
        None \<Rightarrow> m
      | Some r \<Rightarrow> m\<lparr>rm_records := AList.update subsystem (r\<lparr>rr_policy := rp_reset (rr_policy r)\<rparr>)
                                    (rm_records m)\<rparr>)"

definition rm_should_escalate :: "string \<Rightarrow> restart_manager \<Rightarrow> bool" where
  "rm_should_escalate subsystem m =
     (case map_of (rm_records m) subsystem of
        None \<Rightarrow> False
      | Some r \<Rightarrow> rp_should_escalate (rr_policy r))"

definition rm_restart_count :: "string \<Rightarrow> restart_manager \<Rightarrow> nat" where
  "rm_restart_count subsystem m =
     (case map_of (rm_records m) subsystem of None \<Rightarrow> 0 | Some r \<Rightarrow> rr_restart_count r)"

section \<open>Invariant\<close>

text \<open>
  Every managed subsystem has a record whose policy carries that subsystem's default parameters,
  and whose ceiling counter agrees with its retries.
\<close>

definition policy_consistent :: "recovery_policy \<Rightarrow> bool" where
  "policy_consistent p \<longleftrightarrow>
     rp_at_max p = length (filter (\<lambda>j. rp_max_ms p \<le> rp_initial_ms p * 2 ^ j) [0..<rp_retries p])"

definition same_params :: "recovery_policy \<Rightarrow> recovery_policy \<Rightarrow> bool" where
  "same_params p q \<longleftrightarrow>
     rp_max_retries p = rp_max_retries q \<and> rp_initial_ms p = rp_initial_ms q \<and>
     rp_max_ms p = rp_max_ms q \<and> rp_threshold p = rp_threshold q"

definition record_wf :: "string \<Rightarrow> restart_record \<Rightarrow> bool" where
  "record_wf n r \<longleftrightarrow>
     rr_name r = n \<and> rr_cooldown r = 2 \<and> policy_consistent (rr_policy r) \<and>
     (\<exists>p. map_of default_policies n = Some p \<and> same_params (rr_policy r) p)"

definition rm_wf :: "restart_manager \<Rightarrow> bool" where
  "rm_wf m \<longleftrightarrow>
     dict_wf (rm_records m) \<and> dom (map_of (rm_records m)) = set MANAGED_SUBSYSTEMS \<and>
     (\<forall>n r. map_of (rm_records m) n = Some r \<longrightarrow> record_wf n r)"

lemma default_policies_cases:
  assumes "map_of default_policies n = Some p"
  obtains "n = ''audio''" "p = new_policy 5 200 8000 3" | "n = ''asr''" "p = new_policy 5 100 4000 3"
    | "n = ''vad''" "p = new_policy 3 200 3200 2" | "n = ''matcher''" "p = new_policy 3 50 800 2"
  using assms by (auto simp: default_policies_def split: if_splits)

lemma policy_consistent_attempt: "policy_consistent p \<Longrightarrow> policy_consistent (rpol.attempt t p)"
  by (simp add: policy_consistent_def rp_attempt_at_max)

lemma policy_consistent_reset: "policy_consistent (rp_reset p)"
  by (simp add: policy_consistent_def rp_reset_def)

lemma record_wf_attempt:
  "record_wf n r \<Longrightarrow> record_wf n (r\<lparr>rr_policy := rpol.attempt t (rr_policy r)\<rparr>)"
  by (auto simp: record_wf_def policy_consistent_attempt same_params_def)

lemma record_wf_reset: "record_wf n r \<Longrightarrow> record_wf n (r\<lparr>rr_policy := rp_reset (rr_policy r)\<rparr>)"
  by (auto simp: record_wf_def policy_consistent_reset same_params_def) (auto simp: rp_reset_def)

lemma record_wf_handler:
  "record_wf n r \<Longrightarrow> record_wf n (fst (rm_run_handler oc corr s t (r, d)))"
  by (auto simp: record_wf_def rm_run_handler_def Let_def split: option.splits)

lemma rm_wf_update:
  "rm_wf m \<Longrightarrow> map_of (rm_records m) n = Some r0 \<Longrightarrow> record_wf n r \<Longrightarrow>
     rm_wf (m\<lparr>rm_records := AList.update n r (rm_records m)\<rparr>)"
  by (auto simp: rm_wf_def)

lemma rm_wf_new [ava_inv]: "rm_wf new_restart_manager"
proof -
  have "record_wf n (new_restart_record n p)" if "map_of default_policies n = Some p" for n p
    using that by (auto simp: record_wf_def new_restart_record_def policy_consistent_def
        same_params_def elim!: default_policies_cases) (auto simp: new_policy_def default_policies_def)
  moreover have "map_of (rm_records new_restart_manager) n
      = map_option (new_restart_record n) (map_of default_policies n)" for n
    by (auto simp: new_restart_manager_def default_policies_def)
  ultimately show ?thesis
    by (auto simp: rm_wf_def dict_wf_def new_restart_manager_def default_policies_def
        MANAGED_SUBSYSTEMS_def)
qed

text \<open>With the default parameters the ceiling rule never fires before the retry budget is used up.\<close>

lemma record_escalates_iff:
  assumes "record_wf n r"
  shows "rp_should_escalate (rr_policy r) \<longleftrightarrow> rp_max_retries (rr_policy r) \<le> rp_retries (rr_policy r)"
proof (cases "rp_max_retries (rr_policy r) \<le> rp_retries (rr_policy r)")
  case False
  let ?p = "rr_policy r"
  from assms obtain q where q: "map_of default_policies n = Some q" "same_params ?p q"
    by (auto simp: record_wf_def)
  have slow: "rp_initial_ms ?p * 2 ^ (rp_max_retries ?p - 2) < rp_max_ms ?p"
    and thr: "0 < rp_threshold ?p" and pos: "0 < rp_initial_ms ?p"
    using q by (auto simp: same_params_def new_policy_def elim!: default_policies_cases)
  have "rp_initial_ms ?p * 2 ^ j < rp_max_ms ?p" if "j < rp_retries ?p" for j
  proof -
    have "rp_initial_ms ?p * 2 ^ j \<le> rp_initial_ms ?p * 2 ^ (rp_max_retries ?p - 2)"
      using that False pos by (intro mult_left_mono power_increasing) auto
    with slow show ?thesis by simp
  qed
  then have "rp_at_max ?p = 0"
    using assms by (auto simp: record_wf_def policy_consistent_def filter_empty_conv not_le)
  with False thr show ?thesis by (simp add: rp_should_escalate_def)
qed (simp add: rp_should_escalate_def)

lemma rm_managed_record:
  assumes "rm_wf m" "n \<in> set MANAGED_SUBSYSTEMS"
  obtains r where "map_of (rm_records m) n = Some r" "record_wf n r"
proof -
  have "n \<in> dom (map_of (rm_records m))" using assms by (simp add: rm_wf_def)
  then obtain r where "map_of (rm_records m) n = Some r" by blast
  with that assms(1) show thesis by (simp add: rm_wf_def)
qed

text \<open>What a request does to the record of its subsystem.\<close>

lemma rm_request_restart_record:
  assumes wf: "rm_wf m" and r: "map_of (rm_records m) n = Some r"
  obtains r' d' where
    "rm_request_restart n reason corr clk oc (m, d)
       = Inr (rm_delay clk r, m\<lparr>rm_records := AList.update n r' (rm_records m)\<rparr>, d')"
    "record_wf n r'" "rp_retries (rr_policy r') = Suc (rp_retries (rr_policy r))"
    "rp_max_retries (rr_policy r') = rp_max_retries (rr_policy r)"
    "rr_restart_count r' = rr_restart_count r +
       (if map_of (rm_handlers m) n = Some True \<and> oc = None
           \<and> Suc (rp_retries (rr_policy r)) < rp_max_retries (rr_policy r) then 1 else 0)"
proof -
  let ?p = "rpol.attempt (rc_failure clk) (rr_policy r)"
  let ?r1 = "r\<lparr>rr_policy := ?p\<rparr>"
  have wr: "record_wf n r" using wf r by (simp add: rm_wf_def)
  then have w1: "record_wf n ?r1" by (rule record_wf_attempt)
  have esc: "rp_should_escalate ?p \<longleftrightarrow> rp_max_retries (rr_policy r) \<le> Suc (rp_retries (rr_policy r))"
    using record_escalates_iff [OF w1] by simp
  define d1 where "d1 = emit_structured_event corr n ''subsystem_restart_requested''
      [(''reason'', PStr reason), (''retries'', PInt (int (rp_retries ?p))),
       (''max_retries'', PInt (int (rp_max_retries ?p))),
       (''delay_ms'', PFloat (rm_delay clk r)), (''should_escalate'', PBool (rp_should_escalate ?p))] d"
  define rd where "rd = (if map_of (rm_handlers m) n = Some True \<and> \<not> rp_should_escalate ?p
      then rm_run_handler oc corr n (rc_done clk) (?r1, d1) else (?r1, d1))"
  show thesis
  proof (rule that [of "fst rd" "snd rd"])
    show "rm_request_restart n reason corr clk oc (m, d)
        = Inr (rm_delay clk r, m\<lparr>rm_records := AList.update n (fst rd) (rm_records m)\<rparr>, snd rd)"
      by (simp add: rm_request_restart_def r Let_def rd_def d1_def split_beta)
    show "record_wf n (fst rd)"
      using w1 by (auto simp: rd_def intro: record_wf_handler)
    have pol: "rr_policy (fst rd) = ?p"
      by (simp add: rd_def rm_run_handler_def Let_def split: option.splits)
    then show "rp_retries (rr_policy (fst rd)) = Suc (rp_retries (rr_policy r))"
      "rp_max_retries (rr_policy (fst rd)) = rp_max_retries (rr_policy r)" by simp_all
    show "rr_restart_count (fst rd) = rr_restart_count r +
       (if map_of (rm_handlers m) n = Some True \<and> oc = None
           \<and> Suc (rp_retries (rr_policy r)) < rp_max_retries (rr_policy r) then 1 else 0)"
      using esc by (auto simp: rd_def rm_run_handler_def Let_def split: option.splits)
  qed
qed

lemma rm_wf_request [ava_inv]:
  assumes "rm_wf m" "rm_request_restart n reason corr clk oc (m, d) = Inr (x, m', d')"
  shows "rm_wf m'"
proof -
  obtain r where r: "map_of (rm_records m) n = Some r"
    using assms(2) by (cases "map_of (rm_records m) n") (auto simp: rm_request_restart_def)
  from rm_request_restart_record [OF assms(1) r, of reason corr clk oc d] assms show ?thesis
    by (metis Inr_inject Pair_inject r rm_wf_update)
qed

lemma rm_wf_success [ava_inv]: "rm_wf m \<Longrightarrow> rm_wf (rm_record_success n m)"
  by (auto simp: rm_record_success_def split: option.splits
      intro!: rm_wf_update record_wf_reset) (simp add: rm_wf_def)

lemma rm_delay_bounds:
  assumes "record_wf n r" "rr_last_restart r \<le> rc_now clk"
  shows "rp_floor (rr_policy r) \<le> rm_delay clk r"
    and "rm_delay clk r \<le> max (rp_max_ms (rr_policy r)) 2000"
    and "0 < rr_last_restart r \<Longrightarrow>
           (2 - (rc_now clk - rr_last_restart r)) * 1000 \<le> rm_delay clk r"
proof -
  let ?d = "fst (rp_next_backoff (rp_record_failure (rc_failure clk) (rr_policy r)))"
  from assms(1) obtain q where q: "map_of default_policies n = Some q" "same_params (rr_policy r) q"
    and cd: "rr_cooldown r = 2" by (auto simp: record_wf_def)
  have "rp_wf (rr_policy r)"
    using q by (auto simp: rp_wf_def same_params_def new_policy_def elim!: default_policies_cases)
  then have d: "rp_floor (rr_policy r) \<le> ?d" "?d \<le> rp_max_ms (rr_policy r)"
    and pos: "0 < rp_floor (rr_policy r)"
    using rpol.attempt_delay [of "rr_policy r" "rc_failure clk"] by (auto simp: rp_wf_def rp_floor_def)
  show "rp_floor (rr_policy r) \<le> rm_delay clk r"
    using d by (auto simp: rm_delay_def Let_def)
  show "rm_delay clk r \<le> max (rp_max_ms (rr_policy r)) 2000"
    using d assms(2) cd by (auto simp: rm_delay_def Let_def max_def)
  show "(2 - (rc_now clk - rr_last_restart r)) * 1000 \<le> rm_delay clk r" if "0 < rr_last_restart r"
    using d that cd pos by (auto simp: rm_delay_def Let_def max_def)
qed

section \<open>Properties\<close>

text \<open>For a managed subsystem a restart request never raises; the delay it returns lies between the
  smallest backoff and the larger of the backoff ceiling and the two-second cooldown, and covers
  whatever is left of the cooldown of the previous restart.\<close>

theorem restart_delay_bounds:
  assumes "rm_wf m" "n \<in> set MANAGED_SUBSYSTEMS" "map_of (rm_records m) n = Some r"
    "rr_last_restart r \<le> rc_now clk"
  shows "\<exists>delay m' d'. rm_request_restart n reason corr clk oc (m, d) = Inr (delay, m', d')
     \<and> rm_wf m' \<and> 50 \<le> delay \<and> delay \<le> 8000
     \<and> (0 < rr_last_restart r \<longrightarrow> (2 - (rc_now clk - rr_last_restart r)) * 1000 \<le> delay)"
proof -
  have wr: "record_wf n r" using assms(1,3) by (simp add: rm_wf_def)
  then obtain q where q: "map_of default_policies n = Some q" "same_params (rr_policy r) q"
    by (auto simp: record_wf_def)
  have lim: "50 \<le> rp_floor (rr_policy r)" "max (rp_max_ms (rr_policy r)) 2000 \<le> 8000"
    using q by (auto simp: rp_floor_def same_params_def new_policy_def elim!: default_policies_cases)
  obtain r' d' where eq: "rm_request_restart n reason corr clk oc (m, d)
      = Inr (rm_delay clk r, m\<lparr>rm_records := AList.update n r' (rm_records m)\<rparr>, d')"
    using rm_request_restart_record [OF assms(1,3)] by blast
  with rm_wf_request [OF assms(1) eq] rm_delay_bounds [OF wr assms(4)] lim show ?thesis by force
qed

theorem restart_delay_bounds_witness:
  "\<exists>delay m' d'. rm_request_restart ''asr'' ''worker_dead'' ''c1'' \<lparr>rc_failure = 5, rc_now = 5, rc_done = 6\<rparr>
      None (new_restart_manager, new_dispatcher) = Inr (delay, m', d') \<and> 50 \<le> delay \<and> delay \<le> 8000"
proof -
  let ?r = "new_restart_record ''asr'' (new_policy 5 100 4000 3)"
  have "''asr'' \<in> set MANAGED_SUBSYSTEMS" "map_of (rm_records new_restart_manager) ''asr'' = Some ?r"
    "rr_last_restart ?r \<le> rc_now \<lparr>rc_failure = 5, rc_now = 5, rc_done = 6\<rparr>"
    by (simp_all add: MANAGED_SUBSYSTEMS_def new_restart_manager_def default_policies_def
        new_restart_record_def)
  from restart_delay_bounds [OF rm_wf_new this] show ?thesis by blast
qed

end
