(* ===== verification/Recovery_Coordinator.thy ===== *)
theory Recovery_Coordinator
  imports Restart_Manager
begin

text \<open>
  \<^verbatim>\<open>src/runtime/hardening/recovery_coordinator.py\<close>: the decision layer above the restart manager. A
  fault is classified and dispatched to one of four actions. The shutdown callback is code of the
  caller: the model counts its invocations; exceptions it raises are swallowed, so its outcome
  does not matter.
\<close>

datatype recovery_action = Act_recover | Act_restart | Act_escalate | Act_shutdown

record coordinator =
  co_manager :: restart_manager
  co_escalations :: "(string, nat) dict"
  co_has_callback :: bool
  co_shutdown_calls :: nat

definition new_coordinator :: "restart_manager \<Rightarrow> bool \<Rightarrow> coordinator" where
  "new_coordinator m cb =
     \<lparr>co_manager = m, co_escalations = [], co_has_callback = cb, co_shutdown_calls = 0\<rparr>"

definition dict_get :: "('k, 'v) dict \<Rightarrow> 'k \<Rightarrow> 'v \<Rightarrow> 'v" where
  "dict_get d k v = (case map_of d k of None \<Rightarrow> v | Some x \<Rightarrow> x)"

section \<open>Internal actions\<close>

definition do_recover :: "string \<Rightarrow> fault_cause \<Rightarrow> string \<Rightarrow> coordinator \<times> dispatcher \<Rightarrow>
    recovery_action \<times> coordinator \<times> dispatcher" where
  "do_recover subsystem cause corr cd =
     (case cd of (c, d) \<Rightarrow>
       (Act_recover, c, emit_structured_event corr subsystem ''recovery_action''
          [(''action'', PStr ''recover''), (''cause'', PStr (cause_str cause))] d))"

definition do_restart :: "string \<Rightarrow> string \<Rightarrow> string \<Rightarrow> restart_clock \<Rightarrow> py_exc option \<Rightarrow>
    coordinator \<times> dispatcher \<Rightarrow> py_exc + recovery_action \<times> coordinator \<times> dispatcher" where
  "do_restart subsystem reason corr clk outcome cd =
     (case cd of (c, d) \<Rightarrow>
       sbind (rm_request_restart subsystem reason corr clk outcome (co_manager c, d))
         (\<lambda>(delay, m, d1). Inr (Act_restart, c\<lparr>co_manager := m\<rparr>,
            emit_structured_event corr subsystem ''recovery_action''
              [(''action'', PStr ''restart''), (''reason'', PStr reason)] d1)))"

definition do_escalate :: "string \<Rightarrow> fault_cause \<Rightarrow> string \<Rightarrow> coordinator \<times> dispatcher \<Rightarrow>
    recovery_action \<times> coordinator \<times> dispatcher" where
  "do_escalate subsystem cause corr cd =
     (case cd of (c, d) \<Rightarrow>
       (let k = dict_get (co_escalations c) subsystem 0 + 1 in
        (Act_escalate, c\<lparr>co_escalations := AList.update subsystem k (co_escalations c)\<rparr>,
         emit_structured_event corr subsystem ''recovery_escalated''
           [(''cause'', PStr (cause_str cause)), (''escalation_count'', PInt (int k))] d)))"

definition do_shutdown :: "string \<Rightarrow> fault_cause \<Rightarrow> string \<Rightarrow> coordinator \<times> dispatcher \<Rightarrow>
    recovery_action \<times> coordinator \<times> dispatcher" where
  "do_shutdown subsystem cause corr cd =
     (case cd of (c, d) \<Rightarrow>
       (Act_shutdown,
        (if co_has_callback c then c\<lparr>co_shutdown_calls := co_shutdown_calls c + 1\<rparr> else c),
        emit_structured_event corr subsystem ''critical_shutdown'' [(''cause'', PStr (cause_str cause))] d))"

section \<open>Entry points\<close>

definition observe_fault :: "string \<Rightarrow> fault_cause \<Rightarrow> bool \<Rightarrow> bool \<Rightarrow> bool \<Rightarrow> string \<Rightarrow> restart_clock \<Rightarrow>
    py_exc option \<Rightarrow> coordinator \<times> dispatcher \<Rightarrow> py_exc + recovery_action \<times> coordinator \<times> dispatcher" where
  "observe_fault subsystem cause is_timeout is_queue_overflow is_watchdog corr clk outcome cd =
     (let fault = classify cause is_timeout is_queue_overflow is_watchdog;
          cd1 = (fst cd, emit_structured_event corr subsystem ''fault_classified''
                   [(''fault_type'', PStr (fault_value fault)), (''cause'', PStr (cause_str cause)),
                    (''is_watchdog'', PBool is_watchdog), (''is_timeout'', PBool is_timeout)] (snd cd)) in
      if fault = CRITICAL then Inr (do_shutdown subsystem cause corr cd1)
      else if fault = TRANSIENT then Inr (do_recover subsystem cause corr cd1)
      else if rm_should_escalate subsystem (co_manager (fst cd1))
      then Inr (do_escalate subsystem cause corr cd1)
      else do_restart subsystem (cause_str cause) corr clk outcome cd1)"

definition observe_watchdog_event :: "string \<Rightarrow> string \<Rightarrow> string \<Rightarrow> restart_clock \<Rightarrow> py_exc option \<Rightarrow>
    coordinator \<times> dispatcher \<Rightarrow> py_exc + recovery_action \<times> coordinator \<times> dispatcher" where
  "observe_watchdog_event subsystem reason corr clk outcome cd =
     observe_fault subsystem (Cause_reason reason) False False True corr clk outcome cd"

definition record_recovery_success :: "string \<Rightarrow> coordinator \<times> dispatcher \<Rightarrow> coordinator \<times> dispatcher" where
  "record_recovery_success subsystem cd =
     (case cd of (c, d) \<Rightarrow>
       (c\<lparr>co_manager := rm_record_success subsystem (co_manager c),
          co_escalations := AList.delete subsystem (co_escalations c)\<rparr>,
        emit_structured_event '''' subsystem ''recovery_success'' [] d))"

section \<open>A run of recoverable faults\<close>

type_synonym fault_report = "fault_cause \<times> restart_clock \<times> py_exc option"

fun fault_run :: "string \<Rightarrow> string \<Rightarrow> fault_report list \<Rightarrow> coordinator \<times> dispatcher \<Rightarrow>
    py_exc + recovery_action list \<times> coordinator \<times> dispatcher" where
  "fault_run n corr [] cd = Inr ([], cd)"
| "fault_run n corr ((cause, clk, oc) # fs) cd =
     sbind (observe_fault n cause False False False corr clk oc cd)
       (\<lambda>(a, cd1). sbind (fault_run n corr fs cd1) (\<lambda>(as, cd2). Inr (a # as, cd2)))"

definition recoverable :: "fault_report \<Rightarrow> bool" where
  "recoverable f \<longleftrightarrow> classify (fst f) False False False = RECOVERABLE"

text \<open>One recoverable fault, on the record of its subsystem.\<close>

lemma observe_recoverable:
  assumes wf: "rm_wf (co_manager c)" and r: "map_of (rm_records (co_manager c)) n = Some r"
    and rec: "classify cause False False False = RECOVERABLE"
  obtains r' c' d' where
    "observe_fault n cause False False False corr clk oc (c, d) =
       Inr (if rp_retries (rr_policy r) < rp_max_retries (rr_policy r) then Act_restart else Act_escalate,
            c', d')"
    "rm_wf (co_manager c')" "map_of (rm_records (co_manager c')) n = Some r'"
    "rp_max_retries (rr_policy r') = rp_max_retries (rr_policy r)"
    "rp_retries (rr_policy r') = rp_retries (rr_policy r) +
        (if rp_retries (rr_policy r) < rp_max_retries (rr_policy r) then 1 else 0)"
    "rr_restart_count r' \<le> rr_restart_count r +
        (if Suc (rp_retries (rr_policy r)) < rp_max_retries (rr_policy r) then 1 else 0)"
    "dict_get (co_escalations c') n 0 = dict_get (co_escalations c) n 0 +
        (if rp_retries (rr_policy r) < rp_max_retries (rr_policy r) then 0 else 1)"
proof -
  have wr: "record_wf n r" using wf r by (simp add: rm_wf_def)
  have esc: "rm_should_escalate n (co_manager c) \<longleftrightarrow>
      \<not> rp_retries (rr_policy r) < rp_max_retries (rr_policy r)"
    using record_escalates_iff [OF wr] by (simp add: rm_should_escalate_def r not_less)
  define d0 where "d0 = emit_structured_event corr n ''fault_classified''
      [(''fault_type'', PStr ''RECOVERABLE''), (''cause'', PStr (cause_str cause)),
       (''is_watchdog'', PBool False), (''is_timeout'', PBool False)] d"
  show thesis
  proof (cases "rp_retries (rr_policy r) < rp_max_retries (rr_policy r)")
    case True
    obtain r' d' where eq: "rm_request_restart n (cause_str cause) corr clk oc (co_manager c, d0)
        = Inr (rm_delay clk r, (co_manager c)\<lparr>rm_records := AList.update n r' (rm_records (co_manager c))\<rparr>, d')"
      and w': "record_wf n r'"
      and pol: "rp_retries (rr_policy r') = Suc (rp_retries (rr_policy r))"
        "rp_max_retries (rr_policy r') = rp_max_retries (rr_policy r)"
      and cnt: "rr_restart_count r' = rr_restart_count r +
        (if map_of (rm_handlers (co_manager c)) n = Some True \<and> oc = None
           \<and> Suc (rp_retries (rr_policy r)) < rp_max_retries (rr_policy r) then 1 else 0)"
      using rm_request_restart_record [OF wf r] by blast
    let ?m = "(co_manager c)\<lparr>rm_records := AList.update n r' (rm_records (co_manager c))\<rparr>"
    let ?d = "emit_structured_event corr n ''recovery_action''
        [(''action'', PStr ''restart''), (''reason'', PStr (cause_str cause))] d'"
    show thesis
      by (rule that [of "c\<lparr>co_manager := ?m\<rparr>" ?d r'])
         (use True esc rec eq pol cnt rm_wf_update [OF wf r w'] in
           \<open>auto simp: observe_fault_def do_restart_def d0_def [symmetric] Let_def\<close>)
  next
    case False
    show thesis
      by (rule that [of "fst (snd (do_escalate n cause corr (c, d0)))" "snd (snd (do_escalate n cause corr (c, d0)))" r])
         (use False esc rec wf r in
           \<open>auto simp: observe_fault_def do_escalate_def d0_def [symmetric] Let_def dict_get_def\<close>)
  qed
qed

lemma fault_run_actions:
  assumes "rm_wf (co_manager c)" "map_of (rm_records (co_manager c)) n = Some r"
    "\<forall>f\<in>set fs. recoverable f"
    "left = rp_max_retries (rr_policy r) - rp_retries (rr_policy r)"
  shows "\<exists>c' d' r'. fault_run n corr fs (c, d) =
      Inr (replicate (min (length fs) left) Act_restart @ replicate (length fs - left) Act_escalate, c', d')
    \<and> map_of (rm_records (co_manager c')) n = Some r'
    \<and> rr_restart_count r' \<le> rr_restart_count r + (left - 1)
    \<and> dict_get (co_escalations c') n 0 = dict_get (co_escalations c) n 0 + (length fs - left)"
  using assms
proof (induction fs arbitrary: c d r left)
  case (Cons f fs)
  obtain cause clk oc where f: "f = (cause, clk, oc)" by (cases f)
  let ?lt = "rp_retries (rr_policy r) < rp_max_retries (rr_policy r)"
  have rec: "classify cause False False False = RECOVERABLE"
    using Cons.prems(3) by (simp add: recoverable_def f)
  obtain r1 c1 d1 where obs: "observe_fault n cause False False False corr clk oc (c, d) =
       Inr (if ?lt then Act_restart else Act_escalate, c1, d1)"
    and st: "rm_wf (co_manager c1)" "map_of (rm_records (co_manager c1)) n = Some r1"
    and r1: "rp_max_retries (rr_policy r1) = rp_max_retries (rr_policy r)"
      "rp_retries (rr_policy r1) = rp_retries (rr_policy r) + (if ?lt then 1 else 0)"
      "rr_restart_count r1 \<le> rr_restart_count r +
         (if Suc (rp_retries (rr_policy r)) < rp_max_retries (rr_policy r) then 1 else 0)"
    and e1: "dict_get (co_escalations c1) n 0 = dict_get (co_escalations c) n 0 + (if ?lt then 0 else 1)"
    using observe_recoverable [OF Cons.prems(1,2) rec] by blast
  have "\<forall>f\<in>set fs. recoverable f" using Cons.prems(3) by simp
  note IH = Cons.IH [OF st this refl, of d1]
  show ?case
  proof (cases left)
    case 0
    with Cons.prems(4) have nl: "\<not> ?lt" by simp
    with IH r1 e1 0 Cons.prems(4) show ?thesis by (auto simp: f obs)
  next
    case (Suc k)
    with Cons.prems(4) have lt: ?lt by simp
    have k: "rp_max_retries (rr_policy r1) - rp_retries (rr_policy r1) = k"
      "Suc (rp_retries (rr_policy r)) < rp_max_retries (rr_policy r) \<longleftrightarrow> 0 < k"
      using r1(1,2) lt Suc Cons.prems(4) by auto
    with IH r1(3) e1 lt Suc show ?thesis by (force simp: f obs split: if_splits)
  qed
qed auto

section \<open>Properties\<close>



text \<open>Dispatch by severity: a critical fault always shuts down and runs the callback once if there is
  one, a transient fault never touches the restart manager, and neither of them can raise.\<close>

theorem fault_dispatch:
  assumes "classify cause t q w = f" "f \<noteq> RECOVERABLE"
  shows "\<exists>c' d'. observe_fault n cause t q w corr clk oc (c, d) =
      Inr (if f = CRITICAL then Act_shutdown else Act_recover, c', d')
    \<and> co_manager c' = co_manager c \<and> co_escalations c' = co_escalations c
    \<and> co_shutdown_calls c' = co_shutdown_calls c + (if f = CRITICAL \<and> co_has_callback c then 1 else 0)"
  using assms by (cases f) (auto simp: observe_fault_def do_recover_def do_shutdown_def Let_def)

theorem fault_dispatch_witness:
  "\<exists>c' d'. observe_fault ''asr'' (Cause_exc MemoryError) False False False ''c1''
       \<lparr>rc_failure = 1, rc_now = 1, rc_done = 1\<rparr> None (new_coordinator new_restart_manager True, new_dispatcher) =
       Inr (Act_shutdown, c', d') \<and> co_shutdown_calls c' = 1"
  using fault_dispatch [of "Cause_exc MemoryError" False False False CRITICAL "''asr''" "''c1''"
      "\<lparr>rc_failure = 1, rc_now = 1, rc_done = 1\<rparr>" None "new_coordinator new_restart_manager True" new_dispatcher]
  by (force simp: classify_def classify_exception_def new_coordinator_def)

end
