(* ===== verification/Json_Value.thy ===== *)
theory Json_Value
  imports Ava_Prelude
begin

text \<open>
  The values \<open>json.loads\<close> returns and \<open>json.dumps\<close> takes, as the transport, the supervisor and the
  profile loader handle them: dictionaries are association lists in insertion order. Numbers are
  exact rationals; a boolean is not identified with 0 or 1.
\<close>

datatype json =
    JNull
  | JBool bool
  | JNum pyfloat
  | JStr string
  | JArr "json list"
  | JObj "(string \<times> json) list"

text \<open>\<open>d.get(k, default)\<close> and \<open>{**a, **b}\<close>.\<close>

definition jget :: "(string, json) dict \<Rightarrow> string \<Rightarrow> json \<Rightarrow> json" where
  "jget d k dflt = (case map_of d k of Some v \<Rightarrow> v | None \<Rightarrow> dflt)"

definition jmerge :: "(string, json) dict \<Rightarrow> (string, json) dict \<Rightarrow> (string, json) dict" where
  "jmerge a b = fold (\<lambda>(k, v) d. AList.update k v d) b a"

text \<open>Values that can be a member of a set or a key: lists and dictionaries cannot.\<close>

fun hashable :: "json \<Rightarrow> bool" where
  "hashable (JArr xs) = False"
| "hashable (JObj d) = False"
| "hashable _ = True"

text \<open>Python's truth value.\<close>

fun truthy :: "json \<Rightarrow> bool" where
  "truthy JNull = False"
| "truthy (JBool b) = b"
| "truthy (JNum q) = (q \<noteq> 0)"
| "truthy (JStr s) = (s \<noteq> [])"
| "truthy (JArr xs) = (xs \<noteq> [])"
| "truthy (JObj d) = (d \<noteq> [])"

text \<open>Keys are distinct at every level, as in every Python dictionary.\<close>

fun json_wf :: "json \<Rightarrow> bool" where
  "json_wf (JObj d) \<longleftrightarrow> dict_wf d \<and> (\<forall>kv\<in>set d. json_wf (snd kv))"
| "json_wf (JArr xs) \<longleftrightarrow> (\<forall>x\<in>set xs. json_wf x)"
| "json_wf _ \<longleftrightarrow> True"

lemma jmerge_Nil [simp]: "jmerge a [] = a"
  by (simp add: jmerge_def)

lemma dict_wf_jmerge [intro]: "dict_wf a \<Longrightarrow> dict_wf (jmerge a b)"
  unfolding jmerge_def by (induction b arbitrary: a) auto

lemma map_of_jmerge: "map_of (jmerge a b) = map_of a ++ map_of (rev b)"
proof (induction b arbitrary: a)
  case (Cons kv b)
  obtain k v where kv: "kv = (k, v)" by fastforce
  have "jmerge a (kv # b) = jmerge (AList.update k v a) b" by (simp add: jmerge_def kv)
  then show ?case using Cons.IH [of "AList.update k v a"]
    by (auto simp: kv map_add_def fun_eq_iff split: option.splits)
qed simp

lemma jget_jmerge_other:
  assumes "k \<notin> fst ` set b"
  shows "jget (jmerge a b) k dflt = jget a k dflt"
proof -
  have "map_of (rev b) k = None" using assms by (simp add: map_of_eq_None_iff)
  then show ?thesis by (simp add: jget_def map_of_jmerge map_add_def)
qed

end
