(* ===== verification/Json_Text.thy ===== *)
theory Json_Text
  imports Json_Value
begin

text \<open>
  The text of JSON values: what \<^verbatim>\<open>json.dumps(obj, separators=(",", ":"))\<close> writes and \<^verbatim>\<open>json.loads\<close>
  reads, as \<^verbatim>\<open>src/runtime/ipc/protocol.py\<close> uses them for the frames of the IPC channel. Strings have
  code points below 256: other escapes, and the \<open>NaN\<close> and \<open>Infinity\<close> literals, are not read. An integral
  number is written as an integer; how Python writes the other floats is the argument \<open>fr\<close>.
\<close>

section \<open>Writing\<close>

definition hex_digit :: "nat \<Rightarrow> char" where
  "hex_digit n = char_of (if n < 10 then 48 + n else 87 + n)"

definition escape_char :: "char \<Rightarrow> string" where
  "escape_char c =
     (let n = (of_char c :: nat) in
      if n = 34 then [CHR 0x5C, CHR 0x22]
      else if n = 92 then [CHR 0x5C, CHR 0x5C]
      else if n = 10 then [CHR 0x5C, CHR ''n'']
      else if n = 13 then [CHR 0x5C, CHR ''r'']
      else if n = 9 then [CHR 0x5C, CHR ''t'']
      else if n = 8 then [CHR 0x5C, CHR ''b'']
      else if n = 12 then [CHR 0x5C, CHR ''f'']
      else if 32 \<le> n \<and> n \<le> 126 then [c]
      else [CHR 0x5C, CHR ''u'', CHR ''0'', CHR ''0'', hex_digit (n div 16), hex_digit (n mod 16)])"

definition json_quote :: "string \<Rightarrow> string" where
  "json_quote s = CHR 0x22 # concat (map escape_char s) @ [CHR 0x22]"

fun nat_text :: "nat \<Rightarrow> string" where
  "nat_text n = (if n < 10 then [hex_digit n] else nat_text (n div 10) @ [hex_digit (n mod 10)])"

declare nat_text.simps [simp del]

definition int_text :: "int \<Rightarrow> string" where
  "int_text i = (if i < 0 then CHR ''-'' # nat_text (nat (- i)) else nat_text (nat i))"

definition num_text :: "(pyfloat \<Rightarrow> string) \<Rightarrow> pyfloat \<Rightarrow> string" where
  "num_text fr q = (if of_int \<lfloor>q\<rfloor> = q then int_text \<lfloor>q\<rfloor> else fr q)"

fun json_dumps :: "(pyfloat \<Rightarrow> string) \<Rightarrow> json \<Rightarrow> string" where
  "json_dumps fr JNull = ''null''"
| "json_dumps fr (JBool b) = (if b then ''true'' else ''false'')"
| "json_dumps fr (JNum q) = num_text fr q"
| "json_dumps fr (JStr s) = json_quote s"
| "json_dumps fr (JArr xs) = ''['' @ py_join '','' (map (json_dumps fr) xs) @ '']''"
| "json_dumps fr (JObj d) = ''{'' @ py_join '','' (map (\<lambda>(k, v). json_quote k @ CHR '':'' # json_dumps fr v) d) @ ''}''"

section \<open>Reading\<close>

definition json_space :: "char \<Rightarrow> bool" where
  "json_space c = (let n = (of_char c :: nat) in n = 32 \<or> n = 9 \<or> n = 10 \<or> n = 13)"

definition skip_ws :: "string \<Rightarrow> string" where
  "skip_ws s = dropWhile json_space s"

definition is_digit :: "char \<Rightarrow> bool" where
  "is_digit c = (let n = (of_char c :: nat) in 48 \<le> n \<and> n \<le> 57)"

definition hex_value :: "char \<Rightarrow> nat option" where
  "hex_value c =
     (let n = (of_char c :: nat) in
      if 48 \<le> n \<and> n \<le> 57 then Some (n - 48)
      else if 97 \<le> n \<and> n \<le> 102 then Some (n - 87)
      else if 65 \<le> n \<and> n \<le> 70 then Some (n - 55) else None)"

definition read_hex4 :: "string \<Rightarrow> (char \<times> string) option" where
  "read_hex4 s =
     (case s of
        a # b # c # d # r \<Rightarrow>
          (case (hex_value a, hex_value b, hex_value c, hex_value d) of
             (Some 0, Some 0, Some h, Some l) \<Rightarrow> Some (char_of (16 * h + l), r)
           | _ \<Rightarrow> None)
      | _ \<Rightarrow> None)"

definition read_escape :: "string \<Rightarrow> (char \<times> string) option" where
  "read_escape s =
     (case s of
        [] \<Rightarrow> None
      | c # r \<Rightarrow>
          if c = CHR 0x22 \<or> c = CHR 0x5C \<or> c = CHR ''/'' then Some (c, r)
          else if c = CHR ''n'' then Some (CHR 0x0A, r)
          else if c = CHR ''r'' then Some (CHR 0x0D, r)
          else if c = CHR ''t'' then Some (CHR 0x09, r)
          else if c = CHR ''b'' then Some (CHR 0x08, r)
          else if c = CHR ''f'' then Some (CHR 0x0C, r)
          else if c = CHR ''u'' then read_hex4 r
          else None)"

lemma read_escape_shorter: "read_escape s = Some (c, r) \<Longrightarrow> length r < length s"
  by (auto simp: read_escape_def read_hex4_def split: list.splits if_splits option.splits nat.splits)

text \<open>The rest of a string literal, after the opening quote.\<close>

function read_chars :: "string \<Rightarrow> (string \<times> string) option" where
  "read_chars [] = None"
| "read_chars (c # s) =
     (if c = CHR 0x22 then Some ([], s)
      else if c = CHR 0x5C
        then (case read_escape s of
                None \<Rightarrow> None
              | Some (x, r) \<Rightarrow> map_option (\<lambda>(w, r). (x # w, r)) (read_chars r))
      else if (of_char c :: nat) < 32 then None
      else map_option (\<lambda>(w, r). (c # w, r)) (read_chars s))"
  by pat_completeness auto
termination by (relation "measure length") (auto dest!: read_escape_shorter)

text \<open>Numbers: integer part, fraction and exponent, each as long as it goes.\<close>

definition digits_value :: "string \<Rightarrow> nat" where
  "digits_value ds = foldl (\<lambda>n c. 10 * n + (of_char c - 48)) 0 ds"

definition read_int_part :: "string \<Rightarrow> (nat \<times> string) option" where
  "read_int_part s =
     (case s of
        [] \<Rightarrow> None
      | c # r \<Rightarrow> if c = CHR ''0'' then Some (0, r)
                 else if is_digit c then Some (digits_value (takeWhile is_digit s), dropWhile is_digit s)
                 else None)"

definition read_frac :: "string \<Rightarrow> pyfloat \<times> string" where
  "read_frac s =
     (case s of
        c # d # r \<Rightarrow>
          if c = CHR ''.'' \<and> is_digit d
          then (let ds = takeWhile is_digit (d # r)
                in (of_nat (digits_value ds) / 10 ^ length ds, dropWhile is_digit (d # r)))
          else (0, s)
      | _ \<Rightarrow> (0, s))"

definition read_exp :: "string \<Rightarrow> int \<times> string" where
  "read_exp s =
     (case s of
        [] \<Rightarrow> (0, s)
      | c # r \<Rightarrow>
          if c \<noteq> CHR ''e'' \<and> c \<noteq> CHR ''E'' then (0, s)
          else let sign = (if take 1 r = ''-'' then -1 else 1);
                   ds = (if take 1 r = ''-'' \<or> take 1 r = ''+'' then tl r else r)
               in if takeWhile is_digit ds = [] then (0, s)
                  else (sign * int (digits_value (takeWhile is_digit ds)), dropWhile is_digit ds))"

definition read_number :: "string \<Rightarrow> (pyfloat \<times> string) option" where
  "read_number s =
     (let neg = (take 1 s = ''-'') in
      case read_int_part (if neg then tl s else s) of
        None \<Rightarrow> None
      | Some (n, s) \<Rightarrow>
          let (f, s) = read_frac s; (e, s) = read_exp s;
              v = (of_nat n + f) * (if 0 \<le> e then 10 ^ nat e else 1 / 10 ^ nat (- e))
          in Some (if neg then - v else v, s))"

text \<open>The first argument bounds the nesting and the number of members; the length of the text is enough.\<close>

fun read_value :: "nat \<Rightarrow> string \<Rightarrow> (json \<times> string) option"
and read_items :: "nat \<Rightarrow> json list \<Rightarrow> string \<Rightarrow> (json \<times> string) option"
and read_members :: "nat \<Rightarrow> (string, json) dict \<Rightarrow> string \<Rightarrow> (json \<times> string) option" where
  "read_value 0 s = None"
| "read_value (Suc n) s =
     (case s of
        [] \<Rightarrow> None
      | c # r \<Rightarrow>
          if c = CHR 0x22 then map_option (\<lambda>(w, r). (JStr w, r)) (read_chars r)
          else if c = CHR ''{''
            then (case skip_ws r of
                    [] \<Rightarrow> None
                  | d # r' \<Rightarrow> if d = CHR ''}'' then Some (JObj [], r') else read_members n [] (d # r'))
          else if c = CHR ''[''
            then (case skip_ws r of
                    [] \<Rightarrow> None
                  | d # r' \<Rightarrow> if d = CHR '']'' then Some (JArr [], r') else read_items n [] (d # r'))
          else if take 4 s = ''null'' then Some (JNull, drop 4 s)
          else if take 4 s = ''true'' then Some (JBool True, drop 4 s)
          else if take 5 s = ''false'' then Some (JBool False, drop 5 s)
          else map_option (\<lambda>(q, r). (JNum q, r)) (read_number s))"
| "read_items 0 acc s = None"
| "read_items (Suc n) acc s =
     (case read_value n s of
        None \<Rightarrow> None
      | Some (v, r) \<Rightarrow>
          (case skip_ws r of
             [] \<Rightarrow> None
           | d # r' \<Rightarrow> if d = CHR '','' then read_items n (acc @ [v]) (skip_ws r')
                       else if d = CHR '']'' then Some (JArr (acc @ [v]), r') else None))"
| "read_members 0 acc s = None"
| "read_members (Suc n) acc s =
     (case s of
        [] \<Rightarrow> None
      | q # r \<Rightarrow>
          if q \<noteq> CHR 0x22 then None
          else (case read_chars r of
             None \<Rightarrow> None
           | Some (k, r) \<Rightarrow>
               (case skip_ws r of
                  [] \<Rightarrow> None
                | d # r' \<Rightarrow>
                    if d \<noteq> CHR '':'' then None
                    else (case read_value n (skip_ws r') of
                       None \<Rightarrow> None
                     | Some (v, r) \<Rightarrow>
                         (case skip_ws r of
                            [] \<Rightarrow> None
                          | d # r' \<Rightarrow> if d = CHR '','' then read_members n (AList.update k v acc) (skip_ws r')
                                      else if d = CHR ''}'' then Some (JObj (AList.update k v acc), r') else None)))))"

definition json_loads :: "string \<Rightarrow> json option" where
  "json_loads s =
     (case read_value (Suc (length s)) (skip_ws s) of
        Some (v, r) \<Rightarrow> if skip_ws r = [] then Some v else None
      | None \<Rightarrow> None)"

section \<open>Strings read back\<close>

lemma char_eq_code: "c = d \<longleftrightarrow> (of_char c :: nat) = of_char d"
  by (metis char_of_char)

lemma code_less [simp]: "(of_char c :: nat) < 256"
  using nat_of_char_less_256 [of c] by simp

lemma code_of_char_of: "n < 256 \<Longrightarrow> (of_char (char_of (n :: nat)) :: nat) = n"
  by (simp add: take_bit_nat_eq_self)

lemma hex_value_digit: "n < 16 \<Longrightarrow> hex_value (hex_digit n) = Some n"
  by (auto simp: hex_value_def hex_digit_def code_of_char_of Let_def)

lemma read_hex4_digits:
  assumes "n < 256"
  shows "read_hex4 (CHR ''0'' # CHR ''0'' # hex_digit (n div 16) # hex_digit (n mod 16) # t) = Some (char_of n, t)"
proof -
  have "hex_value (CHR ''0'') = Some 0" by (simp add: hex_value_def)
  moreover have "16 * (n div 16) + n mod 16 = n" by simp
  ultimately show ?thesis
    using assms by (simp add: read_hex4_def hex_value_digit)
qed

lemma read_chars_escaped:
  "read_chars (escape_char c @ t) = map_option (\<lambda>(w, r). (c # w, r)) (read_chars t)"
proof -
  let ?n = "of_char c :: nat" and ?named = "{CHR 0x22, CHR 0x5C, CHR 0x0A, CHR 0x0D, CHR 0x09, CHR 0x08, CHR 0x0C}"
  consider "c \<in> ?named" | "c \<notin> ?named" "32 \<le> ?n" "?n \<le> 126" | "c \<notin> ?named" "\<not> (32 \<le> ?n \<and> ?n \<le> 126)"
    by blast
  then show ?thesis
  proof cases
    case 1
    then show ?thesis by (elim insertE) (simp_all add: escape_char_def read_escape_def Let_def)
  next
    case 2
    then show ?thesis by (auto simp: escape_char_def char_eq_code Let_def)
  next
    case 3
    then have "escape_char c =
        [CHR 0x5C, CHR ''u'', CHR ''0'', CHR ''0'', hex_digit (?n div 16), hex_digit (?n mod 16)]"
      by (simp add: escape_char_def char_eq_code Let_def)
    then show ?thesis by (simp add: read_escape_def read_hex4_digits)
  qed
qed

lemma read_chars_quoted: "read_chars (concat (map escape_char s) @ CHR 0x22 # t) = Some (s, t)"
  by (induction s) (simp_all add: read_chars_escaped)

section \<open>Numbers read back\<close>

lemma is_digit_hex_digit: "n < 10 \<Longrightarrow> is_digit (hex_digit n)"
  by (simp add: is_digit_def hex_digit_def code_of_char_of)

lemma code_hex_digit: "n < 10 \<Longrightarrow> (of_char (hex_digit n) :: nat) = 48 + n"
  by (simp add: hex_digit_def code_of_char_of)

lemma nat_text_digits: "\<forall>c\<in>set (nat_text n). is_digit c"
  by (induction n rule: nat_text.induct) (subst nat_text.simps, auto simp: is_digit_hex_digit)

lemma digits_value_snoc: "digits_value (ds @ [c]) = 10 * digits_value ds + (of_char c - 48)"
  by (simp add: digits_value_def)

lemma digits_value_nat_text: "digits_value (nat_text n) = n"
proof (induction n rule: nat_text.induct)
  case (1 n)
  show ?case
  proof (cases "n < 10")
    case True
    then show ?thesis by (subst nat_text.simps) (simp add: digits_value_def code_hex_digit)
  next
    case False
    then have "digits_value (nat_text (n div 10)) = n div 10" by (rule 1)
    with False show ?thesis by (subst nat_text.simps) (simp add: digits_value_snoc code_hex_digit)
  qed
qed

lemma nat_text_head: "\<exists>c cs. nat_text n = c # cs \<and> is_digit c \<and> (c = CHR ''0'' \<longleftrightarrow> n = 0)"
proof (induction n rule: nat_text.induct)
  case (1 n)
  show ?case
  proof (cases "n < 10")
    case True
    then have "hex_digit n = CHR ''0'' \<longleftrightarrow> n = 0" by (simp add: char_eq_code code_hex_digit)
    with True show ?thesis by (subst nat_text.simps) (simp add: is_digit_hex_digit)
  next
    case False
    with 1 have "\<exists>c cs. nat_text (n div 10) = c # cs \<and> is_digit c \<and> (c = CHR ''0'' \<longleftrightarrow> n div 10 = 0)" .
    with False show ?thesis by (subst nat_text.simps) auto
  qed
qed

text \<open>A character that cannot continue a number.\<close>

definition num_char :: "char \<Rightarrow> bool" where
  "num_char c \<longleftrightarrow> is_digit c \<or> c \<in> {CHR ''-'', CHR ''+'', CHR ''.'', CHR ''e'', CHR ''E''}"

definition num_end :: "string \<Rightarrow> bool" where
  "num_end t \<longleftrightarrow> t = [] \<or> \<not> num_char (hd t)"

lemma num_end_read:
  assumes "num_end t"
  shows "read_frac t = (0, t)" "read_exp t = (0, t)"
  using assms by (auto simp: num_end_def num_char_def read_frac_def read_exp_def Let_def split: list.splits)

definition digits_end :: "string \<Rightarrow> bool" where
  "digits_end t \<longleftrightarrow> t = [] \<or> \<not> is_digit (hd t)"

lemma num_end_digits_end: "num_end t \<Longrightarrow> digits_end t"
  by (auto simp: num_end_def digits_end_def num_char_def)

lemma digits_then_end:
  assumes "\<forall>c\<in>set ds. is_digit c" "digits_end t"
  shows "takeWhile is_digit (ds @ t) = ds" "dropWhile is_digit (ds @ t) = t"
  using assms by (cases t; auto simp: digits_end_def takeWhile_append dropWhile_append)+

lemma read_int_part_nat_text:
  assumes "digits_end t"
  shows "read_int_part (nat_text n @ t) = Some (n, t)"
proof -
  obtain c cs where h: "nat_text n = c # cs" "is_digit c" "c = CHR ''0'' \<longleftrightarrow> n = 0"
    using nat_text_head by blast
  show ?thesis
  proof (cases "n = 0")
    case True
    then show ?thesis by (simp add: nat_text.simps [of 0] hex_digit_def read_int_part_def code_of_char_of char_eq_code)
  next
    case False
    then show ?thesis
      using h digits_then_end [OF nat_text_digits assms, of n] digits_value_nat_text [of n]
      by (simp add: read_int_part_def)
  qed
qed

lemma read_number_int_text:
  assumes "num_end t"
  shows "read_number (int_text i @ t) = Some (of_int i, t)"
proof -
  obtain c cs where h: "nat_text (nat i) = c # cs" "is_digit c"
    using nat_text_head by blast
  then have c: "c \<noteq> CHR ''-''" by (auto simp: is_digit_def)
  note e = num_end_read [OF assms]
  show ?thesis
  proof (cases "i < 0")
    case True
    then show ?thesis
      using read_int_part_nat_text [OF num_end_digits_end [OF assms], of "nat (- i)"] by (simp add: read_number_def int_text_def e)
  next
    case False
    then show ?thesis
      using read_int_part_nat_text [OF num_end_digits_end [OF assms], of "nat i"] h(1) c by (simp add: read_number_def int_text_def e)
  qed
qed

text \<open>What the code relies on for a float: its text has only characters of numbers and reads back.\<close>

definition num_ok :: "(pyfloat \<Rightarrow> string) \<Rightarrow> pyfloat \<Rightarrow> bool" where
  "num_ok fr q \<longleftrightarrow> (\<forall>c\<in>set (num_text fr q). num_char c)
     \<and> (\<forall>t. num_end t \<longrightarrow> read_number (num_text fr q @ t) = Some (q, t))"

lemma num_ok_int: "num_ok fr (of_int i)"
proof -
  have "\<forall>c\<in>set (int_text i). num_char c"
    using nat_text_digits by (auto simp: int_text_def num_char_def)
  then show ?thesis by (simp add: num_ok_def num_text_def read_number_int_text)
qed

text \<open>Numbers with at most three decimals, written with a fraction, are read back.\<close>

definition milli_digits :: "nat \<Rightarrow> string" where
  "milli_digits m = [hex_digit (m div 100), hex_digit (m div 10 mod 10), hex_digit (m mod 10)]"

definition milli_text :: "pyfloat \<Rightarrow> string" where
  "milli_text q =
     (let n = nat \<lfloor>\<bar>q\<bar> * 1000\<rfloor>
      in (if q < 0 then ''-'' else '''') @ nat_text (n div 1000) @ CHR ''.'' # milli_digits (n mod 1000))"

lemma milli_digits:
  assumes "m < 1000"
  shows "\<forall>c\<in>set (milli_digits m). is_digit c" "digits_value (milli_digits m) = m" "length (milli_digits m) = 3"
proof -
  have d: "m div 100 < 10" "m div 10 mod 10 < 10" "m mod 10 < 10" using assms by auto
  then show "\<forall>c\<in>set (milli_digits m). is_digit c" by (simp add: milli_digits_def is_digit_hex_digit)
  have "digits_value (milli_digits m) = 100 * (m div 100) + 10 * (m div 10 mod 10) + m mod 10"
    using d by (simp add: digits_value_def milli_digits_def code_hex_digit)
  moreover have "m div 100 = m div 10 div 10" by (simp add: div_mult2_eq [symmetric])
  moreover have "10 * (m div 10 div 10) + m div 10 mod 10 = m div 10" "10 * (m div 10) + m mod 10 = m" by simp_all
  ultimately show "digits_value (milli_digits m) = m" by linarith
  show "length (milli_digits m) = 3" by (simp add: milli_digits_def)
qed

lemma read_milli:
  assumes "m < 1000" "num_end t"
  shows "read_number (nat_text a @ CHR ''.'' # milli_digits m @ t) = Some (of_nat (1000 * a + m) / 1000, t)"
    and "read_number (CHR ''-'' # nat_text a @ CHR ''.'' # milli_digits m @ t) = Some (- (of_nat (1000 * a + m) / 1000), t)"
proof -
  obtain c cs where h: "nat_text a = c # cs" "is_digit c" using nat_text_head by blast
  then have c: "c \<noteq> CHR ''-''" by (auto simp: is_digit_def)
  have "digits_end (CHR ''.'' # milli_digits m @ t)" by (simp add: digits_end_def is_digit_def)
  note int_part = read_int_part_nat_text [OF this, of a]
  obtain d ds where md: "milli_digits m = d # ds" by (simp add: milli_digits_def)
  have "read_frac (CHR ''.'' # milli_digits m @ t) = (of_nat m / 1000, t)"
    using digits_then_end [OF milli_digits(1) [OF assms(1)] num_end_digits_end [OF assms(2)]]
      milli_digits [OF assms(1)] md
    by (simp add: read_frac_def)
  with int_part num_end_read [OF assms(2)] h(1) c
  show "read_number (nat_text a @ CHR ''.'' # milli_digits m @ t) = Some (of_nat (1000 * a + m) / 1000, t)"
    "read_number (CHR ''-'' # nat_text a @ CHR ''.'' # milli_digits m @ t) = Some (- (of_nat (1000 * a + m) / 1000), t)"
    by (simp_all add: read_number_def add_divide_distrib)
qed

lemma num_ok_milli:
  assumes "q * 1000 = of_int i"
  shows "num_ok milli_text q"
proof (cases "of_int \<lfloor>q\<rfloor> = q")
  case True
  then show ?thesis using num_ok_int [of milli_text "\<lfloor>q\<rfloor>"] by metis
next
  case False
  let ?n = "nat \<bar>i\<bar>"
  have scaled: "\<bar>q\<bar> * 1000 = of_int \<bar>i\<bar>" using arg_cong [OF assms, of abs] by (simp add: abs_mult)
  have n: "nat \<lfloor>\<bar>q\<bar> * 1000\<rfloor> = ?n" unfolding scaled floor_of_int ..
  have q: "\<bar>q\<bar> = of_nat ?n / 1000" using scaled by (simp add: field_simps)
  have m: "?n mod 1000 < 1000" by simp
  have split: "1000 * (?n div 1000) + ?n mod 1000 = ?n" by simp
  have shape: "milli_text q =
      (if q < 0 then ''-'' else '''') @ nat_text (?n div 1000) @ CHR ''.'' # milli_digits (?n mod 1000)"
    by (simp only: milli_text_def n Let_def)
  have "num_text milli_text q = milli_text q" using False by (simp add: num_text_def)
  moreover have "\<forall>c\<in>set (milli_text q). num_char c"
    using nat_text_digits milli_digits(1) [OF m] by (auto simp: shape num_char_def)
  moreover have "read_number (milli_text q @ t) = Some (q, t)" if "num_end t" for t
  proof (cases "q < 0")
    case True
    then have "- (of_nat ?n / 1000) = q" using q by linarith
    then show ?thesis using read_milli(2) [OF m that, of "?n div 1000"] True unfolding split shape by (simp del: of_nat_nat)
  next
    case False
    then have "of_nat ?n / 1000 = q" using q by linarith
    then show ?thesis using read_milli(1) [OF m that, of "?n div 1000"] False unfolding split shape by (simp del: of_nat_nat)
  qed
  ultimately show ?thesis by (simp add: num_ok_def)
qed

section \<open>Values read back\<close>

text \<open>The numbers of a value are written so that they read back.\<close>

fun nums_ok :: "(pyfloat \<Rightarrow> string) \<Rightarrow> json \<Rightarrow> bool" where
  "nums_ok fr (JNum q) = num_ok fr q"
| "nums_ok fr (JArr xs) = (\<forall>x\<in>set xs. nums_ok fr x)"
| "nums_ok fr (JObj d) = (\<forall>kv\<in>set d. nums_ok fr (snd kv))"
| "nums_ok fr _ = True"

lemma num_text_head:
  assumes "num_ok fr q"
  shows "\<exists>c cs. num_text fr q = c # cs \<and> (is_digit c \<or> c = CHR ''-'')"
proof -
  have "read_number (num_text fr q @ []) = Some (q, [])"
    using assms by (simp only: num_ok_def num_end_def simp_thms)
  then show ?thesis
    by (cases "num_text fr q")
       (auto simp: read_number_def read_int_part_def is_digit_def Let_def split: if_splits option.splits)
qed

text \<open>The text of a value starts neither with white space nor with a closing bracket.\<close>

definition opener :: "char \<Rightarrow> bool" where
  "opener c \<longleftrightarrow> \<not> json_space c \<and> c \<noteq> CHR '']'' \<and> c \<noteq> CHR ''}''"

lemma dumps_head:
  assumes "nums_ok fr j"
  shows "\<exists>c cs. json_dumps fr j = c # cs \<and> opener c"
proof (cases j)
  case (JNum q)
  with assms obtain c cs where "num_text fr q = c # cs" "is_digit c \<or> c = CHR ''-''" using num_text_head by fastforce
  with JNum show ?thesis by (auto simp: opener_def json_space_def is_digit_def Let_def)
qed (auto simp: opener_def json_space_def json_quote_def)

lemma skip_ws_head: "skip_ws (c # s) = (if json_space c then skip_ws s else c # s)"
  by (simp add: skip_ws_def)

lemma skip_dumps: "nums_ok fr j \<Longrightarrow> skip_ws (json_dumps fr j @ t) = json_dumps fr j @ t"
  using dumps_head [of fr j] by (auto simp: skip_ws_head opener_def)

lemma read_value_num:
  assumes "num_ok fr q" "num_end t"
  shows "read_value (Suc n) (num_text fr q @ t) = Some (JNum q, t)"
proof -
  obtain c cs where h: "num_text fr q = c # cs" "is_digit c \<or> c = CHR ''-''" using num_text_head [OF assms(1)] by blast
  then have "c \<notin> {CHR 0x22, CHR ''{'', CHR ''['', CHR ''n'', CHR ''t'', CHR ''f''}" by (auto simp: is_digit_def)
  moreover have "read_number (num_text fr q @ t) = Some (q, t)" using assms by (simp add: num_ok_def)
  ultimately show ?thesis using h(1) by simp
qed

lemma item_ends:
  "num_end (CHR '']'' # t)" "num_end (CHR '','' # t)" "num_end (CHR ''}'' # t)"
  "skip_ws (CHR '']'' # t) = CHR '']'' # t" "skip_ws (CHR '','' # t) = CHR '','' # t"
  "skip_ws (CHR ''}'' # t) = CHR ''}'' # t" "skip_ws (CHR '':'' # t) = CHR '':'' # t"
  "skip_ws (CHR 0x22 # t) = CHR 0x22 # t"
  by (simp_all add: num_end_def num_char_def is_digit_def skip_ws_head json_space_def)

definition reads_back :: "(pyfloat \<Rightarrow> string) \<Rightarrow> json \<Rightarrow> bool" where
  "reads_back fr j \<longleftrightarrow> (\<forall>n t. num_end t \<longrightarrow> length (json_dumps fr j) < n \<longrightarrow>
     read_value n (json_dumps fr j @ t) = Some (j, t))"

lemma reads_backD:
  "reads_back fr j \<Longrightarrow> num_end t \<Longrightarrow> length (json_dumps fr j) < n \<Longrightarrow> read_value n (json_dumps fr j @ t) = Some (j, t)"
  by (simp add: reads_back_def)

lemma read_items_text:
  assumes "\<forall>x\<in>set xs. reads_back fr x \<and> nums_ok fr x" "xs \<noteq> []"
    and "Suc (length (py_join '','' (map (json_dumps fr) xs))) < n"
  shows "read_items n acc (py_join '','' (map (json_dumps fr) xs) @ CHR '']'' # t) = Some (JArr (acc @ xs), t)"
  using assms
proof (induction xs arbitrary: n acc)
  case (Cons x xs)
  obtain m where n: "n = Suc m" using Cons.prems(3) by (cases n) auto
  have x: "reads_back fr x" using Cons.prems(1) by simp
  show ?case
  proof (cases xs)
    case Nil
    with Cons.prems(3) n have "length (json_dumps fr x) < m" by simp
    from reads_backD [OF x item_ends(1) this] Nil show ?thesis by (simp add: n item_ends)
  next
    case (Cons y ys)
    with Cons.prems(3) n have m: "length (json_dumps fr x) < m"
      "Suc (length (py_join '','' (map (json_dumps fr) xs))) < m" by simp_all
    obtain u where u: "py_join '','' (map (json_dumps fr) xs) = json_dumps fr y @ u"
      using \<open>xs = y # ys\<close> by (cases ys) auto
    have "nums_ok fr y" using Cons.prems(1) \<open>xs = y # ys\<close> by simp
    then have skip: "skip_ws (py_join '','' (map (json_dumps fr) xs) @ t) = py_join '','' (map (json_dumps fr) xs) @ t" for t
      by (simp add: u skip_dumps)
    have "read_items m (acc @ [x]) (py_join '','' (map (json_dumps fr) xs) @ CHR '']'' # t) = Some (JArr ((acc @ [x]) @ xs), t)"
      using Cons.prems(1) m(2) \<open>xs = y # ys\<close> by (intro Cons.IH) simp_all
    moreover have "py_join '','' (map (json_dumps fr) (x # xs))
        = json_dumps fr x @ CHR '','' # py_join '','' (map (json_dumps fr) xs)"
      using \<open>xs = y # ys\<close> by simp
    ultimately show ?thesis
      using reads_backD [OF x item_ends(2) m(1), of "py_join '','' (map (json_dumps fr) xs) @ CHR '']'' # t"]
      by (simp add: n item_ends skip)
  qed
qed simp

abbreviation "member_text fr \<equiv> (\<lambda>(k, v). json_quote k @ CHR '':'' # json_dumps fr v)"

lemma read_members_text:
  assumes "\<forall>kv\<in>set d. reads_back fr (snd kv) \<and> nums_ok fr (snd kv)" "d \<noteq> []" "dict_wf (acc @ d)"
    and "Suc (length (py_join '','' (map (member_text fr) d))) < n"
  shows "read_members n acc (py_join '','' (map (member_text fr) d) @ CHR ''}'' # t) = Some (JObj (acc @ d), t)"
  using assms
proof (induction d arbitrary: n acc)
  case (Cons kv d)
  obtain m where n: "n = Suc m" using Cons.prems(4) by (cases n) auto
  obtain k v where kv: "kv = (k, v)" by fastforce
  have v: "reads_back fr v" "nums_ok fr v" using Cons.prems(1) by (auto simp: kv)
  have upd: "AList.update k v acc = acc @ [(k, v)]"
    using Cons.prems(3) by (intro update_fresh) (auto simp: dict_wf_def kv)
  show ?case
  proof (cases d)
    case Nil
    with Cons.prems(4) n kv have "length (json_dumps fr v) < m" by simp
    from reads_backD [OF v(1) item_ends(3) this] Nil show ?thesis
      by (simp add: n kv json_quote_def read_chars_quoted item_ends skip_dumps v(2) upd)
  next
    case (Cons y ys)
    with Cons.prems(4) n kv have m: "length (json_dumps fr v) < m"
      "Suc (length (py_join '','' (map (member_text fr) d))) < m" by simp_all
    obtain u where u: "py_join '','' (map (member_text fr) d) = CHR 0x22 # u"
      using \<open>d = y # ys\<close> by (cases y; cases ys) (auto simp: json_quote_def)
    have "skip_ws (py_join '','' (map (member_text fr) d) @ CHR ''}'' # t)
        = py_join '','' (map (member_text fr) d) @ CHR ''}'' # t"
      by (simp add: u item_ends)
    moreover have "read_members m (acc @ [(k, v)]) (py_join '','' (map (member_text fr) d) @ CHR ''}'' # t)
        = Some (JObj ((acc @ [(k, v)]) @ d), t)"
      using Cons.prems(1,3) m(2) \<open>d = y # ys\<close> by (intro Cons.IH) (simp_all add: kv)
    moreover have "py_join '','' (map (member_text fr) (kv # d))
        = json_quote k @ CHR '':'' # json_dumps fr v @ CHR '','' # py_join '','' (map (member_text fr) d)"
      using \<open>d = y # ys\<close> by (simp add: kv)
    ultimately show ?thesis
      using reads_backD [OF v(1) item_ends(2) m(1), of "py_join '','' (map (member_text fr) d) @ CHR ''}'' # t"]
      by (simp add: n kv json_quote_def read_chars_quoted item_ends skip_dumps v(2) upd)
  qed
qed simp

lemma dumps_read_back: "nums_ok fr j \<Longrightarrow> json_wf j \<Longrightarrow> reads_back fr j"
proof (induction j)
  case (JNum q)
  then show ?case
    unfolding reads_back_def
  proof (intro allI impI)
    fix n t
    assume t: "num_end t" and "length (json_dumps fr (JNum q)) < n"
    then obtain m where "n = Suc m" by (cases n) auto
    with JNum t show "read_value n (json_dumps fr (JNum q) @ t) = Some (JNum q, t)"
      by (simp add: read_value_num del: read_value.simps)
  qed
next
  case (JStr s)
  show ?case
    unfolding reads_back_def
  proof (intro allI impI)
    fix n t
    assume "length (json_dumps fr (JStr s)) < n"
    then obtain m where "n = Suc m" by (cases n) auto
    then show "read_value n (json_dumps fr (JStr s) @ t) = Some (JStr s, t)"
      by (simp add: json_quote_def read_chars_quoted)
  qed
next
  case (JArr xs)
  then have ok: "\<forall>x\<in>set xs. reads_back fr x \<and> nums_ok fr x" by simp
  show ?case
    unfolding reads_back_def
  proof (intro allI impI)
    fix n t
    assume "length (json_dumps fr (JArr xs)) < n"
    then obtain m where n: "n = Suc m" and m: "Suc (length (py_join '','' (map (json_dumps fr) xs))) < m"
      by (cases n) auto
    show "read_value n (json_dumps fr (JArr xs) @ t) = Some (JArr xs, t)"
    proof (cases xs)
      case Nil
      then show ?thesis by (simp add: n item_ends)
    next
      case (Cons y ys)
      have "nums_ok fr y" using ok Cons by simp
      then obtain c cs where c: "json_dumps fr y = c # cs" "opener c" using dumps_head by blast
      then obtain u where u: "py_join '','' (map (json_dumps fr) xs) = c # u"
        using Cons by (cases ys) auto
      with c(2) have "skip_ws (c # u @ CHR '']'' # t) = c # u @ CHR '']'' # t" "c \<noteq> CHR '']''"
        by (simp_all add: opener_def skip_ws_head)
      with read_items_text [OF ok _ m, of "[]" t] u Cons show ?thesis by (simp add: n)
    qed
  qed
next
  case (JObj d)
  then have ok: "\<forall>kv\<in>set d. reads_back fr (snd kv) \<and> nums_ok fr (snd kv)"
    by (metis json_wf.simps(1) nums_ok.simps(3) snds.intros prod.collapse)
  have wf: "dict_wf ([] @ d)" using JObj.prems by simp
  show ?case
    unfolding reads_back_def
  proof (intro allI impI)
    fix n t
    assume "length (json_dumps fr (JObj d)) < n"
    then obtain m where n: "n = Suc m" and m: "Suc (length (py_join '','' (map (member_text fr) d))) < m"
      by (cases n) auto
    show "read_value n (json_dumps fr (JObj d) @ t) = Some (JObj d, t)"
    proof (cases d)
      case Nil
      then show ?thesis by (simp add: n item_ends)
    next
      case (Cons y ys)
      then obtain u where "py_join '','' (map (member_text fr) d) = CHR 0x22 # u"
        by (cases y; cases ys) (auto simp: json_quote_def)
      with read_members_text [OF ok _ wf m, of t] Cons show ?thesis by (simp add: n item_ends)
    qed
  qed
qed (auto simp: reads_back_def gr0_conv_Suc less_Suc_eq_0_disj elim!: less_natE)

lemma loads_dumps:
  assumes "nums_ok fr j" "json_wf j"
  shows "json_loads (json_dumps fr j) = Some j"
proof -
  have "num_end []" by (simp add: num_end_def)
  from reads_backD [OF dumps_read_back [OF assms] this, of "Suc (length (json_dumps fr j))"]
  show ?thesis
    using skip_dumps [OF assms(1), of "[]"] by (simp add: json_loads_def) (simp add: skip_ws_def)
qed

end
