(* ===== verification/WS_Server.thy ===== *)
theory WS_Server
  imports Json_Value
begin

text \<open>
  \<^verbatim>\<open>src/runtime/transport/websocket_server.py\<close> and \<^verbatim>\<open>protocol/\<close>: the WebSocket server between the
  supervisor and the Node SDK, with its delivery classes: guaranteed messages are repeated until
  they are acknowledged, retry messages at most three times, best-effort messages are sent in
  batches, all others once. Callbacks on the event loop are atomic steps. Whether a client's
  connection is gone when it is sent to, the clock and fresh ids are inputs; \<open>ws_sent\<close> records
  what each client was sent. \<open>jsonschema.validate\<close> is a parameter.
\<close>

section \<open>Protocol validation\<close>

definition CONTROL_TYPES :: "string set" where
  "CONTROL_TYPES = {''start'', ''stop'', ''configure'', ''diagnostics_request'', ''diagnostics_response'',
     ''validate_profile'', ''health'', ''shutdown'', ''crash_worker'', ''ack'', ''batch'', ''handshake'',
     ''handshake_ack'', ''handshake_rejected'', ''status''}"

definition STREAM_TYPES :: "string set" where
  "STREAM_TYPES = {''wake'', ''speech_start'', ''speech_end'', ''partial_transcript'', ''hypothesis_update'',
     ''telemetry'', ''error'', ''heartbeat''}"

text \<open>What \<open>ENVELOPE_SCHEMA\<close> asks of a message: the six required members, each of its type.\<close>

definition ENVELOPE_SCHEMA :: "(string \<times> (json \<Rightarrow> bool)) list" where
  "ENVELOPE_SCHEMA =
     [(''type'', \<lambda>j. case j of JStr s \<Rightarrow> True | _ \<Rightarrow> False),
      (''schemaVersion'', \<lambda>j. case j of JNum q \<Rightarrow> q = of_int \<lfloor>q\<rfloor> | _ \<Rightarrow> False),
      (''timestamp'', \<lambda>j. case j of JNum q \<Rightarrow> True | _ \<Rightarrow> False),
      (''sessionId'', \<lambda>j. case j of JStr s \<Rightarrow> True | _ \<Rightarrow> False),
      (''correlationId'', \<lambda>j. case j of JStr s \<Rightarrow> True | _ \<Rightarrow> False),
      (''payload'', \<lambda>j. case j of JObj d \<Rightarrow> True | _ \<Rightarrow> False)]"

definition envelope_ok :: "json \<Rightarrow> bool" where
  "envelope_ok j =
     (case j of
        JObj d \<Rightarrow> list_all (\<lambda>(k, ok). case map_of d k of Some v \<Rightarrow> ok v | None \<Rightarrow> False) ENVELOPE_SCHEMA
      | _ \<Rightarrow> False)"

text \<open>\<open>validate_message\<close>, given what \<open>json.loads\<close> made of the text. \<open>validate\<close> gives the message of the
  \<open>ValidationError\<close> it raises, if it raises one; the left result is the text of the \<open>ProtocolError\<close>.\<close>

definition validate_message :: "(json \<Rightarrow> string option) \<Rightarrow> string + json \<Rightarrow> string + (string, json) dict" where
  "validate_message validate parsed =
     (case parsed of
        Inl e \<Rightarrow> Inl (''Invalid JSON: '' @ e)
      | Inr msg \<Rightarrow>
          case validate msg of
            Some e \<Rightarrow> Inl (''Schema violation: '' @ e)
          | None \<Rightarrow>
              case msg of
                JObj d \<Rightarrow>
                  (case map_of d ''type'' of
                     Some (JStr t) \<Rightarrow> if t \<in> CONTROL_TYPES \<union> STREAM_TYPES then Inr d
                                      else Inl (''Unknown message type: '' @ t)
                   | _ \<Rightarrow> Inl ''Unknown message type: '')
              | _ \<Rightarrow> Inl ''not an object'')"

section \<open>State\<close>

record ws_msg =
  wm_type :: json
  wm_schema :: json
  wm_timestamp :: json
  wm_session :: json
  wm_corr :: json
  wm_payload :: json

datatype ws_class = Ws_guaranteed | Ws_retry

record pending =
  pa_msg :: ws_msg
  pa_class :: ws_class
  pa_retries :: nat
  pa_next_retry :: time_s

record ws_server =
  ws_loop :: bool
  ws_clients :: "nat list"
  ws_offline :: "ws_msg list"
  ws_pending :: "(json, pending) dict"
  ws_batch :: "ws_msg list"
  ws_sent :: "(nat \<times> ws_msg) list"

definition new_ws_server :: ws_server where
  "new_ws_server = \<lparr>ws_loop = False, ws_clients = [], ws_offline = [], ws_pending = [], ws_batch = [], ws_sent = []\<rparr>"

definition GUARANTEED :: "json set" where
  "GUARANTEED = {JStr ''wake'', JStr ''fatal_error''}"

definition RETRY :: "json set" where
  "RETRY = {JStr ''speech_start'', JStr ''speech_end'', JStr ''error''}"

definition BEST_EFFORT :: "json set" where
  "BEST_EFFORT = {JStr ''partial_transcript'', JStr ''hypothesis_update''}"

definition msg_json :: "ws_msg \<Rightarrow> json" where
  "msg_json m = JObj [(''type'', wm_type m), (''schemaVersion'', wm_schema m), (''timestamp'', wm_timestamp m),
     (''sessionId'', wm_session m), (''correlationId'', wm_corr m), (''payload'', wm_payload m)]"

section \<open>Sending\<close>

text \<open>Which clients' connections turn out to be gone while a message is sent to them.\<close>

type_synonym gone_conns = "ws_msg \<Rightarrow> nat \<Rightarrow> bool"

definition ws_send :: "gone_conns \<Rightarrow> ws_msg \<Rightarrow> ws_server \<Rightarrow> ws_server" where
  "ws_send gone m s =
     (if ws_clients s = [] then s
      else let live = filter (\<lambda>c. \<not> gone m c) (ws_clients s)
           in s\<lparr>ws_sent := ws_sent s @ map (\<lambda>c. (c, m)) live, ws_clients := live\<rparr>)"

definition batch_message :: "time_s \<Rightarrow> string \<Rightarrow> ws_msg list \<Rightarrow> ws_msg" where
  "batch_message now uuid ms =
     \<lparr>wm_type = JStr ''batch'', wm_schema = JNum 1, wm_timestamp = JNum now, wm_session = JStr ''server'',
      wm_corr = JStr uuid, wm_payload = JObj [(''events'', JArr (map msg_json ms))]\<rparr>"

definition ws_flush_batch :: "gone_conns \<Rightarrow> time_s \<Rightarrow> string \<Rightarrow> ws_server \<Rightarrow> ws_server" where
  "ws_flush_batch gone now uuid s =
     ws_send gone (batch_message now uuid (ws_batch s)) (s\<lparr>ws_batch := []\<rparr>)"

definition ws_batch_tick :: "gone_conns \<Rightarrow> time_s \<Rightarrow> string \<Rightarrow> ws_server \<Rightarrow> ws_server" where
  "ws_batch_tick gone now uuid s = (if ws_batch s \<noteq> [] then ws_flush_batch gone now uuid s else s)"

definition ws_add_to_batch :: "gone_conns \<Rightarrow> time_s \<Rightarrow> string \<Rightarrow> ws_msg \<Rightarrow> ws_server \<Rightarrow> ws_server" where
  "ws_add_to_batch gone now uuid m s =
     (let s = s\<lparr>ws_batch := ws_batch s @ [m]\<rparr>
      in if 10 \<le> length (ws_batch s) then ws_flush_batch gone now uuid s else s)"

text \<open>The callback of the other classes. A correlation id that cannot be a key raises inside the loop.\<close>

definition ws_handle_send :: "gone_conns \<Rightarrow> time_s \<Rightarrow> ws_msg \<Rightarrow> ws_server \<Rightarrow> ws_server" where
  "ws_handle_send gone now m s =
     (if wm_type m \<in> GUARANTEED \<union> RETRY
      then if ws_clients s = [] then s\<lparr>ws_offline := ws_offline s @ [m]\<rparr>
           else if \<not> hashable (wm_corr m) then s
           else ws_send gone m (s\<lparr>ws_pending := AList.update (wm_corr m)
                  (if wm_type m \<in> GUARANTEED
                   then \<lparr>pa_msg = m, pa_class = Ws_guaranteed, pa_retries = 0, pa_next_retry = now + 1/2\<rparr>
                   else \<lparr>pa_msg = m, pa_class = Ws_retry, pa_retries = 0, pa_next_retry = now + 1/10\<rparr>)
                  (ws_pending s)\<rparr>)
      else ws_send gone m s)"

definition ws_envelope :: "time_s \<Rightarrow> string \<Rightarrow> (string, json) dict \<Rightarrow> ws_msg" where
  "ws_envelope now uuid d =
     \<lparr>wm_type = jget d ''type'' (JStr ''unknown''), wm_schema = jget d ''schemaVersion'' (JNum 1),
      wm_timestamp = jget d ''timestamp'' (JNum now), wm_session = jget d ''sessionId'' (JStr ''server''),
      wm_corr = jget d ''correlationId'' (JStr uuid), wm_payload = jget d ''payload'' (JObj d)\<rparr>"

text \<open>The readings of one broadcast: the clock, the fresh id, and clock and id of a batch.\<close>

type_synonym ws_input = "time_s \<times> string \<times> time_s \<times> string \<times> gone_conns"

definition ws_broadcast :: "ws_input \<Rightarrow> (string, json) dict \<Rightarrow> ws_server \<Rightarrow> (py_exc + unit) \<times> ws_server" where
  "ws_broadcast i d s =
     (let (now, uuid, now', uuid', gone) = i in
      if \<not> ws_loop s then (Inr (), s)
      else let m = ws_envelope now uuid d
           in if \<not> hashable (wm_type m) then (Inl (TypeError ''unhashable type''), s)
              else if wm_type m \<in> BEST_EFFORT then (Inr (), ws_add_to_batch gone now' uuid' m s)
              else (Inr (), ws_handle_send gone now' m s))"

section \<open>Acknowledgements and retries\<close>

datatype retry_verdict = Keep | Resend | Drop

definition retry_item :: "time_s \<Rightarrow> pending \<Rightarrow> retry_verdict \<times> pending" where
  "retry_item now p =
     (if pa_next_retry p \<le> now
      then case pa_class p of
             Ws_retry \<Rightarrow>
               let p = p\<lparr>pa_retries := pa_retries p + 1\<rparr>
               in if 3 < pa_retries p then (Drop, p)
                  else (Resend, p\<lparr>pa_next_retry := now + 1/10 * 2 ^ (pa_retries p - 1)\<rparr>)
           | Ws_guaranteed \<Rightarrow> (Resend, p\<lparr>pa_next_retry := now + 1/2\<rparr>)
      else (Keep, p))"

definition ws_retry_tick :: "time_s \<Rightarrow> gone_conns \<Rightarrow> ws_server \<Rightarrow> ws_server" where
  "ws_retry_tick now gone s =
     (let items = map (\<lambda>(k, p). (k, retry_item now p)) (ws_pending s);
          to_retry = map (\<lambda>(k, v, p). pa_msg p) (filter (\<lambda>(k, v, p). v = Resend) items);
          s = s\<lparr>ws_pending := map (\<lambda>(k, v, p). (k, p)) (filter (\<lambda>(k, v, p). v \<noteq> Drop) items)\<rparr>
      in if to_retry = [] then s
         else if ws_clients s = []
           then fold (\<lambda>m s. s\<lparr>ws_pending := AList.delete (wm_corr m) (ws_pending s),
                               ws_offline := ws_offline s @ [m]\<rparr>) to_retry s
         else fold (ws_send gone) to_retry s)"

text \<open>A client connects: the offline queue is sent and cleared. A client leaves: \<open>set.remove\<close> raises when a
  failed send has already discarded it.\<close>

definition ws_connect :: "gone_conns \<Rightarrow> nat \<Rightarrow> ws_server \<Rightarrow> ws_server" where
  "ws_connect gone c s =
     (let s = s\<lparr>ws_clients := List.insert c (ws_clients s)\<rparr>
      in if ws_offline s = [] then s
         else (fold (ws_send gone) (ws_offline s) s)\<lparr>ws_offline := []\<rparr>)"

definition ws_disconnect :: "nat \<Rightarrow> ws_server \<Rightarrow> (py_exc + unit) \<times> ws_server" where
  "ws_disconnect c s =
     (if c \<in> set (ws_clients s) then (Inr (), s\<lparr>ws_clients := remove1 c (ws_clients s)\<rparr>)
      else (Inl (KeyError ''client''), s))"

text \<open>One message from a client. The result is what is handed to \<open>on_message\<close>, or the error replied.\<close>

datatype ws_action = Wa_none | Wa_message "(string, json) dict" | Wa_error_reply string

definition ws_frame ::
  "(json \<Rightarrow> string option) \<Rightarrow> string + json \<Rightarrow> ws_server \<Rightarrow> ws_action \<times> ws_server" where
  "ws_frame validate parsed s =
     (case validate_message validate parsed of
        Inl e \<Rightarrow> (Wa_error_reply e, s)
      | Inr d \<Rightarrow>
          if map_of d ''type'' = Some (JStr ''ack'')
          then case jget d ''payload'' (JObj []) of
                 JObj p \<Rightarrow>
                   (let k = jget p ''correlationId'' JNull
                    in if hashable k \<and> k \<in> fst ` set (ws_pending s)
                       then (Wa_none, s\<lparr>ws_pending := AList.delete k (ws_pending s)\<rparr>) else (Wa_none, s))
               | _ \<Rightarrow> (Wa_none, s)
          else (Wa_message d, s))"

section \<open>Events\<close>

datatype ws_event =
    E_broadcast ws_input "(string, json) dict"
  | E_retry time_s gone_conns
  | E_batch time_s string gone_conns
  | E_connect gone_conns nat
  | E_disconnect nat
  | E_frame "json \<Rightarrow> string option" "string + json"

fun ws_exec :: "ws_event \<Rightarrow> ws_server \<Rightarrow> ws_server" where
  "ws_exec (E_broadcast i d) s = snd (ws_broadcast i d s)"
| "ws_exec (E_retry now gone) s = ws_retry_tick now gone s"
| "ws_exec (E_batch now uuid gone) s = ws_batch_tick gone now uuid s"
| "ws_exec (E_connect gone c) s = ws_connect gone c s"
| "ws_exec (E_disconnect c) s = snd (ws_disconnect c s)"
| "ws_exec (E_frame v x) s = snd (ws_frame v x s)"

section \<open>Invariant\<close>

definition pending_ok :: "json \<times> pending \<Rightarrow> bool" where
  "pending_ok kp = (case kp of (k, p) \<Rightarrow>
     wm_corr (pa_msg p) = k \<and> pa_retries p \<le> 3 \<and>
     (pa_class p = Ws_guaranteed \<longleftrightarrow> wm_type (pa_msg p) \<in> GUARANTEED))"

definition ws_wf :: "ws_server \<Rightarrow> bool" where
  "ws_wf s \<longleftrightarrow> dict_wf (ws_pending s) \<and> (\<forall>kp\<in>set (ws_pending s). pending_ok kp) \<and> length (ws_batch s) < 10
   \<and> distinct (ws_clients s)"

lemma ws_wf_new [ava_inv]: "ws_wf new_ws_server"
  by (simp add: ws_wf_def new_ws_server_def)

lemma ws_send_frame [simp]:
  "ws_pending (ws_send gone m s) = ws_pending s"
  "ws_offline (ws_send gone m s) = ws_offline s"
  "ws_batch (ws_send gone m s) = ws_batch s"
  "ws_loop (ws_send gone m s) = ws_loop s"
  by (simp_all add: ws_send_def Let_def)

lemma ws_sends_frame [simp]:
  "ws_pending (fold (ws_send gone) ms s) = ws_pending s"
  "ws_offline (fold (ws_send gone) ms s) = ws_offline s"
  "ws_batch (fold (ws_send gone) ms s) = ws_batch s"
  by (induction ms arbitrary: s) simp_all

lemma ws_clients_send [simp]: "distinct (ws_clients s) \<Longrightarrow> distinct (ws_clients (ws_send gone m s))"
  by (simp add: ws_send_def Let_def)

lemma ws_clients_sends [simp]: "distinct (ws_clients s) \<Longrightarrow> distinct (ws_clients (fold (ws_send gone) ms s))"
  by (induction ms arbitrary: s) simp_all

lemma ws_wf_send [ava_inv]: "ws_wf s \<Longrightarrow> ws_wf (ws_send gone m s)"
  by (simp add: ws_wf_def)

lemma ws_wf_sends [ava_inv]: "ws_wf s \<Longrightarrow> ws_wf (fold (ws_send gone) ms s)"
  by (simp add: ws_wf_def)

lemma ws_wf_batch_tick [ava_inv]: "ws_wf s \<Longrightarrow> ws_wf (ws_batch_tick gone now uuid s)"
  by (auto simp: ws_batch_tick_def ws_flush_batch_def ws_wf_def)

lemma ws_wf_add_to_batch [ava_inv]: "ws_wf s \<Longrightarrow> ws_wf (ws_add_to_batch gone now uuid m s)"
  by (auto simp: ws_add_to_batch_def ws_flush_batch_def ws_wf_def Let_def)

lemma ws_wf_update:
  "ws_wf s \<Longrightarrow> pending_ok (k, p) \<Longrightarrow> ws_wf (s\<lparr>ws_pending := AList.update k p (ws_pending s)\<rparr>)"
  using set_update_subset [of k p "ws_pending s"] by (auto simp: ws_wf_def)

lemma ws_wf_delete: "ws_wf s \<Longrightarrow> ws_wf (s\<lparr>ws_pending := AList.delete k (ws_pending s)\<rparr>)"
  using set_delete_subset [of k "ws_pending s"] by (auto simp: ws_wf_def)

lemma ws_wf_handle_send [ava_inv]:
  assumes "ws_wf s" shows "ws_wf (ws_handle_send gone now m s)"
proof -
  have "ws_wf (s\<lparr>ws_offline := ws_offline s @ [m]\<rparr>)" using assms by (simp add: ws_wf_def)
  with assms show ?thesis
    by (auto simp: ws_handle_send_def pending_ok_def intro!: ava_inv ws_wf_update)
qed

lemma ws_wf_broadcast [ava_inv]: "ws_wf s \<Longrightarrow> ws_wf (snd (ws_broadcast i d s))"
  by (auto simp: ws_broadcast_def Let_def intro!: ava_inv split: prod.splits)

lemma ws_wf_frame [ava_inv]: "ws_wf s \<Longrightarrow> ws_wf (snd (ws_frame v x s))"
  by (auto simp: ws_frame_def Let_def intro: ws_wf_delete split: sum.splits json.splits)

lemma ws_wf_connect [ava_inv]: "ws_wf s \<Longrightarrow> ws_wf (ws_connect gone c s)"
  by (simp add: ws_connect_def ws_wf_def Let_def)

lemma ws_wf_disconnect [ava_inv]: "ws_wf s \<Longrightarrow> ws_wf (snd (ws_disconnect c s))"
  by (simp add: ws_disconnect_def ws_wf_def)

subsection \<open>The retry tick\<close>

text \<open>The two parts of a tick: what it makes of the table, and where the due messages go.\<close>

definition tick_pending :: "time_s \<Rightarrow> (json, pending) dict \<Rightarrow> (json, pending) dict" where
  "tick_pending now d = map (\<lambda>(k, p). (k, snd (retry_item now p))) (filter (\<lambda>(k, p). fst (retry_item now p) \<noteq> Drop) d)"

definition tick_resend :: "time_s \<Rightarrow> (json, pending) dict \<Rightarrow> ws_msg list" where
  "tick_resend now d = map (\<lambda>(k, p). pa_msg p) (filter (\<lambda>(k, p). fst (retry_item now p) = Resend) d)"

lemma retry_item_msg [simp]: "pa_msg (snd (retry_item now p)) = pa_msg p" "pa_class (snd (retry_item now p)) = pa_class p"
  by (simp_all add: retry_item_def Let_def split: ws_class.splits)

lemma move_offline:
  "fold (\<lambda>m s. s\<lparr>ws_pending := AList.delete (wm_corr m) (ws_pending s), ws_offline := ws_offline s @ [m]\<rparr>) ms s
   = s\<lparr>ws_pending := fold (\<lambda>m. AList.delete (wm_corr m)) ms (ws_pending s), ws_offline := ws_offline s @ ms\<rparr>"
  by (induction ms arbitrary: s) simp_all

lemma ws_retry_tick_eq:
  "ws_retry_tick now gone s =
     (let d = tick_pending now (ws_pending s); ms = tick_resend now (ws_pending s) in
      if ws_clients s = []
      then s\<lparr>ws_pending := fold (\<lambda>m. AList.delete (wm_corr m)) ms d, ws_offline := ws_offline s @ ms\<rparr>
      else fold (ws_send gone) ms (s\<lparr>ws_pending := d\<rparr>))"
proof -
  have items: "map (\<lambda>(k, v, p). (k, p)) (filter (\<lambda>(k, v, p). v \<noteq> Drop)
        (map (\<lambda>(k, p). (k, retry_item now p)) (ws_pending s))) = tick_pending now (ws_pending s)"
    "map (\<lambda>(k, v, p). pa_msg p) (filter (\<lambda>(k, v, p). v = Resend)
        (map (\<lambda>(k, p). (k, retry_item now p)) (ws_pending s))) = tick_resend now (ws_pending s)"
    by (auto simp: tick_pending_def tick_resend_def filter_map o_def case_prod_unfold)
  show ?thesis
    unfolding ws_retry_tick_def Let_def items by (simp add: move_offline)
qed

lemma dict_wf_deletes: "dict_wf d \<Longrightarrow> dict_wf (fold (\<lambda>m. AList.delete (f m)) ms d)"
  by (induction ms arbitrary: d) auto

lemma set_deletes: "set (fold (\<lambda>m. AList.delete (f m)) ms d) = {kp \<in> set d. fst kp \<notin> f ` set ms}"
  by (induction ms arbitrary: d) (auto simp: AList.delete_eq)

lemma dict_wf_tick: "dict_wf d \<Longrightarrow> dict_wf (tick_pending now d)"
proof -
  have "map fst (tick_pending now d) = map fst (filter (\<lambda>(k, p). fst (retry_item now p) \<noteq> Drop) d)"
    by (simp add: tick_pending_def case_prod_unfold o_def)
  then show "dict_wf d \<Longrightarrow> ?thesis" by (simp add: dict_wf_def distinct_map_filter)
qed

lemma pending_ok_tick:
  "pending_ok (k, p) \<Longrightarrow> fst (retry_item now p) \<noteq> Drop \<Longrightarrow> pending_ok (k, snd (retry_item now p))"
  by (auto simp: pending_ok_def retry_item_def Let_def split: ws_class.splits if_splits)

lemma ws_wf_tick [ava_inv]:
  assumes "ws_wf s" shows "ws_wf (ws_retry_tick now gone s)"
proof -
  have "\<forall>kp\<in>set (tick_pending now (ws_pending s)). pending_ok kp"
    using assms pending_ok_tick by (fastforce simp: ws_wf_def tick_pending_def)
  with assms show ?thesis
    by (auto simp: ws_retry_tick_eq ws_wf_def Let_def dict_wf_tick dict_wf_deletes set_deletes)
qed

lemma ws_exec_wf: "ws_wf s \<Longrightarrow> ws_wf (ws_exec e s)"
  by (cases e) (auto intro: ava_inv)

section \<open>Messages held for delivery\<close>

definition held :: "ws_msg \<Rightarrow> ws_server \<Rightarrow> bool" where
  "held m s \<longleftrightarrow> m \<in> set (ws_offline s) \<or> (\<exists>k p. (k, p) \<in> set (ws_pending s) \<and> pa_msg p = m)"

lemma held_tick:
  assumes wf: "ws_wf s" and g: "wm_type m \<in> GUARANTEED" and h: "held m s"
  shows "held m (ws_retry_tick now gone s)"
proof (cases "m \<in> set (ws_offline s)")
  case True
  then show ?thesis by (simp add: ws_retry_tick_eq held_def Let_def)
next
  case False
  with h obtain k p where kp: "(k, p) \<in> set (ws_pending s)" "pa_msg p = m" by (auto simp: held_def)
  with wf g have cls: "pa_class p = Ws_guaranteed" and k: "k = wm_corr m"
    by (fastforce simp: ws_wf_def pending_ok_def)+
  then have nd: "fst (retry_item now p) \<noteq> Drop" by (simp add: retry_item_def)
  then have stays: "(k, snd (retry_item now p)) \<in> set (tick_pending now (ws_pending s))"
    using kp by (force simp: tick_pending_def)
  show ?thesis
  proof (cases "m \<in> set (tick_resend now (ws_pending s)) \<or> ws_clients s \<noteq> []")
    case True
    with stays kp show ?thesis
      by (auto simp: ws_retry_tick_eq held_def Let_def) (metis retry_item_msg(1))+
  next
    case False
    have "k \<notin> wm_corr ` set (tick_resend now (ws_pending s))"
    proof
      assume "k \<in> wm_corr ` set (tick_resend now (ws_pending s))"
      then obtain k' p' where p': "(k', p') \<in> set (ws_pending s)" "wm_corr (pa_msg p') = k"
        "fst (retry_item now p') = Resend" by (auto simp: tick_resend_def)
      then have "k' = k" using wf by (auto simp: ws_wf_def pending_ok_def)
      then have "p' = p" using wf p'(1) kp(1) dict_wf_unique by (auto simp: ws_wf_def)
      with False p'(1,3) kp(2) show False by (force simp: tick_resend_def)
    qed
    with False stays kp(2) show ?thesis
      by (auto simp: ws_retry_tick_eq held_def Let_def set_deletes) (metis fst_conv retry_item_msg(1))
  qed
qed

lemma held_add_to_batch [simp]: "held m (ws_add_to_batch gone now uuid x s) = held m s"
  by (simp add: held_def ws_add_to_batch_def ws_flush_batch_def Let_def)

lemma held_update:
  "held m s \<Longrightarrow> ws_wf s \<Longrightarrow> k \<noteq> wm_corr m \<Longrightarrow> held m (s\<lparr>ws_pending := AList.update k p (ws_pending s)\<rparr>)"
  using map_of_in_set [of "ws_pending s" "wm_corr m"] map_of_in_set [of "AList.update k p (ws_pending s)" "wm_corr m"]
  by (fastforce simp: held_def ws_wf_def pending_ok_def)

lemma held_updated: "pa_msg p = m \<Longrightarrow> held m (s\<lparr>ws_pending := AList.update k p d\<rparr>)"
  using map_of_SomeD [of "AList.update k p d" k p] by (auto simp: held_def)

lemma held_delete:
  "held m s \<Longrightarrow> ws_wf s \<Longrightarrow> k \<noteq> wm_corr m \<Longrightarrow> held m (s\<lparr>ws_pending := AList.delete k (ws_pending s)\<rparr>)"
  by (fastforce simp: held_def ws_wf_def pending_ok_def AList.delete_eq)

lemma held_send [simp]: "held m (ws_send gone x s) = held m s"
  by (simp add: held_def)

lemma held_handle_send:
  assumes "held m s" "ws_wf s" "wm_corr x \<noteq> wm_corr m"
  shows "held m (ws_handle_send gone now x s)"
  using assms held_update [OF assms]
  by (auto simp: ws_handle_send_def) (auto simp: held_def)

lemma held_broadcast:
  assumes "held m s" "ws_wf s" "wm_corr (ws_envelope (fst i) (fst (snd i)) d) \<noteq> wm_corr m"
  shows "held m (snd (ws_broadcast i d s))"
  using assms by (auto simp: ws_broadcast_def Let_def intro: held_handle_send split: prod.splits)

text \<open>A frame that acknowledges the message with id \<open>k\<close>.\<close>

definition acks :: "(json \<Rightarrow> string option) \<Rightarrow> string + json \<Rightarrow> json \<Rightarrow> bool" where
  "acks v x k \<longleftrightarrow> (\<exists>d p. validate_message v x = Inr d \<and> map_of d ''type'' = Some (JStr ''ack'')
     \<and> jget d ''payload'' (JObj []) = JObj p \<and> jget p ''correlationId'' JNull = k)"

lemma held_frame:
  assumes "held m s" "ws_wf s" "\<not> acks v x (wm_corr m)"
  shows "held m (snd (ws_frame v x s))"
  using assms by (auto simp: ws_frame_def acks_def Let_def intro!: held_delete split: sum.splits json.splits)

section \<open>How often a message is sent\<close>

lemma count_send:
  assumes "distinct (ws_clients s)"
  shows "count_list (ws_sent (ws_send gone x s)) (c, m) \<le> count_list (ws_sent s) (c, m) + (if x = m then 1 else 0)"
proof -
  have "distinct xs \<Longrightarrow> count_list (map (\<lambda>c. (c, x)) xs) (c, m) \<le> (if x = m then 1 else 0)" for xs :: "nat list"
  proof (induction xs)
    case (Cons a xs)
    then show ?case by (cases "a = c") (auto simp: count_list_0_iff)
  qed simp
  from this [of "filter (\<lambda>c. \<not> gone x c) (ws_clients s)"] assms show ?thesis
    by (auto simp: ws_send_def Let_def)
qed

lemma count_sends:
  "distinct (ws_clients s) \<Longrightarrow>
     count_list (ws_sent (fold (ws_send gone) ms s)) (c, m) \<le> count_list (ws_sent s) (c, m) + count_list ms m"
proof (induction ms arbitrary: s)
  case (Cons x ms)
  have "distinct (ws_clients (ws_send gone x s))" using Cons.prems by simp
  from Cons.IH [OF this] count_send [OF Cons.prems, of gone x c m] show ?case
    by (simp split: if_splits)
qed simp

text \<open>How many times a retry-class message may still be sent again.\<close>

definition resend_budget :: "ws_msg \<Rightarrow> (json, pending) dict \<Rightarrow> nat" where
  "resend_budget m d = (case map_of d (wm_corr m) of Some p \<Rightarrow> if pa_msg p = m then 3 - pa_retries p else 0 | None \<Rightarrow> 0)"

lemma tick_Cons [simp]:
  "tick_resend now ((k, p) # d) = (if fst (retry_item now p) = Resend then [pa_msg p] else []) @ tick_resend now d"
  "tick_pending now ((k, p) # d) = (if fst (retry_item now p) \<noteq> Drop then [(k, snd (retry_item now p))] else []) @ tick_pending now d"
  by (simp_all add: tick_resend_def tick_pending_def)

lemma tick_budget:
  assumes "dict_wf d" "\<forall>kp\<in>set d. pending_ok kp" "wm_type m \<notin> GUARANTEED"
  shows "count_list (tick_resend now d) m + resend_budget m (tick_pending now d) \<le> resend_budget m d"
  using assms
proof (induction d)
  case (Cons kp d)
  obtain k p where kp: "kp = (k, p)" by fastforce
  have IH: "count_list (tick_resend now d) m + resend_budget m (tick_pending now d) \<le> resend_budget m d"
    using Cons by (simp add: dict_wf_def)
  have k: "k = wm_corr (pa_msg p)" using Cons.prems by (auto simp: kp pending_ok_def)
  show ?case
  proof (cases "k = wm_corr m")
    case False
    then have "pa_msg p \<noteq> m" using k by auto
    with False IH show ?thesis by (auto simp: resend_budget_def kp)
  next
    case True
    have "wm_corr m \<notin> fst ` set d" using Cons.prems(1) True by (auto simp: dict_wf_def kp)
    then have "map_of d (wm_corr m) = None" by (simp add: map_of_eq_None_iff)
    moreover have "wm_corr m \<notin> fst ` set (tick_pending now d)"
      using \<open>wm_corr m \<notin> fst ` set d\<close> by (force simp: tick_pending_def)
    then have "map_of (tick_pending now d) (wm_corr m) = None" by (simp add: map_of_eq_None_iff)
    ultimately have none: "resend_budget m d = 0" "map_of (tick_pending now d) (wm_corr m) = None"
      by (simp_all add: resend_budget_def)
    then have zero: "count_list (tick_resend now d) m = 0" using IH by simp
    have r: "pa_msg p = m \<Longrightarrow> pa_class p = Ws_retry"
      using Cons.prems(2,3) by (cases "pa_class p") (auto simp: kp pending_ok_def)
    show ?thesis
      using True zero none r
      by (auto simp: resend_budget_def kp retry_item_def Let_def split: ws_class.splits)
  qed
qed (simp add: tick_resend_def tick_pending_def resend_budget_def)

lemma budget_deletes:
  "resend_budget m (fold (\<lambda>x. AList.delete (f x)) ms d) \<le> resend_budget m d"
proof (induction ms arbitrary: d)
  case (Cons x ms)
  have "resend_budget m (AList.delete (f x) d) \<le> resend_budget m d"
    by (auto simp: resend_budget_def split: option.splits)
  with Cons.IH [of "AList.delete (f x) d"] show ?case by simp
qed simp

lemma tick_count:
  assumes "ws_wf s" "wm_type m \<notin> GUARANTEED"
  shows "count_list (ws_sent (ws_retry_tick now gone s)) (c, m) + resend_budget m (ws_pending (ws_retry_tick now gone s))
     \<le> count_list (ws_sent s) (c, m) + resend_budget m (ws_pending s)"
proof -
  let ?d = "tick_pending now (ws_pending s)" and ?ms = "tick_resend now (ws_pending s)"
  have b: "count_list ?ms m + resend_budget m ?d \<le> resend_budget m (ws_pending s)"
    using assms tick_budget by (auto simp: ws_wf_def)
  show ?thesis
  proof (cases "ws_clients s = []")
    case True
    have "resend_budget m (fold (\<lambda>x. AList.delete (wm_corr x)) ?ms ?d) \<le> resend_budget m ?d"
      by (rule budget_deletes)
    with b True show ?thesis by (simp add: ws_retry_tick_eq Let_def)
  next
    case False
    have "distinct (ws_clients (s\<lparr>ws_pending := ?d\<rparr>))" using assms(1) by (simp add: ws_wf_def)
    from count_sends [OF this, of gone ?ms c m] b False show ?thesis
      by (simp add: ws_retry_tick_eq Let_def)
  qed
qed

lemma ticks_count:
  "ws_wf s \<Longrightarrow> wm_type m \<notin> GUARANTEED \<Longrightarrow>
   count_list (ws_sent (fold (\<lambda>(now, gone). ws_retry_tick now gone) ts s)) (c, m)
     \<le> count_list (ws_sent s) (c, m) + resend_budget m (ws_pending s)"
proof (induction ts arbitrary: s)
  case (Cons t ts)
  obtain now gone where t: "t = (now, gone)" by fastforce
  from Cons.IH [of "ws_retry_tick now gone s"] Cons.prems tick_count [OF Cons.prems, where c = c and now = now and gone = gone]
  show ?case by (simp add: t ws_wf_tick)
qed simp

section \<open>Batches\<close>

definition events_of :: "ws_msg \<Rightarrow> json list" where
  "events_of m = (case wm_payload m of JObj [(k, JArr xs)] \<Rightarrow> if wm_type m = JStr ''batch'' then xs else [] | _ \<Rightarrow> [])"

definition batched :: "ws_server \<Rightarrow> json list" where
  "batched s = concat (map (\<lambda>(c, m). events_of m) (ws_sent s)) @ map msg_json (ws_batch s)"

lemma events_of_batch [simp]: "events_of (batch_message now uuid ms) = map msg_json ms"
  by (simp add: events_of_def batch_message_def)

lemma batched_flush:
  "ws_clients s = [c] \<Longrightarrow> (\<And>x. \<not> gone x c) \<Longrightarrow>
     batched (ws_flush_batch gone now uuid s) = batched s \<and> ws_clients (ws_flush_batch gone now uuid s) = [c]"
  by (simp add: ws_flush_batch_def ws_send_def batched_def)

lemma batched_add:
  assumes "ws_clients s = [c]" "\<And>x. \<not> gone x c"
  shows "batched (ws_add_to_batch gone now uuid m s) = batched s @ [msg_json m]
       \<and> ws_clients (ws_add_to_batch gone now uuid m s) = [c]"
  using assms batched_flush [of "s\<lparr>ws_batch := ws_batch s @ [m]\<rparr>" c gone now uuid]
  by (auto simp: ws_add_to_batch_def Let_def) (simp_all add: batched_def)

section \<open>Properties\<close>

text \<open>C19: a guaranteed message the server holds, in its offline queue or waiting for an acknowledgement, is
  still held after any event, the retry timer included, unless the client acknowledges it, another
  message with its correlation id is broadcast, or a reconnecting client makes the server flush
  the offline queue it is in; and every event keeps the server's invariant.\<close>

theorem guaranteed_message_held:
  assumes "ws_wf s" "wm_type m \<in> GUARANTEED" "held m s"
  shows "ws_wf (ws_exec e s) \<and>
    (held m (ws_exec e s)
     \<or> (\<exists>v x. e = E_frame v x \<and> acks v x (wm_corr m))
     \<or> (\<exists>i d. e = E_broadcast i d \<and> wm_corr (ws_envelope (fst i) (fst (snd i)) d) = wm_corr m)
     \<or> (\<exists>gone c. e = E_connect gone c \<and> m \<in> set (ws_offline s)))"
proof (rule conjI)
  show "ws_wf (ws_exec e s)" by (rule ws_exec_wf) (rule assms(1))
  show "held m (ws_exec e s)
     \<or> (\<exists>v x. e = E_frame v x \<and> acks v x (wm_corr m))
     \<or> (\<exists>i d. e = E_broadcast i d \<and> wm_corr (ws_envelope (fst i) (fst (snd i)) d) = wm_corr m)
     \<or> (\<exists>gone c. e = E_connect gone c \<and> m \<in> set (ws_offline s))"
  proof (cases e)
    case (E_broadcast i d)
    with assms show ?thesis using held_broadcast [of m s i d] by auto
  next
    case (E_frame v x)
    with assms show ?thesis using held_frame [of m s v x] by auto
  next
    case (E_retry now gone)
    with assms show ?thesis by (simp add: held_tick)
  next
    case (E_batch now uuid gone)
    with assms(3) show ?thesis by (simp add: ws_batch_tick_def ws_flush_batch_def held_def)
  next
    case (E_connect gone c)
    with assms(3) show ?thesis by (auto simp: ws_connect_def held_def Let_def)
  next
    case (E_disconnect c)
    with assms(3) show ?thesis by (simp add: ws_disconnect_def held_def)
  qed
qed

definition wake_msg :: ws_msg where
  "wake_msg = \<lparr>wm_type = JStr ''wake'', wm_schema = JNum 1, wm_timestamp = JNum 0, wm_session = JStr ''server'',
     wm_corr = JStr ''w1'', wm_payload = JObj []\<rparr>"

definition one_pending :: "ws_class \<Rightarrow> ws_msg \<Rightarrow> ws_server" where
  "one_pending cls m = new_ws_server\<lparr>ws_loop := True, ws_clients := [7],
     ws_pending := [(wm_corr m, \<lparr>pa_msg = m, pa_class = cls, pa_retries = 0, pa_next_retry = 1/10\<rparr>)]\<rparr>"

theorem guaranteed_message_held_witness:
  "held wake_msg (ws_exec (E_retry 5 (\<lambda>x c. True)) (one_pending Ws_guaranteed wake_msg))"
  using guaranteed_message_held [of "one_pending Ws_guaranteed wake_msg" wake_msg "E_retry 5 (\<lambda>x c. True)"]
  by (simp add: one_pending_def new_ws_server_def wake_msg_def ws_wf_def held_def pending_ok_def GUARANTEED_def dict_wf_def)

text \<open>A message of the retry class is sent again at most three times to any client, whatever the clock
  does and however many ticks go by.\<close>

theorem retry_messages_bounded:
  assumes "ws_wf s" "wm_type m \<notin> GUARANTEED"
  shows "count_list (ws_sent (fold (\<lambda>(now, gone). ws_retry_tick now gone) ts s)) (c, m)
           \<le> count_list (ws_sent s) (c, m) + 3"
proof -
  have "resend_budget m (ws_pending s) \<le> 3" by (auto simp: resend_budget_def split: option.splits)
  with ticks_count [OF assms, of ts c] show ?thesis by simp
qed

definition speech_start_msg :: ws_msg where
  "speech_start_msg = wake_msg\<lparr>wm_type := JStr ''speech_start''\<rparr>"

theorem retry_messages_bounded_witness:
  "count_list (ws_sent (fold (\<lambda>(now, gone). ws_retry_tick now gone) (replicate 9 (5, \<lambda>x c. False))
     (one_pending Ws_retry speech_start_msg))) (7, speech_start_msg) \<le> 3"
  using retry_messages_bounded [of "one_pending Ws_retry speech_start_msg" speech_start_msg "replicate 9 (5, \<lambda>x c. False)" 7]
  by (simp add: one_pending_def new_ws_server_def wake_msg_def speech_start_msg_def ws_wf_def pending_ok_def
      GUARANTEED_def dict_wf_def)

text \<open>As long as its one client stays connected, best-effort messages reach it in order and none twice: the
  events of the batches sent so far, followed by the batch being filled, are the messages added,
  and the batch never holds ten.\<close>

theorem batches_in_order:
  assumes "ws_wf s" "ws_clients s = [c]" "\<forall>(now, uuid, gone, m)\<in>set ms. \<forall>x. \<not> gone x c"
  shows "let s' = fold (\<lambda>(now, uuid, gone, m). ws_add_to_batch gone now uuid m) ms s in
           batched s' = batched s @ map (\<lambda>(now, uuid, gone, m). msg_json m) ms
         \<and> length (ws_batch s') < 10"
  using assms
proof (induction ms arbitrary: s)
  case (Cons x ms)
  obtain now uuid gone m where x: "x = (now, uuid, gone, m)" by (metis prod.exhaust)
  have step: "batched (ws_add_to_batch gone now uuid m s) = batched s @ [msg_json m]
       \<and> ws_clients (ws_add_to_batch gone now uuid m s) = [c]"
    using Cons.prems by (intro batched_add) (auto simp: x)
  moreover have "ws_wf (ws_add_to_batch gone now uuid m s)" using Cons.prems(1) by (rule ws_wf_add_to_batch)
  ultimately show ?case
    using Cons.IH [of "ws_add_to_batch gone now uuid m s"] Cons.prems(3) by (simp add: x Let_def)
qed (simp add: ws_wf_def)

theorem batches_in_order_witness:
  "length (ws_batch (fold (\<lambda>(now, uuid, gone, m). ws_add_to_batch gone now uuid m)
     (replicate 25 (0, ''u'', \<lambda>x c. False, wake_msg)) (new_ws_server\<lparr>ws_clients := [7]\<rparr>))) < 10"
  using batches_in_order [of "new_ws_server\<lparr>ws_clients := [7]\<rparr>" 7 "replicate 25 (0, ''u'', \<lambda>x c. False, wake_msg)"]
  by (simp add: ws_wf_def new_ws_server_def Let_def)

text \<open>Flushing the offline queue is not tracked: after a client connects the queue is empty and nothing of
  it waits for an acknowledgement that did not before. If every send fails, the messages in it,
  guaranteed ones included, have been sent to nobody and are gone.\<close>

theorem offline_flush_untracked:
  "ws_offline (ws_connect gone c s) = []
   \<and> ws_pending (ws_connect gone c s) = ws_pending s
   \<and> ((\<forall>x c. gone x c) \<longrightarrow> ws_sent (ws_connect gone c s) = ws_sent s)"
proof -
  have "(\<forall>x c. gone x c) \<Longrightarrow> ws_sent (fold (ws_send gone) ms t) = ws_sent t" for ms t
    by (induction ms arbitrary: t) (simp_all add: ws_send_def)
  then show ?thesis by (auto simp: ws_connect_def Let_def)
qed

theorem offline_flush_untracked_witness:
  "let s = new_ws_server\<lparr>ws_offline := [wake_msg]\<rparr>; s' = ws_connect (\<lambda>x c. True) 7 s
   in ws_offline s' = [] \<and> ws_pending s' = [] \<and> ws_sent s' = []"
  using offline_flush_untracked [of "\<lambda>x c. True" 7 "new_ws_server\<lparr>ws_offline := [wake_msg]\<rparr>"]
  by (simp add: new_ws_server_def Let_def)

end
