(* ===== verification/Restart_Throttle.thy ===== *)
theory Restart_Throttle
  imports Ava_Contracts
begin

text \<open>
  \<^verbatim>\<open>src/runtime/supervisor/restart_policy.py\<close>: the sliding-window throttle \<open>RestartPolicy\<close> and the
  escalating \<open>RecoveryPolicy\<close> of the supervisor. The throttle is related to an abstract history of
  all restarts; the escalation steps are a linear order, and the step of a policy is monotone in
  its failure count.
\<close>

section \<open>RestartPolicy\<close>

record restart_policy =
  rs_max_restarts :: nat
  rs_window_s :: time_s
  rs_timestamps :: "time_s list"

definition new_restart_policy :: "nat \<Rightarrow> time_s \<Rightarrow> restart_policy" where
  "new_restart_policy n w = \<lparr>rs_max_restarts = n, rs_window_s = w, rs_timestamps = []\<rparr>"

definition rs_expire :: "time_s \<Rightarrow> restart_policy \<Rightarrow> restart_policy" where
  "rs_expire now p =
     p\<lparr>rs_timestamps := dropWhile (\<lambda>t. rs_window_s p < now - t) (rs_timestamps p)\<rparr>"

definition rs_record_restart :: "time_s \<Rightarrow> restart_policy \<Rightarrow> restart_policy" where
  "rs_record_restart now p = rs_expire now (p\<lparr>rs_timestamps := rs_timestamps p @ [now]\<rparr>)"

definition rs_can_restart :: "time_s \<Rightarrow> restart_policy \<Rightarrow> bool \<times> restart_policy" where
  "rs_can_restart now p =
     (let p' = rs_expire now p in (length (rs_timestamps p') < rs_max_restarts p', p'))"

lemma rs_consts [simp]:
  "rs_max_restarts (rs_expire now p) = rs_max_restarts p"
  "rs_window_s (rs_expire now p) = rs_window_s p"
  "rs_max_restarts (rs_record_restart now p) = rs_max_restarts p"
  "rs_window_s (rs_record_restart now p) = rs_window_s p"
  "rs_max_restarts (snd (rs_can_restart now p)) = rs_max_restarts p"
  "rs_window_s (snd (rs_can_restart now p)) = rs_window_s p"
  by (simp_all add: rs_expire_def rs_record_restart_def rs_can_restart_def Let_def)

subsection \<open>Refinement of a restart history\<close>

text \<open>
  The abstract state is the list of all restarts ever recorded. The policy keeps of it those that
  are at most one window old; \<open>now\<close> is the last time the policy looked at the clock.
\<close>

definition recent :: "time_s \<Rightarrow> time_s \<Rightarrow> time_s list \<Rightarrow> time_s list" where
  "recent w now hist = filter (\<lambda>t. now - t \<le> w) hist"

definition rs_abs :: "time_s \<Rightarrow> time_s list \<Rightarrow> restart_policy \<Rightarrow> bool" where
  "rs_abs now hist p \<longleftrightarrow>
     sorted hist \<and> (\<forall>t\<in>set hist. t \<le> now) \<and> 0 \<le> rs_window_s p \<and>
     rs_timestamps p = recent (rs_window_s p) now hist"

lemma dropWhile_old:
  "sorted xs \<Longrightarrow> dropWhile (\<lambda>t. w < now - t) xs = filter (\<lambda>t. now - t \<le> (w::rat)) xs"
proof (induction xs)
  case (Cons x xs)
  show ?case
  proof (cases "w < now - x")
    case False
    with Cons.prems have "\<forall>y\<in>set (x # xs). now - y \<le> w" by (auto simp: not_less)
    then have "filter (\<lambda>t. now - t \<le> w) (x # xs) = x # xs" by (intro filter_True)
    with False show ?thesis by simp
  qed (use Cons in auto)
qed simp

lemma recent_later: "now \<le> now' \<Longrightarrow> recent w now' (recent w now hist) = recent w now' hist"
  by (auto simp: recent_def intro!: filter_cong)

lemma sorted_recent: "sorted hist \<Longrightarrow> sorted (recent w now hist)"
  by (simp add: recent_def sorted_wrt_filter)

lemma rs_abs_expire:
  assumes "rs_abs now hist p" "now \<le> now'"
  shows "rs_abs now' hist (rs_expire now' p)"
  using assms sorted_recent [of hist "rs_window_s p" now]
  by (auto simp: rs_abs_def rs_expire_def dropWhile_old recent_later simp flip: recent_def)

lemma rs_abs_can:
  assumes "rs_abs now hist p" "now \<le> now'"
  shows "rs_abs now' hist (snd (rs_can_restart now' p))"
    and "fst (rs_can_restart now' p) \<longleftrightarrow> length (recent (rs_window_s p) now' hist) < rs_max_restarts p"
  using rs_abs_expire [OF assms] by (auto simp: rs_can_restart_def rs_abs_def Let_def)

lemma rs_abs_record:
  assumes "rs_abs now hist p" "now \<le> now'"
  shows "rs_abs now' (hist @ [now']) (rs_record_restart now' p)"
proof -
  let ?w = "rs_window_s p"
  have srt: "sorted (recent ?w now hist @ [now'])"
    using assms sorted_recent [of hist ?w now]
    by (force simp: rs_abs_def sorted_append recent_def)
  have "recent ?w now' (recent ?w now hist @ [now']) = recent ?w now' (hist @ [now'])"
    using recent_later [OF assms(2), of ?w hist] by (simp add: recent_def)
  with assms srt show ?thesis
    by (force simp: rs_abs_def rs_record_restart_def rs_expire_def dropWhile_old sorted_append
        simp flip: recent_def)
qed

subsection \<open>Guarded restarts\<close>

text \<open>
  What \<^verbatim>\<open>Supervisor._handle_worker_exit\<close> does with the policy at each of the given times: ask, and
  record the restart if it is granted. The result is the list of granted times.
\<close>

fun guarded :: "time_s list \<Rightarrow> restart_policy \<Rightarrow> time_s list \<times> restart_policy" where
  "guarded [] p = ([], p)"
| "guarded (t # ts) p =
     (let (ok, p1) = rs_can_restart t p in
      if ok then (let (gs, p2) = guarded ts (rs_record_restart t p1) in (t # gs, p2))
      else guarded ts p1)"

definition in_window :: "time_s \<Rightarrow> time_s \<Rightarrow> time_s list \<Rightarrow> time_s list" where
  "in_window w t ts = filter (\<lambda>x. t - w \<le> x \<and> x \<le> t) ts"

definition paced :: "nat \<Rightarrow> time_s \<Rightarrow> time_s list \<Rightarrow> bool" where
  "paced n w ts \<longleftrightarrow> (\<forall>t. length (in_window w t ts) \<le> n)"

lemma paced_snoc:
  assumes "paced n w ts" and srt: "\<forall>x\<in>set ts. x \<le> g" and room: "length (recent w g ts) < n"
  shows "paced n w (ts @ [g])"
  unfolding paced_def
proof
  fix t
  show "length (in_window w t (ts @ [g])) \<le> n"
  proof (cases "t - w \<le> g \<and> g \<le> t")
    case False
    with assms(1) show ?thesis by (auto simp: paced_def in_window_def)
  next
    case True
    have "length (filter (\<lambda>x. t - w \<le> x \<and> x \<le> t) ts) \<le> length (filter (\<lambda>x. g - x \<le> w) ts)"
      using True by (intro length_filter_mono) linarith
    with room True show ?thesis by (simp add: in_window_def recent_def)
  qed
qed

lemma guarded_paced:
  assumes "rs_abs now hist p" "paced (rs_max_restarts p) (rs_window_s p) hist"
    "sorted ts" "\<forall>t\<in>set ts. now \<le> t"
  shows "paced (rs_max_restarts p) (rs_window_s p) (hist @ fst (guarded ts p))"
  using assms
proof (induction ts arbitrary: now hist p)
  case (Cons t ts)
  obtain ok p1 where can: "rs_can_restart t p = (ok, p1)" by (cases "rs_can_restart t p")
  have nt: "now \<le> t" using Cons.prems(4) by simp
  have p1: "rs_abs t hist p1" "rs_max_restarts p1 = rs_max_restarts p" "rs_window_s p1 = rs_window_s p"
    and ok: "ok \<longleftrightarrow> length (recent (rs_window_s p) t hist) < rs_max_restarts p"
    using rs_abs_can [OF Cons.prems(1) nt] rs_consts(5,6) [of t p] by (simp_all add: can)
  have later: "\<forall>u\<in>set ts. t \<le> u" "sorted ts" using Cons.prems(3) by auto
  show ?case
  proof (cases ok)
    case True
    let ?p2 = "rs_record_restart t p1"
    have abs2: "rs_abs t (hist @ [t]) ?p2" using rs_abs_record [OF p1(1)] by simp
    have le: "\<forall>x\<in>set hist. x \<le> t" using p1(1) by (simp add: rs_abs_def)
    have "paced (rs_max_restarts p) (rs_window_s p) (hist @ [t])"
      using paced_snoc [OF Cons.prems(2) le] True ok by simp
    then have "paced (rs_max_restarts p) (rs_window_s p) ((hist @ [t]) @ fst (guarded ts ?p2))"
      using Cons.IH [OF abs2 _ later(2) later(1)] p1 by simp
    with True show ?thesis by (simp add: can split_beta)
  next
    case False
    then show ?thesis
      using Cons.IH [OF p1(1) _ later(2) later(1)] Cons.prems(2) p1 by (simp add: can)
  qed
qed simp

section \<open>RecoveryPolicy\<close>

datatype rec_step = Step_worker_restart | Step_provider_reload | Step_runtime_restart
  | Step_degraded_mode | Step_fatal

fun step_rank :: "rec_step \<Rightarrow> nat" where
  "step_rank Step_worker_restart = 0"
| "step_rank Step_provider_reload = 1"
| "step_rank Step_runtime_restart = 2"
| "step_rank Step_degraded_mode = 3"
| "step_rank Step_fatal = 4"

text \<open>The steps are ordered by escalation.\<close>

instantiation rec_step :: linorder
begin

definition less_eq_rec_step :: "rec_step \<Rightarrow> rec_step \<Rightarrow> bool" where
  "less_eq_rec_step a b \<longleftrightarrow> step_rank a \<le> step_rank b"

definition less_rec_step :: "rec_step \<Rightarrow> rec_step \<Rightarrow> bool" where
  "less_rec_step a b \<longleftrightarrow> step_rank a < step_rank b"

instance
proof
  fix a b :: rec_step
  assume "a \<le> b" "b \<le> a"
  then show "a = b" by (cases a; cases b) (auto simp: less_eq_rec_step_def)
qed (auto simp: less_eq_rec_step_def less_rec_step_def)

end

definition STEPS :: "rec_step list" where
  "STEPS = [Step_worker_restart, Step_provider_reload, Step_runtime_restart,
            Step_degraded_mode, Step_fatal]"

definition BACKOFF_MS :: "int list" where
  "BACKOFF_MS = [1000, 2000, 4000, 8000, 16000]"

record sup_recovery =
  failures :: int

definition new_sup_recovery :: sup_recovery where
  "new_sup_recovery = \<lparr>failures = 0\<rparr>"

definition sr_record_failure :: "sup_recovery \<Rightarrow> sup_recovery" where
  "sr_record_failure r = r\<lparr>failures := min (failures r + 1) (int (length STEPS))\<rparr>"

definition sr_reset :: "sup_recovery \<Rightarrow> sup_recovery" where
  "sr_reset r = r\<lparr>failures := 0\<rparr>"

definition sr_current_step :: "sup_recovery \<Rightarrow> rec_step" where
  "sr_current_step r = STEPS ! nat (max 0 (min (failures r - 1) (int (length STEPS) - 1)))"

definition sr_next_backoff_ms :: "sup_recovery \<Rightarrow> int" where
  "sr_next_backoff_ms r =
     BACKOFF_MS ! nat (max 0 (min (failures r - 1) (int (length BACKOFF_MS) - 1)))"

lemmas sr_defs = sr_record_failure_def sr_reset_def sr_current_step_def sr_next_backoff_ms_def
  new_sup_recovery_def

definition sr_wf :: "sup_recovery \<Rightarrow> bool" where
  "sr_wf r \<longleftrightarrow> 0 \<le> failures r \<and> failures r \<le> 5"

lemma sr_wf_ops [ava_inv]: "sr_wf new_sup_recovery" "sr_wf r \<Longrightarrow> sr_wf (sr_record_failure r)" "sr_wf (sr_reset r)"
  by (auto simp: sr_wf_def sr_defs STEPS_def)

lemma sr_wf_cases:
  assumes "sr_wf r"
  obtains "failures r = 0" | "failures r = 1" | "failures r = 2" | "failures r = 3"
    | "failures r = 4" | "failures r = 5"
proof -
  have "failures r = 0 \<or> failures r = 1 \<or> failures r = 2 \<or> failures r = 3 \<or> failures r = 4 \<or> failures r = 5"
    using assms unfolding sr_wf_def by arith
  then show thesis using that by blast
qed

lemma sr_step_values:
  "failures r = 1 \<Longrightarrow> sr_current_step r = Step_worker_restart"
  "failures r = 2 \<Longrightarrow> sr_current_step r = Step_provider_reload"
  "failures r = 3 \<Longrightarrow> sr_current_step r = Step_runtime_restart"
  "failures r = 4 \<Longrightarrow> sr_current_step r = Step_degraded_mode"
  "failures r = 5 \<Longrightarrow> sr_current_step r = Step_fatal"
  "failures r \<le> 0 \<Longrightarrow> sr_current_step r = Step_worker_restart"
  by (simp_all add: sr_current_step_def STEPS_def)

section \<open>Properties\<close>

text \<open>C38: the throttle refines the history of all restarts: as long as the clock does not go back, its
  timestamps are the restarts of the last window, \<open>can_restart\<close> answers whether there are fewer of
  them than allowed, and recording a restart extends the history by one.\<close>

theorem throttle_refines_history:
  assumes "rs_abs now hist p" "now \<le> now'"
  shows "(fst (rs_can_restart now' p) \<longleftrightarrow>
            length (recent (rs_window_s p) now' hist) < rs_max_restarts p)
       \<and> rs_abs now' hist (snd (rs_can_restart now' p))
       \<and> rs_abs now' (hist @ [now']) (rs_record_restart now' p)"
  using rs_abs_can [OF assms] rs_abs_record [OF assms] by simp

theorem throttle_refines_history_witness:
  "fst (rs_can_restart 65 \<lparr>rs_max_restarts = 2, rs_window_s = 60, rs_timestamps = [3, 10]\<rparr>)"
  using throttle_refines_history
    [of 10 "[3, 10]" "\<lparr>rs_max_restarts = 2, rs_window_s = 60, rs_timestamps = [3, 10]\<rparr>" 65]
  by (simp add: rs_abs_def recent_def)

text \<open>Restarts that are asked for before they are made are rate limited: however often the worker
  exits, no interval of one window length contains more than \<open>max_restarts\<close> restarts.\<close>

theorem guarded_restarts_paced:
  assumes "sorted ts" "\<forall>t\<in>set ts. 0 \<le> t" "0 \<le> w"
  shows "length (in_window w t (fst (guarded ts (new_restart_policy n w)))) \<le> n"
proof -
  let ?p = "new_restart_policy n w"
  have "rs_abs 0 [] ?p" "paced (rs_max_restarts ?p) (rs_window_s ?p) []"
    using assms(3) by (simp_all add: rs_abs_def new_restart_policy_def recent_def paced_def in_window_def)
  from guarded_paced [OF this assms(1,2)] show ?thesis
    by (simp add: paced_def new_restart_policy_def)
qed

theorem guarded_restarts_paced_witness:
  "fst (guarded [1, 2, 3, 70] (new_restart_policy 2 60)) = [1, 2, 70] \<and>
   length (in_window 60 70 (fst (guarded [1, 2, 3, 70] (new_restart_policy 2 60)))) \<le> 2"
proof
  show "fst (guarded [1, 2, 3, 70] (new_restart_policy 2 60)) = [1, 2, 70]"
    by (simp add: rs_can_restart_def rs_record_restart_def rs_expire_def new_restart_policy_def Let_def)
  show "length (in_window 60 70 (fst (guarded [1, 2, 3, 70] (new_restart_policy 2 60)))) \<le> 2"
    by (rule guarded_restarts_paced) simp_all
qed

text \<open>The supervisor's policy escalates one step per recorded failure and never goes back without a
  reset: the step and the backoff are monotone in the failures, bounded by \<open>fatal\<close> and 16 seconds.\<close>

theorem supervisor_escalation_monotone:
  assumes "sr_wf r"
  shows "sr_current_step r \<le> sr_current_step (sr_record_failure r)
       \<and> sr_next_backoff_ms r \<le> sr_next_backoff_ms (sr_record_failure r)
       \<and> sr_next_backoff_ms (sr_record_failure r) \<le> 16000
       \<and> (2 \<le> failures (sr_record_failure r) \<and> failures r < 5 \<longrightarrow>
             sr_current_step r < sr_current_step (sr_record_failure r))"
  using assms
  by (cases rule: sr_wf_cases)
     (simp_all add: sr_defs STEPS_def BACKOFF_MS_def less_eq_rec_step_def less_rec_step_def)

theorem supervisor_escalation_monotone_witness:
  "sr_current_step \<lparr>failures = 2\<rparr> < sr_current_step (sr_record_failure \<lparr>failures = 2\<rparr>)"
  using supervisor_escalation_monotone [of "\<lparr>failures = 2\<rparr>"]
  by (simp add: sr_wf_def sr_record_failure_def STEPS_def)

end
