(* ===== verification/Supervisor.thy ===== *)
theory Supervisor
  imports WS_Server Restart_Throttle
begin

text \<open>
  \<^verbatim>\<open>src/runtime/supervisor/supervisor.py\<close>: the parent process that spawns the worker, restarts it when it
  exits or its heartbeat goes stale, and passes messages between the worker and the WebSocket
  server. The operating system's answers (the exit code, whether \<open>Popen\<close> and \<open>terminate\<close> succeed,
  whether an IPC send does) and the clock readings are inputs of a pass of the monitor loop. Every
  line written to standard output is recorded, without its time stamp; so is what is sent to the
  worker. The results of the profile loader, the validator and the metrics are inputs of the
  commands that ask for them.
\<close>

section \<open>State\<close>

record supervisor =
  sv_heartbeat_timeout :: pyfloat
  sv_restart_policy :: restart_policy
  sv_recovery_policy :: sup_recovery
  sv_degraded :: bool
  sv_worker :: "nat option"
  sv_last_heartbeat :: time_s
  sv_stop :: bool
  sv_ipc :: bool
  sv_ws :: ws_server
  sv_emitted :: "json list"
  sv_ipc_sent :: "json list"
  sv_stdin :: "json list"

definition new_supervisor :: "pyfloat \<Rightarrow> restart_policy option \<Rightarrow> supervisor" where
  "new_supervisor timeout policy =
     \<lparr>sv_heartbeat_timeout = timeout,
      sv_restart_policy = (case policy of Some p \<Rightarrow> p | None \<Rightarrow> new_restart_policy 5 60),
      sv_recovery_policy = new_sup_recovery, sv_degraded = False, sv_worker = None, sv_last_heartbeat = 0,
      sv_stop = False, sv_ipc = False, sv_ws = new_ws_server, sv_emitted = [], sv_ipc_sent = [], sv_stdin = []\<rparr>"

definition sv_emit :: "(string, json) dict \<Rightarrow> supervisor \<Rightarrow> supervisor" where
  "sv_emit d s = s\<lparr>sv_emitted := sv_emitted s @ [JObj d]\<rparr>"

definition ev :: "string \<Rightarrow> (string, json) dict" where
  "ev name = [(''event'', JStr name)]"

section \<open>Starting and stopping workers\<close>

text \<open>\<open>Popen\<close> gives a process or raises.\<close>

definition sv_spawn_worker :: "time_s \<Rightarrow> nat option \<Rightarrow> supervisor \<Rightarrow> (py_exc + unit) \<times> supervisor" where
  "sv_spawn_worker now popen s =
     (case popen of
        None \<Rightarrow> (Inl (OSError ''Popen''), s)
      | Some pid \<Rightarrow> (Inr (), sv_emit (ev ''worker_started'' @ [(''pid'', JNum (of_nat pid))])
          (s\<lparr>sv_worker := Some pid, sv_last_heartbeat := now\<rparr>)))"

definition sv_stop_all :: "supervisor \<Rightarrow> supervisor" where
  "sv_stop_all s = sv_emit (ev ''supervisor_stopped'') (s\<lparr>sv_stop := True\<rparr>)"

record sup_input =
  si_poll :: "int option"
  si_now :: time_s
  si_now_can :: time_s
  si_now_record :: time_s
  si_now_spawn :: time_s
  si_popen :: "nat option"
  si_ipc_ok :: bool
  si_terminated :: bool

definition sv_handle_worker_exit :: "sup_input \<Rightarrow> supervisor \<Rightarrow> (py_exc + unit) \<times> supervisor" where
  "sv_handle_worker_exit i s =
     (let s = s\<lparr>sv_worker := None\<rparr>;
          (ok, p) = rs_can_restart (si_now_can i) (sv_restart_policy s);
          s = s\<lparr>sv_restart_policy := p\<rparr>
      in if \<not> ok then (Inr (), sv_emit (ev ''worker_restart_throttled'') s)
         else sv_spawn_worker (si_now_spawn i) (si_popen i)
                (s\<lparr>sv_restart_policy := rs_record_restart (si_now_record i) (sv_restart_policy s)\<rparr>))"

definition sv_action_worker_restart :: "sup_input \<Rightarrow> supervisor \<Rightarrow> (py_exc + unit) \<times> supervisor" where
  "sv_action_worker_restart i s = sv_handle_worker_exit i s"

definition sv_action_provider_reload :: "sup_input \<Rightarrow> supervisor \<Rightarrow> (py_exc + unit) \<times> supervisor" where
  "sv_action_provider_reload i s =
     (let s = sv_emit (ev ''provider_reload_requested'') s;
          s = (if sv_ipc s
               then let s = s\<lparr>sv_ipc_sent := sv_ipc_sent s @ [JObj [(''type'', JStr ''PROVIDER_RELOAD'')]]\<rparr>
                    in if si_ipc_ok i then sv_emit (ev ''provider_reload_ipc_sent'') s else s
               else s)
      in sv_handle_worker_exit i s)"

definition sv_action_runtime_restart :: "sup_input \<Rightarrow> supervisor \<Rightarrow> (py_exc + unit) \<times> supervisor" where
  "sv_action_runtime_restart i s =
     (let s = sv_emit (ev ''runtime_restart'') s;
          s = s\<lparr>sv_recovery_policy := sr_reset (sv_recovery_policy s)\<rparr>;
          s = s\<lparr>sv_restart_policy := new_restart_policy 5 60\<rparr>
      in sv_spawn_worker (si_now_spawn i) (si_popen i) s)"

definition sv_action_degraded_mode :: "supervisor \<Rightarrow> supervisor" where
  "sv_action_degraded_mode s = (sv_emit (ev ''runtime_degraded'') s)\<lparr>sv_degraded := True, sv_stop := True\<rparr>"

definition sv_action_fatal :: "int \<Rightarrow> supervisor \<Rightarrow> supervisor" where
  "sv_action_fatal code s =
     sv_stop_all ((sv_emit (ev ''worker_fatal'' @ [(''code'', JNum (of_int code))]) s)\<lparr>sv_degraded := True\<rparr>)"

text \<open>\<open>finally\<close> spawns whether or not the old process could be terminated; only then is the restart
  recorded.\<close>

definition sv_restart_worker :: "string \<Rightarrow> sup_input \<Rightarrow> supervisor \<Rightarrow> (py_exc + unit) \<times> supervisor" where
  "sv_restart_worker reason i s =
     (case sv_worker s of
        None \<Rightarrow> (Inr (), s)
      | Some pid \<Rightarrow>
          let s = sv_emit (ev ''worker_terminating'' @ [(''reason'', JStr reason), (''pid'', JNum (of_nat pid))]) s;
              s = (if si_terminated i
                   then s\<lparr>sv_restart_policy := rs_record_restart (si_now_record i) (sv_restart_policy s)\<rparr> else s)
          in sv_spawn_worker (si_now_spawn i) (si_popen i) s)"

section \<open>The monitor loop\<close>

fun step_value :: "rec_step \<Rightarrow> string" where
  "step_value Step_worker_restart = ''worker_restart''"
| "step_value Step_provider_reload = ''provider_reload''"
| "step_value Step_runtime_restart = ''runtime_restart''"
| "step_value Step_degraded_mode = ''degraded_mode''"
| "step_value Step_fatal = ''fatal''"

definition sv_recover :: "int \<Rightarrow> sup_input \<Rightarrow> supervisor \<Rightarrow> supervisor" where
  "sv_recover ret i s =
     (let s = sv_emit (ev ''worker_exited'' @ [(''code'', JNum (of_int ret))]) s;
          s = s\<lparr>sv_recovery_policy := sr_record_failure (sv_recovery_policy s)\<rparr>;
          step = sr_current_step (sv_recovery_policy s);
          s = sv_emit (ev ''recovery_step'' @ [(''step'', JStr (step_value step)),
                (''backoff_ms'', JNum (of_int (sr_next_backoff_ms (sv_recovery_policy s))))]) s
      in case step of
           Step_fatal \<Rightarrow> sv_action_fatal ret s
         | Step_worker_restart \<Rightarrow> snd (sv_action_worker_restart i s)
         | Step_provider_reload \<Rightarrow> snd (sv_action_provider_reload i s)
         | Step_runtime_restart \<Rightarrow> snd (sv_action_runtime_restart i s)
         | Step_degraded_mode \<Rightarrow> sv_action_degraded_mode s)"

text \<open>One pass. An exception of an action is logged and the loop goes on; the \<open>fatal\<close> step leaves the loop,
  which the stop flag it sets expresses.\<close>

definition sv_monitor_pass :: "sup_input \<Rightarrow> supervisor \<Rightarrow> supervisor" where
  "sv_monitor_pass i s =
     (if sv_stop s then s
      else case sv_worker s of
        None \<Rightarrow> s
      | Some pid \<Rightarrow>
          case si_poll i of
            Some ret \<Rightarrow> sv_recover ret i s
          | None \<Rightarrow>
              if sv_heartbeat_timeout s < si_now i - sv_last_heartbeat s
              then snd (sv_restart_worker ''heartbeat_stale'' i (sv_emit (ev ''worker_heartbeat_stale'') s))
              else s)"

section \<open>Messages from the worker\<close>

definition sv_broadcast :: "ws_input \<Rightarrow> (string, json) dict \<Rightarrow> supervisor \<Rightarrow> (py_exc + unit) \<times> supervisor" where
  "sv_broadcast w d s = (let (r, ws) = ws_broadcast w d (sv_ws s) in (r, s\<lparr>sv_ws := ws\<rparr>))"

definition ipc_event_name :: "json \<Rightarrow> string option" where
  "ipc_event_name t =
     (if t = JStr ''HEARTBEAT'' then Some ''heartbeat''
      else if t = JStr ''STATUS'' then Some ''status''
      else if t = JStr ''WAKE'' then Some ''wake''
      else if t = JStr ''ERROR'' then Some ''error''
      else if t = JStr ''DIAGNOSTICS'' then Some ''diagnostics''
      else None)"

text \<open>A payload that is not a mapping raises inside the handler, which only logs it.\<close>

definition sv_on_ipc_receive :: "time_s \<Rightarrow> ws_input \<Rightarrow> (string, json) dict \<Rightarrow> supervisor \<Rightarrow> supervisor" where
  "sv_on_ipc_receive now w obj s =
     (let typ = jget obj ''type'' JNull;
          payload = jget obj ''payload'' (JObj []);
          payload = (if truthy payload then payload else JObj []);
          send = (\<lambda>out s. snd (sv_broadcast w [(''type'', jget out ''event'' JNull), (''payload'', JObj out)] (sv_emit out s)))
      in case ipc_event_name typ of
           Some name \<Rightarrow>
             (case payload of
                JObj p \<Rightarrow> send (jmerge (ev name) p) (if name = ''heartbeat'' then s\<lparr>sv_last_heartbeat := now\<rparr> else s)
              | _ \<Rightarrow> s)
         | None \<Rightarrow> send (ev ''ipc'' @ [(''type'', typ), (''payload'', payload)]) s)"

text \<open>A line of the worker's standard output: what \<open>json.loads\<close> made of it, or nothing. A value that is no
  object is written out and then raises, as a failing broadcast does.\<close>

definition sv_worker_line :: "time_s \<Rightarrow> ws_input \<Rightarrow> ws_input \<Rightarrow> string \<Rightarrow> json option \<Rightarrow> supervisor \<Rightarrow> supervisor" where
  "sv_worker_line now w w' line parsed s =
     (let generic = (\<lambda>s. let out = ev ''worker_output'' @ [(''line'', JStr line)]
                         in snd (sv_broadcast w' out (sv_emit out s)))
      in case parsed of
           None \<Rightarrow> generic s
         | Some j \<Rightarrow>
             let s = s\<lparr>sv_emitted := sv_emitted s @ [j]\<rparr> in
             case j of
               JObj d \<Rightarrow>
                 (case sv_broadcast w d s of
                    (Inl e, s) \<Rightarrow> generic s
                  | (Inr _, s) \<Rightarrow> if jget d ''event'' JNull = JStr ''heartbeat'' then s\<lparr>sv_last_heartbeat := now\<rparr> else s)
             | _ \<Rightarrow> generic s)"

text \<open>The loop over the worker's standard output: blank lines are skipped; \<open>loads\<close> is the JSON parser. That
  over standard error writes every line on until a write fails.\<close>

fun sv_reader_stdout ::
  "(string \<Rightarrow> json option) \<Rightarrow> (string \<times> time_s \<times> ws_input \<times> ws_input) list \<Rightarrow> supervisor \<Rightarrow> supervisor" where
  "sv_reader_stdout loads [] s = s"
| "sv_reader_stdout loads ((raw, now, w, w') # ls) s =
     (let line = py_strip raw
      in sv_reader_stdout loads ls (if line = '''' then s else sv_worker_line now w w' line (loads line) s))"

fun sv_reader_stderr :: "(string \<times> (py_exc + unit)) list \<Rightarrow> string list \<Rightarrow> string list" where
  "sv_reader_stderr [] written = written"
| "sv_reader_stderr ((raw, write) # ls) written =
     (case write of Inl e \<Rightarrow> written | Inr _ \<Rightarrow> sv_reader_stderr ls (written @ [raw]))"

section \<open>Commands from the SDK\<close>

fun flatten_json :: "string \<Rightarrow> (string, json) dict \<Rightarrow> (string, json) dict" where
  "flatten_json pre [] = []"
| "flatten_json pre ((k, v) # d) =
     (case v of
        JObj e \<Rightarrow> jmerge (flatten_json (pre @ k @ ''.'') e) (flatten_json pre d)
      | JArr xs \<Rightarrow> flatten_json pre d
      | _ \<Rightarrow> jmerge [(pre @ k, v)] (flatten_json pre d))"

definition reply :: "string \<Rightarrow> (string, json) dict \<Rightarrow> json \<Rightarrow> (string, json) dict" where
  "reply typ msg result =
     (let corr = jget msg ''correlationId'' JNull in
      [(''type'', JStr typ), (''correlationId'', corr),
       (''payload'', JObj [(''correlationId'', corr), (''result'', result)])])"

record shim_results =
  sh_profile :: "py_exc + (string, json) dict"
  sh_metrics :: json
  sh_validation :: "py_exc + json"

definition sv_diagnostics :: "ws_input \<Rightarrow> shim_results \<Rightarrow> (string, json) dict \<Rightarrow> json \<Rightarrow> supervisor \<Rightarrow> (py_exc + unit) \<times> supervisor" where
  "sv_diagnostics w sh msg req s =
     (if req = JStr ''effective_config''
      then case sh_profile sh of
             Inl e \<Rightarrow> (Inl e, s)
           | Inr p \<Rightarrow> sv_broadcast w (reply ''diagnostics_response'' msg (JObj [(''values'', JObj (flatten_json [] p))])) s
      else if req = JStr ''metrics'' then sv_broadcast w (reply ''diagnostics_response'' msg (sh_metrics sh)) s
      else if req = JStr ''health''
        then sv_broadcast w (reply ''diagnostics_response'' msg (JObj [(''status'', JStr ''healthy'')])) s
      else (Inr (), s))"

definition sv_forward :: "string \<Rightarrow> (string, json) dict \<Rightarrow> supervisor \<Rightarrow> supervisor" where
  "sv_forward cmd payload s =
     (if sv_ipc s
      then s\<lparr>sv_ipc_sent := sv_ipc_sent s @ [JObj [(''type'', JStr (py_upper cmd)), (''payload'', JObj payload)]]\<rparr>
      else if sv_worker s \<noteq> None then s\<lparr>sv_stdin := sv_stdin s @ [jget payload ''command'' (JStr cmd)]\<rparr>
      else s)"

text \<open>The message has passed the envelope check, so its payload is an object.\<close>

definition sv_on_ws_receive :: "ws_input \<Rightarrow> shim_results \<Rightarrow> (string, json) dict \<Rightarrow> supervisor \<Rightarrow> (py_exc + unit) \<times> supervisor" where
  "sv_on_ws_receive w sh msg s =
     (let typ = jget msg ''type'' JNull;
          payload = (case jget msg ''payload'' (JObj []) of JObj p \<Rightarrow> p | _ \<Rightarrow> [])
      in if typ = JStr ''handshake''
           then sv_broadcast w [(''type'', JStr ''handshake_ack''), (''schemaVersion'', JNum 1),
                  (''protocolVersion'', JStr ''1.0''), (''manifest'', JObj []), (''capabilities'', JObj [])] s
         else if typ = JStr ''diagnostics_request'' then sv_diagnostics w sh msg (jget payload ''type'' JNull) s
         else if typ = JStr ''validate_profile''
           then case sh_validation sh of
                  Inl e \<Rightarrow> (Inl e, s)
                | Inr res \<Rightarrow> sv_broadcast w (reply ''validate_profile_response'' msg res) s
         else if typ = JStr ''crash_worker'' then (Inr (), s)
         else if typ = JStr ''start'' then (Inr (), sv_forward ''start'' payload s)
         else if typ = JStr ''stop'' then (Inr (), sv_forward ''stop'' payload s)
         else if typ = JStr ''configure'' then (Inr (), sv_forward ''configure'' payload s)
         else if typ = JStr ''shutdown'' then (Inr (), sv_stop_all s)
         else (Inr (), s))"

section \<open>Lemmas\<close>

definition mentions :: "string \<Rightarrow> supervisor \<Rightarrow> bool" where
  "mentions name s \<longleftrightarrow> (\<exists>d. JObj d \<in> set (sv_emitted s) \<and> map_of d ''event'' = Some (JStr name))"

lemmas sv_action_defs = sv_handle_worker_exit_def sv_action_worker_restart_def sv_action_provider_reload_def sv_action_runtime_restart_def
  sv_restart_worker_def sv_spawn_worker_def sv_emit_def ev_def

lemmas sv_recover_simps = sv_recover_def sr_step_values sr_record_failure_def sr_reset_def STEPS_def
  sv_action_defs Let_def case_prod_unfold

lemma sv_recover_low:
  assumes "failures (sv_recovery_policy s) \<in> {0, 1, 2}"
  shows "failures (sv_recovery_policy (sv_recover ret i s)) =
           (if failures (sv_recovery_policy s) = 2 then 0 else failures (sv_recovery_policy s) + 1)"
    and "sv_degraded (sv_recover ret i s) = sv_degraded s" "sv_stop (sv_recover ret i s) = sv_stop s"
    and "name \<in> {''runtime_degraded'', ''worker_fatal''} \<Longrightarrow> mentions name (sv_recover ret i s) = mentions name s"
proof -
  let ?f = "failures (sv_recovery_policy s)"
  have f: "?f = 0 \<or> ?f = 1 \<or> ?f = 2" using assms by auto
  show "failures (sv_recovery_policy (sv_recover ret i s)) = (if ?f = 2 then 0 else ?f + 1)"
    using f by (elim disjE) (auto simp: sv_recover_simps split: option.splits)
  show "sv_degraded (sv_recover ret i s) = sv_degraded s" "sv_stop (sv_recover ret i s) = sv_stop s"
    using f by (elim disjE; auto simp: sv_recover_simps split: option.splits)+
  show "mentions name (sv_recover ret i s) = mentions name s"
    if "name \<in> {''runtime_degraded'', ''worker_fatal''}"
    using f that by (elim disjE) (auto simp: sv_recover_simps mentions_def split: option.splits)
qed

definition low_failures :: "supervisor \<Rightarrow> bool" where
  "low_failures s \<longleftrightarrow> failures (sv_recovery_policy s) \<in> {0, 1, 2}"

lemma sv_restart_worker_frame:
  "sv_recovery_policy (snd (sv_restart_worker r i s)) = sv_recovery_policy s"
  "sv_degraded (snd (sv_restart_worker r i s)) = sv_degraded s"
  "sv_stop (snd (sv_restart_worker r i s)) = sv_stop s"
  "name \<in> {''runtime_degraded'', ''worker_fatal''} \<Longrightarrow> mentions name (snd (sv_restart_worker r i s)) = mentions name s"
  by (auto simp: sv_action_defs mentions_def Let_def split: option.splits)

lemma sv_pass_low:
  assumes "low_failures s"
  shows "low_failures (sv_monitor_pass i s)" "sv_degraded (sv_monitor_pass i s) = sv_degraded s"
    "sv_stop (sv_monitor_pass i s) = sv_stop s"
    "name \<in> {''runtime_degraded'', ''worker_fatal''} \<Longrightarrow> mentions name (sv_monitor_pass i s) = mentions name s"
proof -
  let ?e = "sv_emit (ev ''worker_heartbeat_stale'') s"
  have e: "sv_recovery_policy ?e = sv_recovery_policy s" "sv_degraded ?e = sv_degraded s" "sv_stop ?e = sv_stop s"
    "name \<in> {''runtime_degraded'', ''worker_fatal''} \<Longrightarrow> mentions name ?e = mentions name s"
    by (auto simp: sv_emit_def ev_def mentions_def)
  note r = sv_recover_low [OF assms [unfolded low_failures_def]]
  show "low_failures (sv_monitor_pass i s)"
    using assms r(1) by (auto simp: sv_monitor_pass_def low_failures_def sv_restart_worker_frame e split: option.splits)
  show "sv_degraded (sv_monitor_pass i s) = sv_degraded s" "sv_stop (sv_monitor_pass i s) = sv_stop s"
    using r(2,3) by (auto simp: sv_monitor_pass_def sv_restart_worker_frame e split: option.splits)
  show "name \<in> {''runtime_degraded'', ''worker_fatal''} \<Longrightarrow> mentions name (sv_monitor_pass i s) = mentions name s"
    using r(4) [of name] by (auto simp: sv_monitor_pass_def sv_restart_worker_frame(4) e split: option.splits)
qed

text \<open>A worker that exits again and again: the throttle has recorded at most as many restarts as the recovery
  policy has counted failures, and never fills.\<close>

definition crash_loop_inv :: "supervisor \<Rightarrow> bool" where
  "crash_loop_inv s \<longleftrightarrow> low_failures s \<and> 2 \<le> rs_max_restarts (sv_restart_policy s)
     \<and> int (length (rs_timestamps (sv_restart_policy s))) \<le> failures (sv_recovery_policy s)
     \<and> sv_worker s \<noteq> None \<and> \<not> sv_stop s \<and> \<not> mentions ''worker_restart_throttled'' s"

lemma length_rs_expire: "length (rs_timestamps (rs_expire now p)) \<le> length (rs_timestamps p)"
  by (simp add: rs_expire_def length_dropWhile_le)

lemma rs_can_room:
  "length (rs_timestamps p) < rs_max_restarts p \<Longrightarrow> rs_can_restart now p = (True, rs_expire now p)"
  using length_rs_expire [of now p] by (simp add: rs_can_restart_def Let_def)

lemma length_rs_record: "length (rs_timestamps (rs_record_restart now p)) \<le> Suc (length (rs_timestamps p))"
  using length_rs_expire [of now "p\<lparr>rs_timestamps := rs_timestamps p @ [now]\<rparr>"]
  by (simp add: rs_record_restart_def)

lemma length_rs_restart:
  "length (rs_timestamps (rs_record_restart now (rs_expire t p))) \<le> Suc (length (rs_timestamps p))"
  using length_rs_record [of now "rs_expire t p"] length_rs_expire [of t p] by linarith

lemma crash_loop_pass:
  assumes "crash_loop_inv s" "si_poll i = Some ret" "si_popen i = Some pid"
  shows "crash_loop_inv (sv_monitor_pass i s)" "sv_worker (sv_monitor_pass i s) = Some pid"
proof -
  let ?f = "failures (sv_recovery_policy s)" and ?p = "sv_restart_policy s"
  have low: "low_failures s" and f: "?f = 0 \<or> ?f = 1 \<or> ?f = 2"
    and n: "2 \<le> rs_max_restarts ?p" "int (length (rs_timestamps ?p)) \<le> ?f"
    and m: "\<not> mentions ''worker_restart_throttled'' s"
    using assms(1) by (auto simp: crash_loop_inv_def low_failures_def)
  have pass: "sv_monitor_pass i s = sv_recover ret i s"
    using assms by (auto simp: sv_monitor_pass_def crash_loop_inv_def)
  have can: "?f < 2 \<Longrightarrow> rs_can_restart (si_now_can i) ?p = (True, rs_expire (si_now_can i) ?p)"
    using n by (intro rs_can_room) linarith
  have rec: "int (length (rs_timestamps (rs_record_restart (si_now_record i) (rs_expire (si_now_can i) ?p)))) \<le> ?f + 1"
    using length_rs_restart [of "si_now_record i" "si_now_can i" ?p] n by linarith
  have "2 \<le> rs_max_restarts (sv_restart_policy (sv_recover ret i s))
      \<and> int (length (rs_timestamps (sv_restart_policy (sv_recover ret i s))))
          \<le> failures (sv_recovery_policy (sv_recover ret i s))
      \<and> sv_worker (sv_recover ret i s) = Some pid
      \<and> \<not> mentions ''worker_restart_throttled'' (sv_recover ret i s)"
    using f n m can rec assms(3)
    by (elim disjE) (auto simp: sv_recover_simps mentions_def new_restart_policy_def)
  with sv_pass_low [OF low, where i = i] assms(1) show "crash_loop_inv (sv_monitor_pass i s)"
    "sv_worker (sv_monitor_pass i s) = Some pid"
    by (auto simp: pass crash_loop_inv_def)
qed

lemma stuck_passes: "sv_worker s = None \<Longrightarrow> fold sv_monitor_pass is s = s"
  by (induction "is") (simp_all add: sv_monitor_pass_def)

text \<open>Broadcasting with no client connected.\<close>

lemma broadcast_wake_offline:
  assumes "ws_loop (sv_ws s)" "ws_clients (sv_ws s) = []" "jget d ''type'' (JStr ''unknown'') = JStr ''wake''"
  shows "sv_broadcast w d s = (Inr (), s\<lparr>sv_ws := (sv_ws s)\<lparr>ws_offline :=
           ws_offline (sv_ws s) @ [ws_envelope (fst w) (fst (snd w)) d]\<rparr>\<rparr>)"
proof -
  have "wm_type (ws_envelope n u d) = JStr ''wake''" for n u using assms(3) by (simp add: ws_envelope_def)
  with assms(1,2) show ?thesis
    by (simp add: sv_broadcast_def ws_broadcast_def ws_handle_send_def GUARANTEED_def BEST_EFFORT_def Let_def
        split: prod.splits)
qed

lemma broadcast_wake_held:
  assumes "ws_loop (sv_ws s)" "jget d ''type'' (JStr ''unknown'') = JStr ''wake''" "map_of d ''correlationId'' = None"
  shows "held (ws_envelope (fst w) (fst (snd w)) d) (sv_ws (snd (sv_broadcast w d s)))"
proof -
  obtain now uuid now' uuid' gone where w: "w = (now, uuid, now', uuid', gone)" by (metis prod.exhaust)
  let ?m = "ws_envelope now uuid d"
  have t: "wm_type ?m = JStr ''wake''" "hashable (wm_corr ?m)"
    using assms(2,3) by (simp_all add: ws_envelope_def jget_def)
  have "sv_ws (snd (sv_broadcast w d s)) = ws_handle_send gone now' ?m (sv_ws s)"
    using assms(1) t by (simp add: sv_broadcast_def ws_broadcast_def w BEST_EFFORT_def case_prod_unfold)
  moreover have "held ?m (ws_handle_send gone now' ?m (sv_ws s))"
  proof (cases "ws_clients (sv_ws s) = []")
    case True
    with t show ?thesis by (simp add: ws_handle_send_def held_def GUARANTEED_def)
  next
    case False
    with t show ?thesis by (simp add: ws_handle_send_def held_updated GUARANTEED_def)
  qed
  ultimately show ?thesis by (simp add: w)
qed

lemma broadcast_untyped_lost:
  assumes "ws_loop (sv_ws s)" "ws_clients (sv_ws s) = []" "map_of d ''type'' = None"
  shows "sv_broadcast w d s = (Inr (), s)"
proof -
  have "wm_type (ws_envelope n u d) = JStr ''unknown''" for n u using assms(3) by (simp add: ws_envelope_def jget_def)
  with assms(1,2) show ?thesis
    by (simp add: sv_broadcast_def ws_broadcast_def ws_handle_send_def ws_send_def GUARANTEED_def RETRY_def
        BEST_EFFORT_def Let_def split: prod.splits)
qed

section \<open>Properties\<close>

text \<open>The last two steps of the supervisor's recovery, degraded mode and fatal, are never taken: the third
  step clears the failures it counts, so whatever the worker, the clock and the operating system
  do, no more than two failures are on the books between passes of the monitor loop, and no pass
  stops the supervisor, degrades it or announces that.\<close>

theorem degraded_and_fatal_unreachable:
  assumes "failures (sv_recovery_policy s) \<in> {0, 1, 2}"
  shows "let s' = fold sv_monitor_pass is s in
           failures (sv_recovery_policy s') \<in> {0, 1, 2}
         \<and> sv_degraded s' = sv_degraded s \<and> sv_stop s' = sv_stop s
         \<and> mentions ''runtime_degraded'' s' = mentions ''runtime_degraded'' s
         \<and> mentions ''worker_fatal'' s' = mentions ''worker_fatal'' s"
proof -
  have "low_failures s" using assms by (simp add: low_failures_def)
  then show ?thesis
  proof (induction "is" arbitrary: s)
    case (Cons i "is")
    note low = sv_pass_low [OF Cons.prems, where i = i]
    from Cons.IH [OF low(1)] show ?case by (simp add: low(2-) Let_def)
  qed (simp add: low_failures_def)
qed

definition crashing :: "nat \<Rightarrow> sup_input" where
  "crashing pid = \<lparr>si_poll = Some 1, si_now = 0, si_now_can = 0, si_now_record = 0, si_now_spawn = 0,
     si_popen = Some pid, si_ipc_ok = True, si_terminated = True\<rparr>"

definition running_supervisor :: "restart_policy \<Rightarrow> supervisor" where
  "running_supervisor p = (new_supervisor 12 (Some p))\<lparr>sv_worker := Some 1\<rparr>"

theorem degraded_and_fatal_unreachable_witness:
  "\<not> sv_degraded (fold sv_monitor_pass (map crashing [2..<40]) (running_supervisor (new_restart_policy 5 60)))"
  using degraded_and_fatal_unreachable [of "running_supervisor (new_restart_policy 5 60)" "map crashing [2..<40]"]
  by (simp add: running_supervisor_def new_supervisor_def new_sup_recovery_def Let_def)



text \<open>C18: when the first or second failure in a row meets a full throttle, or the new process cannot be
  spawned, the supervisor is left without a worker and no later pass ever starts one; yet it is
  neither stopped nor degraded.\<close>

theorem refused_restart_is_final:
  assumes "sv_worker s \<noteq> None" "\<not> sv_stop s" "si_poll i \<noteq> None" "failures (sv_recovery_policy s) \<in> {0, 1}"
    "\<not> fst (rs_can_restart (si_now_can i) (sv_restart_policy s)) \<or> si_popen i = None"
  shows "let s' = sv_monitor_pass i s in
           sv_worker s' = None \<and> \<not> sv_stop s' \<and> sv_degraded s' = sv_degraded s
         \<and> (\<forall>is. fold sv_monitor_pass is s' = s')"
proof -
  obtain ret pid where w: "sv_worker s = Some pid" "si_poll i = Some ret" using assms(1,3) by auto
  have f: "failures (sv_recovery_policy s) = 0 \<or> failures (sv_recovery_policy s) = 1" using assms(4) by auto
  have pass: "sv_monitor_pass i s = sv_recover ret i s" using w assms(2) by (simp add: sv_monitor_pass_def)
  have "sv_worker (sv_recover ret i s) = None"
    using f assms(5) by (elim disjE) (auto simp: sv_recover_simps)
  moreover have "sv_degraded (sv_recover ret i s) = sv_degraded s" "\<not> sv_stop (sv_recover ret i s)"
    using sv_recover_low(2,3) [of s ret i] assms(2,4) by auto
  ultimately show ?thesis by (simp add: pass stuck_passes Let_def)
qed

theorem refused_restart_is_final_witness:
  "sv_worker (sv_monitor_pass (crashing 2) (running_supervisor (new_restart_policy 0 60))) = None"
  using refused_restart_is_final [of "running_supervisor (new_restart_policy 0 60)" "crashing 2"]
  by (simp add: running_supervisor_def new_supervisor_def new_sup_recovery_def new_restart_policy_def
      crashing_def rs_can_restart_def rs_expire_def Let_def)

text \<open>A running worker is left alone as long as its last heartbeat is no older than the timeout, and
  replaced as soon as it is older, without asking the throttle; an IPC heartbeat with a proper
  payload sets the time of the last one.\<close>

theorem heartbeat_decides_restart:
  assumes "sv_worker s \<noteq> None" "\<not> sv_stop s" "si_poll i = None" "si_popen i = Some pid"
  shows "(si_now i - sv_last_heartbeat s \<le> sv_heartbeat_timeout s \<longrightarrow> sv_monitor_pass i s = s)
       \<and> (sv_heartbeat_timeout s < si_now i - sv_last_heartbeat s \<longrightarrow>
            sv_worker (sv_monitor_pass i s) = Some pid
          \<and> sv_last_heartbeat (sv_monitor_pass i s) = si_now_spawn i)
       \<and> sv_last_heartbeat (sv_on_ipc_receive t w [(''type'', JStr ''HEARTBEAT''), (''payload'', JObj p)] s) = t"
  using assms
  by (auto simp: sv_monitor_pass_def sv_action_defs sv_on_ipc_receive_def sv_broadcast_def ipc_event_name_def
      jget_def Let_def case_prod_unfold split: option.splits)

theorem heartbeat_decides_restart_witness:
  "sv_monitor_pass ((crashing 2)\<lparr>si_poll := None, si_now := 12\<rparr>) (running_supervisor (new_restart_policy 5 60))
     = running_supervisor (new_restart_policy 5 60)
   \<and> sv_worker (sv_monitor_pass ((crashing 2)\<lparr>si_poll := None, si_now := 13\<rparr>)
                  (running_supervisor (new_restart_policy 0 60))) = Some 2"
  using heartbeat_decides_restart [of "running_supervisor (new_restart_policy 5 60)"
      "(crashing 2)\<lparr>si_poll := None, si_now := 12\<rparr>" 2]
    heartbeat_decides_restart [of "running_supervisor (new_restart_policy 0 60)"
      "(crashing 2)\<lparr>si_poll := None, si_now := 13\<rparr>" 2]
  by (simp add: running_supervisor_def new_supervisor_def crashing_def)

text \<open>A wake event the worker sends over IPC while no client is connected is queued for the next one as
  a guaranteed message with the event as its payload; the same event on the worker's standard
  output has no \<open>type\<close> member, is broadcast as "unknown", and is lost.\<close>

lemma wake_needs_ipc:
  assumes "ws_loop (sv_ws s)" "ws_clients (sv_ws s) = []" "''event'' \<notin> fst ` set p" "''type'' \<notin> fst ` set p"
  shows "(\<exists>m. ws_offline (sv_ws (sv_on_ipc_receive t w [(''type'', JStr ''WAKE''), (''payload'', JObj p)] s))
              = ws_offline (sv_ws s) @ [m]
            \<and> wm_type m = JStr ''wake'' \<and> wm_payload m = JObj (jmerge (ev ''wake'') p))
       \<and> ws_offline (sv_ws (sv_worker_line t w w' line (Some (JObj (ev ''wake'' @ p))) s)) = ws_offline (sv_ws s)"
proof -
  let ?out = "jmerge (ev ''wake'') p"
  let ?d = "[(''type'', JStr ''wake''), (''payload'', JObj ?out)]"
  have name: "jget ?out ''event'' JNull = JStr ''wake''"
    using jget_jmerge_other [OF assms(3), of "ev ''wake''" JNull] by (simp add: jget_def ev_def)
  have d: "jget ?d ''type'' (JStr ''unknown'') = JStr ''wake''" by (simp add: jget_def)
  have ipc: "sv_on_ipc_receive t w [(''type'', JStr ''WAKE''), (''payload'', JObj p)] s
      = snd (sv_broadcast w ?d (sv_emit ?out s))"
    using name by (cases p) (simp_all add: sv_on_ipc_receive_def ipc_event_name_def jget_def)
  have m: "wm_type (ws_envelope (fst w) (fst (snd w)) ?d) = JStr ''wake''"
    "wm_payload (ws_envelope (fst w) (fst (snd w)) ?d) = JObj ?out"
    by (simp_all add: ws_envelope_def jget_def)
  have offline: "ws_offline (sv_ws (sv_on_ipc_receive t w [(''type'', JStr ''WAKE''), (''payload'', JObj p)] s))
      = ws_offline (sv_ws s) @ [ws_envelope (fst w) (fst (snd w)) ?d]"
    using broadcast_wake_offline [of "sv_emit ?out s" ?d w] assms(1,2) d
    unfolding ipc by (simp add: sv_emit_def)
  have no_type: "map_of (ev ''wake'' @ p) ''type'' = None"
    using assms(4) by (simp add: map_of_eq_None_iff ev_def)
  have lost: "sv_broadcast w (ev ''wake'' @ p) (s\<lparr>sv_emitted := x\<rparr>) = (Inr (), s\<lparr>sv_emitted := x\<rparr>)" for x
    using assms(1,2) no_type by (intro broadcast_untyped_lost) simp_all
  have "ws_offline (sv_ws (sv_worker_line t w w' line (Some (JObj (ev ''wake'' @ p))) s)) = ws_offline (sv_ws s)"
    by (simp add: sv_worker_line_def Let_def lost)
  with offline m show ?thesis by blast
qed

end
