(* ===== verification/Worker_Transport.thy ===== *)
theory Worker_Transport
  imports Supervisor
begin

text \<open>
  The worker's side of the channel to the supervisor: \<^verbatim>\<open>src/runtime/transport/stream/handler.py\<close> (the
  bridge that sends an event over IPC and falls back to standard output), \<^verbatim>\<open>src/runtime/ipc/protocol.py\<close>
  (framing) and the message handler of \<^verbatim>\<open>src/runtime/worker/worker_process.py\<close>. Whether an IPC
  client exists and its send succeeds is an input; so is the JSON parser of the received text.
\<close>

section \<open>The bridge\<close>

datatype ipc_outcome = No_client | Send_ok | Send_failed

datatype bridge_output =
    Via_ipc "(string, json) dict"
  | Via_stdout "(string, json) dict"

text \<open>An event name that is no string has no \<open>upper\<close>: the exception leads to the fallback.\<close>

definition bridge_emit :: "ipc_outcome \<Rightarrow> (string, json) dict \<Rightarrow> bridge_output" where
  "bridge_emit oc payload =
     (let t = jget payload ''event'' JNull;
          obj = AList.delete ''event'' payload;
          ipc_type = (if \<not> truthy t then Some ''DIAGNOSTICS''
                      else case t of JStr s \<Rightarrow> Some (py_upper s) | _ \<Rightarrow> None)
      in case (oc, ipc_type) of
           (Send_ok, Some typ) \<Rightarrow> Via_ipc [(''type'', JStr typ), (''payload'', JObj obj)]
         | _ \<Rightarrow> Via_stdout payload)"

definition wake_payload :: "string \<Rightarrow> pyfloat \<Rightarrow> pyfloat \<Rightarrow> pyfloat \<Rightarrow> time_s \<Rightarrow> (string, json) dict" where
  "wake_payload phrase raw smooth latency ts =
     [(''event'', JStr ''wake''), (''phrase'', JStr phrase), (''raw_confidence'', JNum (py_round 3 raw)),
      (''smooth_confidence'', JNum (py_round 3 smooth)), (''latency_ms'', JNum (py_round 1 latency)), (''ts'', JNum ts)]"

definition emit_wake :: "ipc_outcome \<Rightarrow> string \<Rightarrow> pyfloat \<Rightarrow> pyfloat \<Rightarrow> pyfloat \<Rightarrow> time_s \<Rightarrow> bridge_output" where
  "emit_wake oc phrase raw smooth latency ts = bridge_emit oc (wake_payload phrase raw smooth latency ts)"

definition emit_status :: "ipc_outcome \<Rightarrow> string \<Rightarrow> string \<Rightarrow> time_s \<Rightarrow> bridge_output" where
  "emit_status oc status detail ts =
     bridge_emit oc [(''event'', JStr ''status''), (''status'', JStr status), (''detail'', JStr detail), (''ts'', JNum ts)]"

definition emit_error :: "ipc_outcome \<Rightarrow> string \<Rightarrow> time_s \<Rightarrow> bridge_output" where
  "emit_error oc message ts =
     bridge_emit oc [(''event'', JStr ''error''), (''message'', JStr message), (''ts'', JNum ts)]"

definition heartbeat_event :: "ipc_outcome \<Rightarrow> time_s \<Rightarrow> time_s \<Rightarrow> bridge_output" where
  "heartbeat_event oc uptime ts =
     bridge_emit oc [(''event'', JStr ''heartbeat''), (''uptime_s'', JNum (py_round 1 uptime)), (''ts'', JNum ts)]"

section \<open>Framing\<close>

definition first_json :: "(string \<Rightarrow> json option) \<Rightarrow> string list \<Rightarrow> json option" where
  "first_json loads ls =
     (case filter (\<lambda>l. l \<noteq> [] \<and> loads l \<noteq> None) (map py_strip ls) of [] \<Rightarrow> None | l # _ \<Rightarrow> loads l)"

text \<open>What \<open>recv_json\<close> makes of the bytes of one read.\<close>

definition recv_json :: "(string \<Rightarrow> json option) \<Rightarrow> string \<Rightarrow> json option" where
  "recv_json loads data =
     (if data = [] then None
      else let s = py_strip data in
           case loads s of Some j \<Rightarrow> Some j | None \<Rightarrow> first_json loads (py_splitlines s))"

section \<open>The worker's handler\<close>

text \<open>The path of the profile to load, if the message asks for one.\<close>

definition worker_on_ipc :: "(string, json) dict \<Rightarrow> json option" where
  "worker_on_ipc msg =
     (if jget msg ''type'' JNull = JStr ''CONFIGURE''
      then case jget msg ''payload'' (JObj []) of
             JObj p \<Rightarrow>
               if jget p ''command'' JNull = JStr ''load_profile'' \<and> truthy (jget p ''path'' JNull)
               then Some (jget p ''path'' JNull) else None
           | _ \<Rightarrow> None
      else None)"

section \<open>Lemmas\<close>

definition feed_supervisor :: "time_s \<Rightarrow> ws_input \<Rightarrow> ws_input \<Rightarrow> bridge_output \<Rightarrow> supervisor \<Rightarrow> supervisor" where
  "feed_supervisor now w w' out s =
     (case out of
        Via_ipc d \<Rightarrow> sv_on_ipc_receive now w d s
      | Via_stdout d \<Rightarrow> sv_worker_line now w w' [] (Some (JObj d)) s)"

lemma py_upper_wake: "py_upper ''wake'' = ''WAKE''"
  by (simp add: py_upper_def upper_char_def Let_def char_of_def bit_0)

lemma emit_wake_ipc:
  "emit_wake Send_ok phrase raw smooth latency ts =
     Via_ipc [(''type'', JStr ''WAKE''), (''payload'', JObj (tl (wake_payload phrase raw smooth latency ts)))]"
  by (simp add: emit_wake_def bridge_emit_def wake_payload_def jget_def py_upper_wake Let_def)

lemma emit_wake_stdout:
  "oc \<noteq> Send_ok \<Longrightarrow> emit_wake oc phrase raw smooth latency ts = Via_stdout (wake_payload phrase raw smooth latency ts)"
  by (cases oc) (simp_all add: emit_wake_def bridge_emit_def Let_def)

lemma lines_from_split:
  "\<forall>c\<in>set a. \<not> is_linebreak c \<Longrightarrow>
     lines_from l (a @ CHR 0x0A # b) = (l @ a) # lines_from [] b"
proof (induction a arbitrary: l)
  case Nil
  then show ?case by (cases b) (simp_all add: is_linebreak_def Let_def)
next
  case (Cons c a)
  then have "\<not> is_linebreak c" by simp
  then have "of_char c \<noteq> (13 :: nat)" "\<not> is_linebreak c" by (auto simp: is_linebreak_def Let_def)
  with Cons show ?case by (cases a) auto
qed

text \<open>The message a wake becomes on its way over IPC.\<close>

definition wake_message :: "ws_input \<Rightarrow> string \<Rightarrow> pyfloat \<Rightarrow> pyfloat \<Rightarrow> pyfloat \<Rightarrow> time_s \<Rightarrow> ws_msg" where
  "wake_message w phrase raw smooth latency ts =
     ws_envelope (fst w) (fst (snd w)) [(''type'', JStr ''wake''), (''payload'', JObj (wake_payload phrase raw smooth latency ts))]"

lemma ipc_wake_broadcast:
  "feed_supervisor t w w' (emit_wake Send_ok phrase raw smooth latency ts) s =
     (let p = wake_payload phrase raw smooth latency ts
      in snd (sv_broadcast w [(''type'', JStr ''wake''), (''payload'', JObj p)] (sv_emit p s)))"
proof -
  have "jmerge (ev ''wake'') (tl (wake_payload phrase raw smooth latency ts)) = wake_payload phrase raw smooth latency ts"
    by (simp add: jmerge_def wake_payload_def ev_def)
  then show ?thesis
    by (simp add: feed_supervisor_def emit_wake_ipc sv_on_ipc_receive_def ipc_event_name_def jget_def
        wake_payload_def Let_def)
qed

lemma ipc_wake_held:
  assumes "ws_loop (sv_ws s)"
  shows "held (wake_message w phrase raw smooth latency ts)
           (sv_ws (feed_supervisor t w w' (emit_wake Send_ok phrase raw smooth latency ts) s))"
  using broadcast_wake_held [of "sv_emit (wake_payload phrase raw smooth latency ts) s"
      "[(''type'', JStr ''wake''), (''payload'', JObj (wake_payload phrase raw smooth latency ts))]" w] assms
  by (simp add: ipc_wake_broadcast wake_message_def sv_emit_def jget_def Let_def)

lemma ipc_wake_wf:
  "ws_wf (sv_ws s) \<Longrightarrow> ws_wf (sv_ws (feed_supervisor t w w' (emit_wake Send_ok phrase raw smooth latency ts) s))"
  by (simp add: ipc_wake_broadcast sv_broadcast_def sv_emit_def Let_def case_prod_unfold ws_wf_broadcast)

lemma wake_message_fields:
  "wm_type (wake_message w phrase raw smooth latency ts) = JStr ''wake''"
  "wm_payload (wake_message w phrase raw smooth latency ts) = JObj (wake_payload phrase raw smooth latency ts)"
  by (simp_all add: wake_message_def ws_envelope_def jget_def)

lemma stdout_wake_lost:
  assumes "ws_loop (sv_ws s)" "ws_clients (sv_ws s) = []" "oc \<noteq> Send_ok"
  shows "sv_ws (feed_supervisor t w w' (emit_wake oc phrase raw smooth latency ts) s) = sv_ws s"
proof -
  let ?p = "wake_payload phrase raw smooth latency ts"
  have "sv_broadcast w ?p (s\<lparr>sv_emitted := x\<rparr>) = (Inr (), s\<lparr>sv_emitted := x\<rparr>)" for x
    using assms(1,2) by (intro broadcast_untyped_lost) (simp_all add: wake_payload_def)
  with assms(3) show ?thesis
    by (simp add: feed_supervisor_def emit_wake_stdout sv_worker_line_def Let_def)
qed

text \<open>Of several lines that are no JSON together, only the first is received.\<close>

lemma recv_first_line:
  assumes "\<forall>c\<in>set l1. \<not> is_linebreak c" "l1 \<noteq> []" "py_strip l1 = l1" "loads l1 = Some j"
    and "py_strip input = l1 @ CHR 0x0A # l2" "loads (l1 @ CHR 0x0A # l2) = None" "input \<noteq> []"
  shows "recv_json loads input = Some j"
  using assms lines_from_split [OF assms(1), of "[]" l2]
  by (simp add: recv_json_def first_json_def py_splitlines_def)

section \<open>Properties\<close>

text \<open>The worker acts on no command of the SDK but \<open>configure\<close> with a profile to load: the messages the
  supervisor forwards for \<open>start\<close> and \<open>stop\<close> reach its handler and do nothing.\<close>

theorem worker_ignores_start_stop:
  assumes "sv_ipc s" "cmd \<in> {''start'', ''stop''}"
  shows "\<exists>msg. sv_ipc_sent (sv_forward cmd payload s) = sv_ipc_sent s @ [JObj msg] \<and> worker_on_ipc msg = None"
  using assms by (auto simp: sv_forward_def worker_on_ipc_def jget_def py_upper_def upper_char_def Let_def char_of_def bit_0)

theorem worker_ignores_start_stop_witness:
  "\<exists>msg. sv_ipc_sent (sv_forward ''start'' [] ((running_supervisor (new_restart_policy 5 60))\<lparr>sv_ipc := True\<rparr>)) = [JObj msg]
     \<and> worker_on_ipc msg = None"
  using worker_ignores_start_stop [of "(running_supervisor (new_restart_policy 5 60))\<lparr>sv_ipc := True\<rparr>" "''start''" "[]"]
  by (simp add: running_supervisor_def new_supervisor_def)

end
