(* ===== verification/IPC_Channel.thy ===== *)
theory IPC_Channel
  imports Json_Text Worker_Transport
begin

text \<open>
  \<^verbatim>\<open>src/runtime/ipc/channel.py\<close> and the sending side of \<^verbatim>\<open>src/runtime/ipc/protocol.py\<close>: the supervisor's
  server with its accept and read loops, the worker's client, and the entry point of the worker
  (\<^verbatim>\<open>src/runtime/worker/worker_process.py\<close>) with its heartbeat. A read returns the bytes the socket
  had at that moment (none at the end of the stream); whether the operating system accepts a
  connection or takes the bytes of a send is an input. The loops run step by step, so that reads and
  sends interleave freely.
\<close>

section \<open>Messages\<close>

record ipc_message =
  im_type :: string
  im_payload :: "(string, json) dict"

definition IPC_TYPES :: "string list" where
  "IPC_TYPES = [''START'', ''STOP'', ''HEALTH'', ''WAKE'', ''ERROR'', ''STATUS'', ''HEARTBEAT'', ''DIAGNOSTICS'', ''SHUTDOWN'']"

section \<open>Frames\<close>

definition frame :: "(pyfloat \<Rightarrow> string) \<Rightarrow> json \<Rightarrow> string" where
  "frame fr obj = json_dumps fr obj @ [CHR 0x0A]"

text \<open>The result of \<open>send_json\<close> and the bytes that went out.\<close>

definition send_json :: "(pyfloat \<Rightarrow> string) \<Rightarrow> bool \<Rightarrow> json \<Rightarrow> bool \<times> string" where
  "send_json fr sock_ok obj = (if sock_ok then (True, frame fr obj) else (False, []))"

section \<open>The server of the supervisor\<close>

record ipc_server =
  is_client :: bool
  is_reading :: bool
  is_stopped :: bool
  is_delivered :: "json list"

definition new_ipc_server :: ipc_server where
  "new_ipc_server = \<lparr>is_client = False, is_reading = False, is_stopped = False, is_delivered = []\<rparr>"

definition is_accept :: "ipc_server \<Rightarrow> ipc_server" where
  "is_accept s = (if is_stopped s \<or> is_reading s then s else s\<lparr>is_client := True, is_reading := True\<rparr>)"

text \<open>One round of the read loop: whatever \<open>recv_json\<close> makes \<open>None\<close> of ends it. The callback cannot end it.\<close>

definition is_read :: "(string \<Rightarrow> json option) \<Rightarrow> string \<Rightarrow> ipc_server \<Rightarrow> ipc_server" where
  "is_read loads data s =
     (if \<not> is_reading s then s
      else case recv_json loads data of
             None \<Rightarrow> s\<lparr>is_reading := False\<rparr>
           | Some JNull \<Rightarrow> s\<lparr>is_reading := False\<rparr>
           | Some obj \<Rightarrow> s\<lparr>is_delivered := is_delivered s @ [obj], is_reading := \<not> is_stopped s\<rparr>)"

definition is_send :: "(pyfloat \<Rightarrow> string) \<Rightarrow> bool \<Rightarrow> json \<Rightarrow> ipc_server \<Rightarrow> bool \<times> string" where
  "is_send fr sock_ok obj s = (if \<not> is_client s then (False, []) else send_json fr sock_ok obj)"

definition is_close :: "ipc_server \<Rightarrow> ipc_server" where
  "is_close s = s\<lparr>is_stopped := True\<rparr>"

section \<open>The client of the worker\<close>

record ipc_client =
  ic_sock :: bool
  ic_receiving :: bool
  ic_stop_recv :: bool
  ic_delivered :: "json list"

definition new_ipc_client :: ipc_client where
  "new_ipc_client = \<lparr>ic_sock = False, ic_receiving = False, ic_stop_recv = False, ic_delivered = []\<rparr>"

text \<open>The attempts of \<open>connect\<close>, each with the clock reading of the loop test and its outcome. The list ends
  where the loop has not returned yet.\<close>

fun connect_loop :: "time_s \<Rightarrow> (time_s \<times> bool) list \<Rightarrow> bool option" where
  "connect_loop deadline [] = None"
| "connect_loop deadline ((now, ok) # attempts) =
     (if now < deadline then (if ok then Some True else connect_loop deadline attempts) else Some False)"

definition ic_connect :: "time_s \<Rightarrow> time_s \<Rightarrow> (time_s \<times> bool) list \<Rightarrow> ipc_client \<Rightarrow> (bool \<times> ipc_client) option" where
  "ic_connect now timeout_s attempts c =
     map_option (\<lambda>ok. (ok, if ok then c\<lparr>ic_sock := True\<rparr> else c)) (connect_loop (now + timeout_s) attempts)"

definition ic_start_receiving :: "ipc_client \<Rightarrow> ipc_client" where
  "ic_start_receiving c = (if \<not> ic_sock c then c else c\<lparr>ic_stop_recv := False, ic_receiving := True\<rparr>)"

definition ic_read :: "(string \<Rightarrow> json option) \<Rightarrow> string \<Rightarrow> ipc_client \<Rightarrow> ipc_client" where
  "ic_read loads data c =
     (if \<not> ic_receiving c then c
      else if ic_stop_recv c \<or> \<not> ic_sock c then c\<lparr>ic_receiving := False\<rparr>
      else case recv_json loads data of
             None \<Rightarrow> c\<lparr>ic_receiving := False\<rparr>
           | Some JNull \<Rightarrow> c\<lparr>ic_receiving := False\<rparr>
           | Some obj \<Rightarrow> c\<lparr>ic_delivered := ic_delivered c @ [obj]\<rparr>)"

definition ic_send :: "(pyfloat \<Rightarrow> string) \<Rightarrow> bool \<Rightarrow> json \<Rightarrow> ipc_client \<Rightarrow> bool \<times> string" where
  "ic_send fr sock_ok obj c = (if \<not> ic_sock c then (False, []) else send_json fr sock_ok obj)"

definition ic_close :: "ipc_client \<Rightarrow> ipc_client" where
  "ic_close c = c\<lparr>ic_stop_recv := True\<rparr>"

section \<open>The worker process\<close>

definition ipc_message :: "string \<Rightarrow> (string, json) dict \<Rightarrow> json" where
  "ipc_message typ payload = JObj [(''type'', JStr typ), (''payload'', JObj payload)]"

text \<open>One round of the heartbeat: a send that fails ends the process, an exception does not.\<close>

datatype heartbeat_outcome = Beat_continues | Process_exits

definition heartbeat_tick :: "py_exc + bool \<Rightarrow> heartbeat_outcome" where
  "heartbeat_tick sent = (case sent of Inr False \<Rightarrow> Process_exits | _ \<Rightarrow> Beat_continues)"

text \<open>The run of the worker up to the endless wait: the messages it sends, and the exception it ends with. The
  engine comes from outside: how its construction, the loading of the profile and \<open>start\<close> end are inputs.\<close>

record worker_env =
  wv_connected :: bool
  wv_profile :: bool
  wv_engine :: "py_exc + unit"
  wv_load :: "py_exc + unit"
  wv_start :: "py_exc + unit"

definition worker_body :: "worker_env \<Rightarrow> py_exc + unit" where
  "worker_body v =
     sbind (wv_engine v) (\<lambda>_.
     sbind (if wv_profile v then wv_load v else Inr ()) (\<lambda>_. wv_start v))"

definition run_worker :: "time_s \<Rightarrow> (py_exc \<Rightarrow> string) \<Rightarrow> worker_env \<Rightarrow> json list \<times> (py_exc + unit)" where
  "run_worker ts exc_text v =
     (let greeting = (if wv_connected v
            then [ipc_message ''STATUS'' [(''status'', JStr ''worker_starting''), (''ts'', JNum ts)]] else [])
      in case worker_body v of
           Inr _ \<Rightarrow> (greeting, Inr ())
         | Inl e \<Rightarrow>
             (greeting @ (if wv_connected v
                then [ipc_message ''ERROR'' [(''message'', JStr (exc_text e)), (''ts'', JNum ts)]] else []), Inl e))"

section \<open>Frames on the wire\<close>

lemma code_escape_char: "c' \<in> set (escape_char c) \<Longrightarrow> 32 \<le> (of_char c' :: nat)"
proof -
  have hex: "32 \<le> (of_char (hex_digit n) :: nat)" if "n < 16" for n
    using that by (simp add: hex_digit_def code_of_char_of)
  assume "c' \<in> set (escape_char c)"
  moreover have "of_char c div 16 < (16 :: nat)" using code_less [of c] by (simp add: less_mult_imp_div_less)
  ultimately show ?thesis
    using hex [of "of_char c div 16"] hex [of "of_char c mod 16"]
    by (auto simp: escape_char_def Let_def split: if_splits)
qed

lemma set_py_join: "set (py_join sep xs) \<subseteq> set sep \<union> \<Union>(set ` set xs)"
  by (induction sep xs rule: py_join.induct) auto

lemma dumps_printable: "nums_ok fr j \<Longrightarrow> c \<in> set (json_dumps fr j) \<Longrightarrow> 32 \<le> (of_char c :: nat)"
proof (induction j arbitrary: c)
  case (JNum q)
  then show ?case by (auto simp: num_ok_def num_char_def is_digit_def Let_def)
next
  case (JStr s)
  then show ?case by (auto simp: json_quote_def dest: code_escape_char)
next
  case (JArr xs)
  then show ?case using set_py_join [of "'',''" "map (json_dumps fr) xs"] by fastforce
next
  case (JObj d)
  have "32 \<le> (of_char c :: nat)" if "kv \<in> set d" "c \<in> set (member_text fr kv)" for kv
  proof (cases kv)
    case (Pair k v)
    with that JObj.prems(1) JObj.IH [of kv v c] show ?thesis
      by (auto simp: json_quote_def dest: code_escape_char)
  qed
  with JObj.prems(2) show ?case
    using set_py_join [of "'',''" "map (member_text fr) d"] by fastforce
qed (auto split: if_splits)

lemma printable_no_linebreak: "32 \<le> (of_char c :: nat) \<Longrightarrow> \<not> is_linebreak c"
  by (simp add: is_linebreak_def Let_def)

lemma dumps_no_linebreak: "nums_ok fr j \<Longrightarrow> \<forall>c\<in>set (json_dumps fr j). \<not> is_linebreak c"
  using dumps_printable printable_no_linebreak by blast

text \<open>A text between braces loses only its final line feed.\<close>

lemma strip_frame: "py_strip (CHR ''{'' # s @ [CHR ''}'', CHR 0x0A]) = CHR ''{'' # s @ [CHR ''}'']"
  by (simp add: py_strip_def is_space_def Let_def)

lemma dumps_obj: "\<exists>s. json_dumps fr (JObj d) = CHR ''{'' # s @ [CHR ''}'']"
  by simp

lemma frames_text:
  "ds \<noteq> [] \<Longrightarrow> \<exists>s. concat (map (\<lambda>d. frame fr (JObj d)) ds) = CHR ''{'' # s @ [CHR ''}'', CHR 0x0A]"
proof (induction ds)
  case (Cons d ds)
  obtain s where s: "json_dumps fr (JObj d) = CHR ''{'' # s @ [CHR ''}'']" using dumps_obj by blast
  show ?case
  proof (cases "ds = []")
    case True
    with s show ?thesis by (simp add: frame_def del: json_dumps.simps)
  next
    case False
    then obtain s' where "concat (map (\<lambda>d. frame fr (JObj d)) ds) = CHR ''{'' # s' @ [CHR ''}'', CHR 0x0A]"
      using Cons.IH by blast
    with s show ?thesis
      by (intro exI [of _ "s @ CHR ''}'' # CHR 0x0A # CHR ''{'' # s'"])
         (simp add: frame_def del: json_dumps.simps)
  qed
qed simp

lemma loads_trailing:
  assumes "nums_ok fr j" "json_wf j"
  shows "json_loads (json_dumps fr j @ CHR 0x0A # CHR ''{'' # t) = None"
proof -
  have "num_end (CHR 0x0A # CHR ''{'' # t)" by (simp add: num_end_def num_char_def is_digit_def)
  from reads_backD [OF dumps_read_back [OF assms] this,
      of "Suc (length (json_dumps fr j @ CHR 0x0A # CHR ''{'' # t))"]
  show ?thesis
    using skip_dumps [OF assms(1), of "CHR 0x0A # CHR ''{'' # t"]
    by (simp add: json_loads_def skip_ws_head json_space_def del: read_value.simps)
qed

section \<open>The channel after a read that decodes to nothing\<close>

lemma read_idle: "\<not> is_reading s \<Longrightarrow> fold (is_read loads) reads s = s"
  by (induction reads) (simp_all add: is_read_def)

lemma client_idle: "\<not> ic_receiving c \<Longrightarrow> fold (ic_read loads) reads c = c"
  by (induction reads) (simp_all add: ic_read_def)

lemma read_keeps_client: "is_client (is_read loads data s) = is_client s"
  by (auto simp: is_read_def split: option.splits json.splits)

lemma read_delivers:
  assumes "is_reading s" "recv_json loads data = Some (JObj d)"
  shows "is_delivered (is_read loads data s) = is_delivered s @ [JObj d]"
  using assms by (simp add: is_read_def)

lemma frame_read_back:
  assumes "nums_ok fr (JObj d)" "json_wf (JObj d)"
  shows "recv_json json_loads (frame fr (JObj d)) = Some (JObj d)"
proof -
  obtain s where s: "json_dumps fr (JObj d) = CHR ''{'' # s @ [CHR ''}'']" using dumps_obj by blast
  have "py_strip (frame fr (JObj d)) = json_dumps fr (JObj d)"
    unfolding frame_def s using strip_frame [of s] by simp
  with loads_dumps [OF assms] show ?thesis by (simp add: recv_json_def frame_def del: json_dumps.simps)
qed

section \<open>Properties\<close>



text \<open>C22: a read that decodes to nothing - a blank line, a message cut by the buffer, a stray byte - is taken for the
  end of the stream: the server's read loop ends and, since its only client goes on as connected,
  nothing the worker sends afterwards is delivered, although every send of either side still succeeds.
  The client's loop ends the same way.\<close>

theorem undecodable_read_ends_channel:
  assumes "is_reading s" "is_client s" "ic_sock c" "ic_receiving c" "\<not> ic_stop_recv c"
    and "recv_json loads data = None"
  shows "is_delivered (fold (is_read loads) reads (is_read loads data s)) = is_delivered s
     \<and> fst (is_send fr True obj (fold (is_read loads) reads (is_read loads data s)))
     \<and> ic_delivered (fold (ic_read loads) reads (ic_read loads data c)) = ic_delivered c
     \<and> fst (ic_send fr True obj (fold (ic_read loads) reads (ic_read loads data c)))"
proof -
  have "is_read loads data s = s\<lparr>is_reading := False\<rparr>" using assms(1,6) by (simp add: is_read_def)
  moreover have "ic_read loads data c = c\<lparr>ic_receiving := False\<rparr>" using assms(3-6) by (simp add: ic_read_def)
  ultimately show ?thesis
    using assms(2,3) by (simp add: read_idle client_idle is_send_def ic_send_def send_json_def)
qed

theorem undecodable_read_ends_channel_witness:
  "is_delivered (fold (is_read json_loads) [frame (\<lambda>_. []) (JObj [(''type'', JStr ''WAKE'')])]
     (is_read json_loads [CHR 0x0A] (is_accept new_ipc_server))) = []"
proof -
  let ?c = "new_ipc_client\<lparr>ic_sock := True, ic_receiving := True\<rparr>"
  have blank: "recv_json json_loads [CHR 0x0A] = None"
    by (simp add: recv_json_def first_json_def py_splitlines_def py_strip_def is_space_def json_loads_def skip_ws_def)
  from undecodable_read_ends_channel [OF _ _ _ _ _ blank, of "is_accept new_ipc_server" ?c
      "[frame (\<lambda>_. []) (JObj [(''type'', JStr ''WAKE'')])]"]
  show ?thesis by (simp add: is_accept_def new_ipc_server_def new_ipc_client_def)
qed

text \<open>\<open>connect\<close> returns as soon as an attempt succeeds or the clock reaches the deadline, and its answer says
  whether the client has a socket.\<close>

lemma connect_returns:
  "connect_loop deadline attempts \<noteq> None \<longleftrightarrow> (\<exists>a\<in>set attempts. snd a \<or> deadline \<le> fst a)"
  by (induction deadline attempts rule: connect_loop.induct) auto

lemma connect_sets_sock:
  "ic_connect now timeout_s attempts new_ipc_client = Some (ok, c) \<Longrightarrow> ic_sock c = ok"
  by (auto simp: ic_connect_def new_ipc_client_def split: if_splits)

text \<open>The worker's run ends in an error exactly when the engine's does, and then a connected supervisor has been
  told.\<close>

lemma worker_reports_error:
  assumes "snd (run_worker ts exc_text v) = Inl e"
  shows "worker_body v = Inl e
     \<and> (wv_connected v \<longrightarrow> last (fst (run_worker ts exc_text v)) =
          ipc_message ''ERROR'' [(''message'', JStr (exc_text e)), (''ts'', JNum ts)])"
  using assms by (auto simp: run_worker_def Let_def split: sum.splits)

end
