(* ===== verification/Metrics.thy ===== *)
theory Metrics
  imports Ava_Contracts
begin

text \<open>
  \<^verbatim>\<open>src/runtime/telemetry/metrics.py\<close> and \<^verbatim>\<open>src/runtime/timing/latency.py\<close>: the runtime's counters, the
  stage marks of one utterance and the rolling latency windows. Both windows are interpreted as
  bounded logs. What psutil reports is an argument; \<open>None\<close> stands for its absence.
\<close>

section \<open>MetricsCollector\<close>

record metrics_collector =
  mc_wake_count :: nat
  mc_false_trigger_count :: nat
  mc_latency_ms_history :: "pyfloat list"
  mc_queue_depth :: int
  mc_reset_count :: nat
  mc_restart_count :: nat
  mc_audio_drop_count :: nat

definition new_metrics :: metrics_collector where
  "new_metrics = \<lparr>mc_wake_count = 0, mc_false_trigger_count = 0, mc_latency_ms_history = [], mc_queue_depth = 0,
     mc_reset_count = 0, mc_restart_count = 0, mc_audio_drop_count = 0\<rparr>"

definition mc_record_wake :: "pyfloat \<Rightarrow> metrics_collector \<Rightarrow> metrics_collector" where
  "mc_record_wake ms c =
     (let h = mc_latency_ms_history c @ [ms]
      in c\<lparr>mc_wake_count := mc_wake_count c + 1, mc_latency_ms_history := (if 1000 < length h then tl h else h)\<rparr>)"

definition mc_record_false_trigger :: "metrics_collector \<Rightarrow> metrics_collector" where
  "mc_record_false_trigger c = c\<lparr>mc_false_trigger_count := mc_false_trigger_count c + 1\<rparr>"

definition mc_record_reset :: "metrics_collector \<Rightarrow> metrics_collector" where
  "mc_record_reset c = c\<lparr>mc_reset_count := mc_reset_count c + 1\<rparr>"

definition mc_record_restart :: "metrics_collector \<Rightarrow> metrics_collector" where
  "mc_record_restart c = c\<lparr>mc_restart_count := mc_restart_count c + 1\<rparr>"

definition mc_record_audio_drop :: "metrics_collector \<Rightarrow> metrics_collector" where
  "mc_record_audio_drop c = c\<lparr>mc_audio_drop_count := mc_audio_drop_count c + 1\<rparr>"

definition mc_set_queue_depth :: "int \<Rightarrow> metrics_collector \<Rightarrow> metrics_collector" where
  "mc_set_queue_depth d c = c\<lparr>mc_queue_depth := d\<rparr>"

definition mc_avg_latency_ms :: "metrics_collector \<Rightarrow> pyfloat" where
  "mc_avg_latency_ms c = mean (mc_latency_ms_history c)"

text \<open>The system metrics: memory in MB and CPU percent, or nothing without psutil.\<close>

type_synonym sys_metrics = "(pyfloat \<times> pyfloat) option"
type_synonym metrics = "(string, pyfloat option) dict"

definition mc_get_system_metrics :: "bool \<Rightarrow> nat \<Rightarrow> pyfloat \<Rightarrow> sys_metrics" where
  "mc_get_system_metrics has_psutil rss cpu_percent =
     (if \<not> has_psutil then None else Some (of_nat rss / 1024 / 1024, cpu_percent))"

definition mc_get_all_metrics :: "sys_metrics \<Rightarrow> nat \<Rightarrow> metrics_collector \<Rightarrow> metrics" where
  "mc_get_all_metrics sys telemetry_drops c =
     [(''wake_count'', Some (of_nat (mc_wake_count c))),
      (''false_trigger_count'', Some (of_nat (mc_false_trigger_count c))),
      (''avg_latency_ms'', Some (mc_avg_latency_ms c)),
      (''queue_depth'', Some (of_int (mc_queue_depth c))),
      (''reset_count'', Some (of_nat (mc_reset_count c))),
      (''restart_count'', Some (of_nat (mc_restart_count c))),
      (''audio_drop_count'', Some (of_nat (mc_audio_drop_count c))),
      (''telemetry_drop_count'', Some (of_nat telemetry_drops)),
      (''memory_usage_mb'', map_option fst sys),
      (''cpu_usage_percent'', map_option snd sys)]"

definition mc_wf :: "metrics_collector \<Rightarrow> bool" where
  "mc_wf c \<longleftrightarrow> length (mc_latency_ms_history c) \<le> 1000"

interpretation wake_latency: bounded_log mc_record_wake mc_latency_ms_history 1000 mc_wf
proof unfold_locales
  fix ms c
  assume wf: "mc_wf c"
  then show "mc_latency_ms_history (mc_record_wake ms c) = last_n 1000 (mc_latency_ms_history c @ [ms])"
    using last_n_pop [of "mc_latency_ms_history c" 1000 ms] by (simp add: mc_wf_def mc_record_wake_def Let_def)
  from wf show "mc_wf (mc_record_wake ms c)" by (simp add: mc_wf_def mc_record_wake_def Let_def)
qed (simp_all add: mc_wf_def)

section \<open>LatencyTracker\<close>

definition PIPELINE_STAGES :: "string list" where
  "PIPELINE_STAGES = [''capture_to_queue'', ''vad'', ''asr'', ''matcher'', ''wake_total'']"

definition STAGE_INTERVALS :: "(string \<times> string \<times> string) list" where
  "STAGE_INTERVALS =
     [(''capture_to_queue'', ''vad'', ''capture_to_vad_ms''),
      (''vad'', ''asr'', ''vad_to_asr_ms''),
      (''asr'', ''matcher'', ''asr_to_matcher_ms''),
      (''matcher'', ''wake_total'', ''matcher_to_wake_ms''),
      (''capture_to_queue'', ''wake_total'', ''end_to_end_ms'')]"

record latency_tracker =
  lt_correlation_id :: string
  lt_marks :: "(string, int) dict"

definition new_latency_tracker :: "string \<Rightarrow> latency_tracker" where
  "new_latency_tracker corr = \<lparr>lt_correlation_id = corr, lt_marks = []\<rparr>"

text \<open>The result says whether the stage is unknown, which is warned about.\<close>

definition lt_mark :: "int \<Rightarrow> string \<Rightarrow> latency_tracker \<Rightarrow> bool \<times> latency_tracker" where
  "lt_mark now_ns stage t = (stage \<notin> set PIPELINE_STAGES, t\<lparr>lt_marks := AList.update stage now_ns (lt_marks t)\<rparr>)"

definition lt_measure :: "string \<Rightarrow> string \<Rightarrow> latency_tracker \<Rightarrow> pyfloat option" where
  "lt_measure a b t =
     (case (map_of (lt_marks t) a, map_of (lt_marks t) b) of
        (Some start, Some e) \<Rightarrow> Some (of_int (e - start) / 1000000)
      | _ \<Rightarrow> None)"

definition lt_to_dict :: "latency_tracker \<Rightarrow> (string, pyfloat option) dict" where
  "lt_to_dict t = map (\<lambda>(a, b, label). (label, lt_measure a b t)) STAGE_INTERVALS"

definition lt_end_to_end_ms :: "latency_tracker \<Rightarrow> pyfloat option" where
  "lt_end_to_end_ms t = lt_measure ''capture_to_queue'' ''wake_total'' t"

section \<open>RollingLatency\<close>

record rolling_latency =
  rl_label :: string
  rl_window :: nat
  rl_samples :: "pyfloat list"

definition new_rolling_latency :: "string \<Rightarrow> nat \<Rightarrow> rolling_latency" where
  "new_rolling_latency l w = \<lparr>rl_label = l, rl_window = w, rl_samples = []\<rparr>"

definition rl_record :: "pyfloat \<Rightarrow> rolling_latency \<Rightarrow> rolling_latency" where
  "rl_record ms r =
     (let xs = rl_samples r @ [ms] in r\<lparr>rl_samples := (if rl_window r < length xs then tl xs else xs)\<rparr>)"

definition rl_avg_ms :: "rolling_latency \<Rightarrow> pyfloat" where
  "rl_avg_ms r = mean (rl_samples r)"

definition p99_idx :: "nat \<Rightarrow> nat" where
  "p99_idx n = nat (max 0 (py_int (of_nat n * (99/100)) - 1))"

definition rl_p99_ms :: "rolling_latency \<Rightarrow> pyfloat" where
  "rl_p99_ms r =
     (if rl_samples r = [] then 0
      else let s = sort (rl_samples r) in s ! p99_idx (length s))"

definition rl_max_ms :: "rolling_latency \<Rightarrow> pyfloat" where
  "rl_max_ms r = (case rl_samples r of [] \<Rightarrow> 0 | x # xs \<Rightarrow> py_max x xs)"

text \<open>\<open>to_dict\<close>, less the label.\<close>

definition rl_to_dict :: "rolling_latency \<Rightarrow> pyfloat \<times> pyfloat \<times> pyfloat \<times> nat" where
  "rl_to_dict r = (py_round 2 (rl_avg_ms r), py_round 2 (rl_p99_ms r), py_round 2 (rl_max_ms r), length (rl_samples r))"

definition rl_wf :: "nat \<Rightarrow> rolling_latency \<Rightarrow> bool" where
  "rl_wf w r \<longleftrightarrow> rl_window r = Suc w \<and> length (rl_samples r) \<le> Suc w"

interpretation rolling: bounded_log rl_record rl_samples "Suc w" "rl_wf w" for w
proof unfold_locales
  fix ms r
  assume wf: "rl_wf w r"
  then show "rl_samples (rl_record ms r) = last_n (Suc w) (rl_samples r @ [ms])"
    using last_n_pop [of "rl_samples r" "Suc w" ms] by (simp add: rl_wf_def rl_record_def Let_def)
  from wf show "rl_wf w (rl_record ms r)" by (simp add: rl_wf_def rl_record_def Let_def)
qed (simp_all add: rl_wf_def)

section \<open>Lemmas\<close>

lemma rl_max_upper: "x \<in> set (rl_samples r) \<Longrightarrow> x \<le> rl_max_ms r"
  by (auto simp: rl_max_ms_def intro: py_max_upper split: list.splits)

lemma p99_index:
  assumes "0 < n"
  shows "p99_idx n < n"
proof -
  have "\<lfloor>of_nat n * (99/100) :: pyfloat\<rfloor> \<le> int n" by (simp add: floor_le_iff)
  with assms show ?thesis by (simp add: p99_idx_def py_int_def)
qed

lemma p99_sample: "rl_samples r \<noteq> [] \<Longrightarrow> rl_p99_ms r \<in> set (rl_samples r)"
  using p99_index [of "length (rl_samples r)"] nth_mem [of "p99_idx (length (rl_samples r))" "sort (rl_samples r)"]
  by (simp add: rl_p99_ms_def)

lemma sorted_take_le: "sorted xs \<Longrightarrow> k < length xs \<Longrightarrow> x \<in> set (take (Suc k) xs) \<Longrightarrow> x \<le> xs ! k"
  by (auto simp: in_set_conv_nth less_Suc_eq_le sorted_nth_mono)

lemma rank_arith: "(a :: nat) \<le> n - Suc k \<Longrightarrow> k < n \<Longrightarrow> 99 * int n < 100 * (int k + 2) \<Longrightarrow> a * 100 \<le> n + 199"
  unfolding distrib_left by linarith

text \<open>At most one sample in a hundred, and one more, lies above the reported value.\<close>

lemma p99_rank:
  assumes "rl_samples r \<noteq> []"
  shows "length (filter (\<lambda>x. rl_p99_ms r < x) (rl_samples r)) * 100 \<le> length (rl_samples r) + 199"
proof -
  let ?s = "sort (rl_samples r)" and ?n = "length (rl_samples r)" and ?k = "p99_idx (length (rl_samples r))"
  have k: "?k < ?n" using p99_index assms by simp
  have p: "rl_p99_ms r = ?s ! ?k" using assms by (simp add: rl_p99_ms_def)
  have below: "filter (\<lambda>x. ?s ! ?k < x) (take (Suc ?k) ?s) = []"
    using sorted_take_le [of ?s ?k] k by (fastforce simp: filter_empty_conv not_less)
  have "length (filter (\<lambda>x. rl_p99_ms r < x) (rl_samples r)) = length (filter (\<lambda>x. ?s ! ?k < x) ?s)"
    by (simp add: p filter_sort)
  also have "\<dots> = length (filter (\<lambda>x. ?s ! ?k < x) (take (Suc ?k) ?s @ drop (Suc ?k) ?s))" by simp
  also have "\<dots> \<le> ?n - Suc ?k"
    unfolding filter_append below using length_filter_le [of "\<lambda>x. ?s ! ?k < x" "drop (Suc ?k) ?s"] by simp
  finally have len: "length (filter (\<lambda>x. rl_p99_ms r < x) (rl_samples r)) \<le> ?n - Suc ?k" .
  define f where "f = \<lfloor>of_nat ?n * (99/100) :: pyfloat\<rfloor>"
  have "of_nat ?n * (99/100) < (of_int (f + 1) :: pyfloat)" unfolding f_def by linarith
  then have "(of_int (99 * int ?n) :: pyfloat) < of_int (100 * (f + 1))" by simp
  then have "99 * int ?n < 100 * (f + 1)" unfolding of_int_less_iff .
  also have "f \<le> int ?k + 1" by (simp add: f_def p99_idx_def py_int_def)
  then have "100 * (f + 1) \<le> 100 * (int ?k + 2)" by simp
  finally have "99 * int ?n < 100 * (int ?k + 2)" .
  from rank_arith [OF len k this] show ?thesis .
qed

section \<open>Properties\<close>

text \<open>A rolling window that has been fed any values holds the last ones; the average and the 99th percentile
  it reports never exceed its maximum, the percentile is one of its samples, and at most one sample
  in a hundred, and one more, is larger.\<close>

theorem rolling_latency_sound:
  assumes "xs \<noteq> []"
  shows "let r = fold rl_record xs (new_rolling_latency l (Suc w)) in
           rl_samples r = last_n (Suc w) xs
         \<and> rl_avg_ms r \<le> rl_max_ms r \<and> rl_p99_ms r \<le> rl_max_ms r
         \<and> rl_p99_ms r \<in> set (rl_samples r)
         \<and> length (filter (\<lambda>x. rl_p99_ms r < x) (rl_samples r)) * 100 \<le> length (rl_samples r) + 199"
proof -
  let ?r = "fold rl_record xs (new_rolling_latency l (Suc w))"
  have wf: "rl_wf w (new_rolling_latency l (Suc w))" by (simp add: rl_wf_def new_rolling_latency_def)
  have samples: "rl_samples ?r = last_n (Suc w) xs"
    using rolling.fold_contents [OF wf, of xs] by (simp add: new_rolling_latency_def)
  have ne: "rl_samples ?r \<noteq> []" using assms length_last_n [of "Suc w" xs]
    by (auto simp: samples simp del: length_last_n)
  have "rl_avg_ms ?r \<le> rl_max_ms ?r"
    unfolding rl_avg_ms_def using mean_bounds(2) [OF ne _ rl_max_upper]
    by (metis Min_le finite_set list.set_finite)
  moreover have "rl_p99_ms ?r \<le> rl_max_ms ?r" using p99_sample [OF ne] rl_max_upper by blast
  ultimately show ?thesis using samples p99_sample [OF ne] p99_rank [OF ne] unfolding Let_def by blast
qed

theorem rolling_latency_sound_witness:
  "rl_samples (fold rl_record [5, 1, 9, 2] (new_rolling_latency ''vad'' 3)) = [1, 9, 2]"
  using rolling_latency_sound [of "[5, 1, 9, 2]" "''vad''" 2] by (simp add: last_n_def Let_def eval_nat_numeral)

text \<open>Once every pipeline stage of an utterance has been marked, the four stage latencies are all known and
  add up to the end-to-end latency, in whatever order and however often the stages were marked.\<close>

theorem stage_latencies_add_up:
  assumes "set PIPELINE_STAGES \<subseteq> fst ` set (lt_marks t)"
  shows "\<exists>a b c d. lt_to_dict t =
     [(''capture_to_vad_ms'', Some a), (''vad_to_asr_ms'', Some b), (''asr_to_matcher_ms'', Some c),
      (''matcher_to_wake_ms'', Some d), (''end_to_end_ms'', Some (a + b + c + d))]"
proof -
  have "\<exists>v. map_of (lt_marks t) s = Some v" if "s \<in> set PIPELINE_STAGES" for s
    using that assms map_of_eq_None_iff [of "lt_marks t" s] by auto
  then obtain v1 v2 v3 v4 v5 where "map_of (lt_marks t) ''capture_to_queue'' = Some v1"
    "map_of (lt_marks t) ''vad'' = Some v2" "map_of (lt_marks t) ''asr'' = Some v3"
    "map_of (lt_marks t) ''matcher'' = Some v4" "map_of (lt_marks t) ''wake_total'' = Some v5"
    unfolding PIPELINE_STAGES_def by (meson list.set_intros)
  then show ?thesis
    by (intro exI [of _ "of_int (v2 - v1) / 1000000"] exI [of _ "of_int (v3 - v2) / 1000000"]
        exI [of _ "of_int (v4 - v3) / 1000000"] exI [of _ "of_int (v5 - v4) / 1000000"])
      (simp add: lt_to_dict_def STAGE_INTERVALS_def lt_measure_def field_simps)
qed

theorem stage_latencies_add_up_witness:
  "\<exists>a b c d. lt_to_dict (fold (\<lambda>(n, s) t. snd (lt_mark n s t))
      [(1, ''capture_to_queue''), (2, ''vad''), (3, ''asr''), (5, ''matcher''), (8, ''wake_total'')]
      (new_latency_tracker ''u1'')) =
     [(''capture_to_vad_ms'', Some a), (''vad_to_asr_ms'', Some b), (''asr_to_matcher_ms'', Some c),
      (''matcher_to_wake_ms'', Some d), (''end_to_end_ms'', Some (a + b + c + d))]"
  by (rule stage_latencies_add_up) (simp add: PIPELINE_STAGES_def lt_mark_def new_latency_tracker_def)

end
