(* ===== verification/Lifecycle.thy ===== *)
theory Lifecycle
  imports Ava_Contracts
begin

text \<open>
  \<^verbatim>\<open>src/runtime/kernel/lifecycle.py\<close>: the subsystem lifecycle machine, whose \<open>transition\<close> checks
  the table of legal moves and raises otherwise, its composite moves \<open>shutdown\<close> and \<open>recover\<close>,
  and the runtime state machine of the engine. The lemmas relate every operation to the step
  relation of the table, and show that the composite moves never raise.
\<close>

section \<open>States\<close>

datatype runtime_state =
    RT_IDLE | RT_LISTENING | RT_SPEECH_DETECTED | RT_CANDIDATE_TRACKING
  | RT_WAKE_CONFIRMED | RT_COOLDOWN | RT_RECOVERING | RT_ERROR

datatype subsystem_state =
    SS_OFFLINE | SS_INITIALIZING | SS_READY | SS_ACTIVE | SS_FAULTED | SS_RECOVERING

fun subsystem_value :: "subsystem_state \<Rightarrow> string" where
  "subsystem_value SS_OFFLINE = ''OFFLINE''"
| "subsystem_value SS_INITIALIZING = ''INITIALIZING''"
| "subsystem_value SS_READY = ''READY''"
| "subsystem_value SS_ACTIVE = ''ACTIVE''"
| "subsystem_value SS_FAULTED = ''FAULTED''"
| "subsystem_value SS_RECOVERING = ''RECOVERING''"

fun valid_subsystem_transitions :: "subsystem_state \<Rightarrow> subsystem_state list" where
  "valid_subsystem_transitions SS_OFFLINE = [SS_INITIALIZING]"
| "valid_subsystem_transitions SS_INITIALIZING = [SS_READY, SS_FAULTED]"
| "valid_subsystem_transitions SS_READY = [SS_ACTIVE, SS_OFFLINE]"
| "valid_subsystem_transitions SS_ACTIVE = [SS_READY, SS_FAULTED]"
| "valid_subsystem_transitions SS_FAULTED = [SS_RECOVERING, SS_OFFLINE]"
| "valid_subsystem_transitions SS_RECOVERING = [SS_ACTIVE, SS_FAULTED]"

section \<open>The subsystem machine\<close>

record subsystem_lifecycle =
  sl_name :: string
  sl_state :: subsystem_state

definition new_subsystem :: "string \<Rightarrow> subsystem_lifecycle" where
  "new_subsystem n = \<lparr>sl_name = n, sl_state = SS_OFFLINE\<rparr>"

definition sub_transition :: "subsystem_state \<Rightarrow> subsystem_lifecycle \<Rightarrow> py_exc + subsystem_lifecycle" where
  "sub_transition target l =
     (let prev = sl_state l in
      if target \<noteq> prev \<and> target \<notin> set (valid_subsystem_transitions prev)
      then Inl (ValueError (''Illegal subsystem transition for '' @ sl_name l @ '': ''
                  @ subsystem_value prev @ '' -> '' @ subsystem_value target))
      else Inr (l\<lparr>sl_state := target\<rparr>))"

definition sub_shutdown :: "subsystem_lifecycle \<Rightarrow> py_exc + subsystem_lifecycle" where
  "sub_shutdown l =
     (if sl_state l = SS_OFFLINE then Inr l
      else sbind
        (if sl_state l = SS_INITIALIZING then sub_transition SS_READY l
         else if sl_state l = SS_ACTIVE then sub_transition SS_READY l
         else if sl_state l = SS_RECOVERING then sub_transition SS_FAULTED l
         else Inr l)
        (\<lambda>l. if sl_state l \<in> {SS_READY, SS_FAULTED} then sub_transition SS_OFFLINE l else Inr l))"

definition sub_recover :: "subsystem_lifecycle \<Rightarrow> py_exc + subsystem_lifecycle" where
  "sub_recover l =
     sbind (if sl_state l = SS_ACTIVE then sub_transition SS_FAULTED l else Inr l)
       (\<lambda>l. if sl_state l = SS_FAULTED then sub_transition SS_RECOVERING l else Inr l)"

text \<open>The table as a step relation.\<close>

inductive sub_step :: "subsystem_state \<Rightarrow> subsystem_state \<Rightarrow> bool" where
  table: "t \<in> set (valid_subsystem_transitions s) \<Longrightarrow> sub_step s t"

inductive_simps sub_step_iff: "sub_step s t"
inductive_cases sub_step_from_offline: "sub_step SS_OFFLINE t"

lemmas sub_ops_defs = sub_transition_def sub_shutdown_def sub_recover_def

lemma sub_transition_ok:
  "target = sl_state l \<or> sub_step (sl_state l) target \<Longrightarrow>
     sub_transition target l = Inr (l\<lparr>sl_state := target\<rparr>)"
  by (auto simp: sub_transition_def sub_step_iff)

lemma sub_transition_Inr:
  "sub_transition target l = Inr l' \<Longrightarrow>
     l' = l\<lparr>sl_state := target\<rparr> \<and> (target = sl_state l \<or> sub_step (sl_state l) target)"
  by (auto simp: sub_transition_def sub_step_iff Let_def split: if_splits)

lemma sub_transition_path:
  "sub_transition target l = Inr l' \<Longrightarrow> sub_step\<^sup>*\<^sup>* (sl_state l) (sl_state l')"
  by (auto dest: sub_transition_Inr)

lemma sub_recover_eq:
  "sub_recover l =
     Inr (if sl_state l = SS_ACTIVE \<or> sl_state l = SS_FAULTED then l\<lparr>sl_state := SS_RECOVERING\<rparr> else l)"
  by (cases "sl_state l") (simp_all add: sub_recover_def sub_transition_def)

lemma sub_shutdown_eq: "sub_shutdown l = Inr (l\<lparr>sl_state := SS_OFFLINE\<rparr>)"
  by (cases l; cases "sl_state l") (auto simp: sub_shutdown_def sub_transition_def)

lemma sub_path_offline: "sub_step\<^sup>*\<^sup>* s SS_OFFLINE"
proof (cases s)
  case SS_INITIALIZING
  have "sub_step SS_INITIALIZING SS_READY" "sub_step SS_READY SS_OFFLINE" by (simp_all add: sub_step_iff)
  with SS_INITIALIZING show ?thesis by (meson converse_rtranclp_into_rtranclp rtranclp.rtrancl_refl)
next
  case SS_ACTIVE
  have "sub_step SS_ACTIVE SS_READY" "sub_step SS_READY SS_OFFLINE" by (simp_all add: sub_step_iff)
  with SS_ACTIVE show ?thesis by (meson converse_rtranclp_into_rtranclp rtranclp.rtrancl_refl)
next
  case SS_RECOVERING
  have "sub_step SS_RECOVERING SS_FAULTED" "sub_step SS_FAULTED SS_OFFLINE" by (simp_all add: sub_step_iff)
  with SS_RECOVERING show ?thesis by (meson converse_rtranclp_into_rtranclp rtranclp.rtrancl_refl)
qed (auto simp: sub_step_iff)

lemma sub_path_active: "sub_step\<^sup>*\<^sup>* s SS_ACTIVE"
proof -
  have offline: "sub_step\<^sup>*\<^sup>* SS_OFFLINE SS_ACTIVE"
  proof -
    have "sub_step SS_OFFLINE SS_INITIALIZING" "sub_step SS_INITIALIZING SS_READY"
      "sub_step SS_READY SS_ACTIVE" by (simp_all add: sub_step_iff)
    then show ?thesis by (meson converse_rtranclp_into_rtranclp rtranclp.rtrancl_refl)
  qed
  show ?thesis using rtranclp_trans [OF sub_path_offline offline] .
qed

section \<open>The runtime machine\<close>

definition transition_map :: "(string, runtime_state) dict" where
  "transition_map =
     [(''start'', RT_LISTENING), (''speech_start'', RT_SPEECH_DETECTED),
      (''candidate_started'', RT_CANDIDATE_TRACKING), (''candidate_updated'', RT_CANDIDATE_TRACKING),
      (''candidate_confirmed'', RT_WAKE_CONFIRMED), (''candidate_dropped'', RT_LISTENING),
      (''cooldown'', RT_COOLDOWN), (''recovery'', RT_RECOVERING), (''ready'', RT_LISTENING),
      (''error'', RT_ERROR), (''reset'', RT_LISTENING)]"

definition rt_transition :: "string \<Rightarrow> runtime_state \<Rightarrow> runtime_state" where
  "rt_transition event s = (case map_of transition_map event of None \<Rightarrow> s | Some t \<Rightarrow> t)"

lemma rt_transition_events [simp]:
  "rt_transition ''start'' s = RT_LISTENING"
  "rt_transition ''candidate_started'' s = RT_CANDIDATE_TRACKING"
  "rt_transition ''candidate_updated'' s = RT_CANDIDATE_TRACKING"
  "rt_transition ''candidate_confirmed'' s = RT_WAKE_CONFIRMED"
  "rt_transition ''candidate_dropped'' s = RT_LISTENING"
  "rt_transition ''cooldown'' s = RT_COOLDOWN"
  by (simp_all add: rt_transition_def transition_map_def)

lemma rt_transition_unknown:
  "e \<notin> fst ` set transition_map \<Longrightarrow> rt_transition e s = s"
  by (simp add: rt_transition_def map_of_eq_None_iff [THEN iffD2])

section \<open>Properties\<close>

text \<open>\<open>shutdown\<close> never raises, whatever state the subsystem is in: it ends OFFLINE with the name
  unchanged, and OFFLINE is reachable from that state through moves of the table only.\<close>

theorem shutdown_total:
  "\<exists>l'. sub_shutdown l = Inr l' \<and> sl_state l' = SS_OFFLINE \<and> sl_name l' = sl_name l
      \<and> sub_step\<^sup>*\<^sup>* (sl_state l) (sl_state l')"
  by (simp add: sub_shutdown_eq sub_path_offline)

text \<open>\<open>recover\<close> never raises and reaches RECOVERING exactly from ACTIVE and FAULTED (the docstring
  says "from any state"); from RECOVERING the move to ACTIVE that ends a recovery is legal, so a
  recovery started there always returns the subsystem to ACTIVE.\<close>

theorem recover_exact:
  "\<exists>l'. sub_recover l = Inr l'
      \<and> sl_state l' = (if sl_state l \<in> {SS_ACTIVE, SS_FAULTED} then SS_RECOVERING else sl_state l)
      \<and> (sl_state l' = SS_RECOVERING \<longrightarrow>
           sub_transition SS_ACTIVE l' = Inr (l'\<lparr>sl_state := SS_ACTIVE\<rparr>))"
  by (auto simp: sub_recover_eq sub_transition_def)

theorem recover_exact_witness:
  "\<exists>l'. sub_recover \<lparr>sl_name = ''ASR'', sl_state = SS_ACTIVE\<rparr> = Inr l'
      \<and> sl_state l' = SS_RECOVERING
      \<and> sub_transition SS_ACTIVE l' = Inr \<lparr>sl_name = ''ASR'', sl_state = SS_ACTIVE\<rparr>"
  using recover_exact [of "\<lparr>sl_name = ''ASR'', sl_state = SS_ACTIVE\<rparr>"]
  by (auto simp: sub_recover_def sub_transition_def)

text \<open>The table never traps a subsystem: from every state both ACTIVE and OFFLINE can be reached,
  while no single move leads from OFFLINE to anything but INITIALIZING.\<close>

theorem lifecycle_never_stuck:
  "sub_step\<^sup>*\<^sup>* s SS_ACTIVE \<and> sub_step\<^sup>*\<^sup>* s SS_OFFLINE \<and> (sub_step SS_OFFLINE t \<longleftrightarrow> t = SS_INITIALIZING)"
  by (auto simp: sub_path_active sub_path_offline sub_step_iff)

end
