(* ===== verification/Health.thy ===== *)
theory Health
  imports Metrics Lifecycle
begin

text \<open>
  \<^verbatim>\<open>src/runtime/health/\<close> (signals, scorer, reporter) and \<^verbatim>\<open>src/runtime/telemetry/health.py\<close>: the
  pressures computed from the metrics, the weighted score, the status bands and the older report
  with its fixed penalties.
\<close>

section \<open>Signals\<close>

text \<open>Name, metric key and normaliser; \<open>v or 0.0\<close> of a float is the float.\<close>

definition HEALTH_SIGNAL_MAP :: "(string \<times> string \<times> (pyfloat \<Rightarrow> pyfloat)) list" where
  "HEALTH_SIGNAL_MAP =
     [(''queue_overruns'', ''queue_depth'', \<lambda>v. clamp01 (v / 100)),
      (''vad_lag'', ''reset_count'', \<lambda>v. clamp01 (v / 20)),
      (''memory_pressure'', ''memory_usage_mb'', \<lambda>v. clamp01 (v / 2048)),
      (''restart_frequency'', ''restart_count'', \<lambda>v. clamp01 (v / 5)),
      (''transport_latency'', ''transport_latency_ms'', \<lambda>v. clamp01 (v / 500)),
      (''dropped_wake_candidates'', ''telemetry_drop_count'', \<lambda>v. clamp01 (v / 500))]"

text \<open>\<open>metrics.get(key, 0) or 0\<close>.\<close>

definition metric :: "metrics \<Rightarrow> string \<Rightarrow> pyfloat" where
  "metric ms key = (case map_of ms key of Some (Some v) \<Rightarrow> v | _ \<Rightarrow> 0)"

definition compute_signals :: "metrics \<Rightarrow> (string, pyfloat) dict" where
  "compute_signals ms = map (\<lambda>(name, key, norm). (name, norm (metric ms key))) HEALTH_SIGNAL_MAP"

text \<open>The object that carries them, and the dictionary it gives: the one above.\<close>

record health_signals =
  hs_queue_overruns :: pyfloat
  hs_vad_lag :: pyfloat
  hs_memory_pressure :: pyfloat
  hs_restart_frequency :: pyfloat
  hs_transport_latency :: pyfloat
  hs_dropped_wake_candidates :: pyfloat

definition apply_signal :: "metrics \<Rightarrow> string \<Rightarrow> pyfloat" where
  "apply_signal ms sig_name =
     (case map_of HEALTH_SIGNAL_MAP sig_name of
        Some (key, normalizer) \<Rightarrow> normalizer (metric ms key)
      | None \<Rightarrow> 0)"

definition health_signals_of :: "metrics \<Rightarrow> health_signals" where
  "health_signals_of ms =
     \<lparr>hs_queue_overruns = apply_signal ms ''queue_overruns'', hs_vad_lag = apply_signal ms ''vad_lag'',
      hs_memory_pressure = apply_signal ms ''memory_pressure'',
      hs_restart_frequency = apply_signal ms ''restart_frequency'',
      hs_transport_latency = apply_signal ms ''transport_latency'',
      hs_dropped_wake_candidates = apply_signal ms ''dropped_wake_candidates''\<rparr>"

definition hs_to_dict :: "health_signals \<Rightarrow> (string, pyfloat) dict" where
  "hs_to_dict s =
     [(''queue_overruns'', hs_queue_overruns s), (''vad_lag'', hs_vad_lag s),
      (''memory_pressure'', hs_memory_pressure s), (''restart_frequency'', hs_restart_frequency s),
      (''transport_latency'', hs_transport_latency s),
      (''dropped_wake_candidates'', hs_dropped_wake_candidates s)]"

lemma signals_to_dict: "hs_to_dict (health_signals_of ms) = compute_signals ms"
  by (simp add: hs_to_dict_def health_signals_of_def apply_signal_def compute_signals_def HEALTH_SIGNAL_MAP_def)

section \<open>Score\<close>

definition SIGNAL_WEIGHTS :: "(string, pyfloat) dict" where
  "SIGNAL_WEIGHTS = [(''queue_overruns'', 20/100), (''vad_lag'', 15/100), (''memory_pressure'', 20/100),
     (''restart_frequency'', 25/100), (''transport_latency'', 10/100), (''dropped_wake_candidates'', 10/100)]"

definition health_penalty :: "(string, pyfloat) dict \<Rightarrow> pyfloat" where
  "health_penalty sigs =
     foldl (\<lambda>acc (name, weight). acc + min ((case map_of sigs name of Some p \<Rightarrow> p | None \<Rightarrow> 0) * weight) weight)
       0 SIGNAL_WEIGHTS"

definition compute_health_score :: "(string, pyfloat) dict \<Rightarrow> pyfloat" where
  "compute_health_score sigs = max 0 (min 1 (1 - health_penalty sigs))"

definition score_from_metrics :: "metrics \<Rightarrow> pyfloat" where
  "score_from_metrics ms = compute_health_score (compute_signals ms)"

definition health_status :: "pyfloat \<Rightarrow> string" where
  "health_status score = (if 8/10 < score then ''HEALTHY'' else if 5/10 < score then ''DEGRADED'' else ''CRITICAL'')"

text \<open>The report, less its constant parts. A lifecycle always has a state, so "UNKNOWN" does not occur.\<close>

record health_report =
  hr_runtime_health :: pyfloat
  hr_status :: string
  hr_subsystems :: "(string, string) dict"
  hr_signals :: "(string, pyfloat) dict"
  hr_metrics :: metrics

definition get_report :: "(string, subsystem_lifecycle) dict \<Rightarrow> metrics \<Rightarrow> health_report" where
  "get_report fsms raw =
     (let signals = compute_signals raw; score = compute_health_score signals in
      \<lparr>hr_runtime_health = py_round 4 score, hr_status = health_status score,
       hr_subsystems = map (\<lambda>(name, fsm). (name, subsystem_value (sl_state fsm))) fsms,
       hr_signals = signals, hr_metrics = raw\<rparr>)"

section \<open>The older report\<close>

text \<open>A penalty is applied, and warned about, when it exceeds its threshold.\<close>

definition apply_penalty :: "string \<Rightarrow> pyfloat \<Rightarrow> pyfloat \<Rightarrow> (string \<times> pyfloat) list" where
  "apply_penalty what threshold p = (if threshold < p then [(what, p)] else [])"

definition report_penalties :: "metrics \<Rightarrow> (string \<times> pyfloat) list" where
  "report_penalties ms =
     (let reset_penalty = min (metric ms ''reset_count'' * (5/100)) (3/10);
          queue_penalty = min (metric ms ''queue_depth'' / 1000) (2/10);
          restart_penalty = min (metric ms ''restart_count'' * (1/10)) (3/10);
          mem_pressure = min (metric ms ''memory_usage_mb'' / 1024 * (1/10)) (2/10)
      in apply_penalty ''Reset'' 0 reset_penalty @ apply_penalty ''Queue depth'' (5/100) queue_penalty
       @ apply_penalty ''Restart'' 0 restart_penalty @ apply_penalty ''Memory pressure'' (5/100) mem_pressure)"

definition generate_report :: "metrics \<Rightarrow> pyfloat \<times> string \<times> (string \<times> pyfloat) list" where
  "generate_report ms =
     (let applied = report_penalties ms;
          score = foldl (\<lambda>s (w, p). s - p) 1 applied;
          score = max 0 (min 1 score)
      in (score, health_status score, applied))"

section \<open>Lemmas\<close>

text \<open>The penalty in closed form: a weighted sum of clamped ratios.\<close>

lemma min_weight: "0 \<le> p \<Longrightarrow> p \<le> 1 \<Longrightarrow> 0 \<le> w \<Longrightarrow> min (p * w) w = p * (w :: pyfloat)"
  using mult_right_mono [of p 1 w] by simp

lemma health_penalty_eq:
  "health_penalty (compute_signals ms) =
     clamp01 (metric ms ''queue_depth'' / 100) * (20/100) + clamp01 (metric ms ''reset_count'' / 20) * (15/100)
   + clamp01 (metric ms ''memory_usage_mb'' / 2048) * (20/100) + clamp01 (metric ms ''restart_count'' / 5) * (25/100)
   + clamp01 (metric ms ''transport_latency_ms'' / 500) * (10/100)
   + clamp01 (metric ms ''telemetry_drop_count'' / 500) * (10/100)"
  by (simp add: health_penalty_def compute_signals_def HEALTH_SIGNAL_MAP_def SIGNAL_WEIGHTS_def min_weight)

lemma penalty_bounds: "0 \<le> health_penalty (compute_signals ms)" "health_penalty (compute_signals ms) \<le> 1"
proof -
  have b: "0 \<le> clamp01 v * w" "clamp01 v * w \<le> w" if "0 \<le> w" for v w
    using that mult_right_mono [of "clamp01 v" 1 w] by (simp_all add: mult_nonneg_nonneg)
  show "0 \<le> health_penalty (compute_signals ms)"
    unfolding health_penalty_eq by (intro add_nonneg_nonneg b) simp_all
  have "health_penalty (compute_signals ms) \<le> 20/100 + 15/100 + 20/100 + 25/100 + 10/100 + 10/100"
    unfolding health_penalty_eq by (intro add_mono b) simp_all
  then show "health_penalty (compute_signals ms) \<le> 1" by simp
qed

lemma score_eq: "score_from_metrics ms = 1 - health_penalty (compute_signals ms)"
  using penalty_bounds [of ms] by (simp add: score_from_metrics_def compute_health_score_def)

lemma penalty_mono:
  assumes "\<And>k. metric ms k \<le> metric ms' k"
  shows "health_penalty (compute_signals ms) \<le> health_penalty (compute_signals ms')"
  unfolding health_penalty_eq
  by (intro add_mono mult_right_mono clamp01_mono divide_right_mono assms) simp_all

text \<open>Taking positive penalties off a score.\<close>

lemma foldl_penalties: "foldl (\<lambda>s (w, p). s - p) s xs = s - (sum_list (map snd xs) :: pyfloat)"
  by (induction xs arbitrary: s) auto

lemma penalties_pos: "\<forall>x\<in>set xs. 0 < snd x \<Longrightarrow> xs \<noteq> [] \<Longrightarrow> 0 < sum_list (map snd xs :: pyfloat list)"
proof (induction xs)
  case (Cons x xs)
  then show ?case by (cases xs) (auto intro: add_pos_pos)
qed simp

lemma apply_penalty_pos: "0 \<le> t \<Longrightarrow> x \<in> set (apply_penalty w t p) \<Longrightarrow> 0 < snd x"
  by (auto simp: apply_penalty_def split: if_splits)

lemma report_penalties_pos: "x \<in> set (report_penalties ms) \<Longrightarrow> 0 < snd x"
  unfolding report_penalties_def Let_def set_append
  by (elim UnE; erule apply_penalty_pos [rotated]; simp)

lemma capped_score_one:
  assumes "\<forall>x\<in>set xs. 0 < snd x"
  shows "max 0 (min 1 (foldl (\<lambda>s (w, p). s - p) 1 xs)) = (1 :: pyfloat) \<longleftrightarrow> xs = []"
  using penalties_pos [OF assms] by (cases "xs = []") (auto simp: foldl_penalties)

section \<open>Properties\<close>

text \<open>C35: the health score lies between 0 and 1 and never rises when a metric gets worse; it is 1 when no
  metric is positive. But what the collector reports never scores below 0.1: it has no transport
  latency, so that signal's tenth of the penalty is never given.\<close>

theorem health_score_sound:
  assumes "\<forall>k. metric ms k \<le> metric ms' k"
  shows "0 \<le> score_from_metrics ms' \<and> score_from_metrics ms' \<le> score_from_metrics ms \<and> score_from_metrics ms \<le> 1
       \<and> ((\<forall>k. metric ms k \<le> 0) \<longrightarrow> score_from_metrics ms = 1)
       \<and> 1/10 \<le> score_from_metrics (mc_get_all_metrics sys drops c)"
proof -
  have healthy: "(\<forall>k. metric ms k \<le> 0) \<Longrightarrow> health_penalty (compute_signals ms) = 0"
    by (simp add: health_penalty_eq clamp01_le0 divide_nonpos_nonneg)
  let ?m = "mc_get_all_metrics sys drops c"
  have b: "clamp01 v * w \<le> w" if "0 \<le> w" for v w
    using that mult_right_mono [of "clamp01 v" 1 w] by simp
  have t: "clamp01 (metric ?m ''transport_latency_ms'' / 500) = 0"
    by (simp add: metric_def mc_get_all_metrics_def clamp01_le0)
  have "health_penalty (compute_signals ?m) \<le> 20/100 + 15/100 + 20/100 + 25/100 + 0 * (10/100) + 10/100"
    unfolding health_penalty_eq t by (intro add_mono b) simp_all
  then show ?thesis
    using penalty_mono [of ms ms'] penalty_bounds [of ms] penalty_bounds [of ms'] healthy assms
    by (simp add: score_eq)
qed

theorem health_score_sound_witness:
  "score_from_metrics [(''restart_count'', Some 9), (''queue_depth'', Some 40)] \<le> score_from_metrics [(''restart_count'', Some 2)]
   \<and> 1/10 \<le> score_from_metrics (mc_get_all_metrics None 100000 (new_metrics\<lparr>mc_restart_count := 50\<rparr>))"
  using health_score_sound [of "[(''restart_count'', Some 2)]" "[(''restart_count'', Some 9), (''queue_depth'', Some 40)]"
      None 100000 "new_metrics\<lparr>mc_restart_count := 50\<rparr>"]
  by (simp add: metric_def)

text \<open>The older report's score is between 0 and 1, is 1 exactly when it applies no penalty, and carries the
  same status bands as the new one.\<close>

theorem old_report_sound:
  "case generate_report ms of (score, status, warnings) \<Rightarrow>
     0 \<le> score \<and> score \<le> 1 \<and> status = health_status score \<and> (score = 1 \<longleftrightarrow> warnings = [])"
  using capped_score_one [of "report_penalties ms"] report_penalties_pos
  unfolding generate_report_def Let_def by simp

end
