(* ===== verification/Settings.thy ===== *)
theory Settings
  imports Ava_Prelude
begin

text \<open>
  \<^verbatim>\<open>src/runtime/config/defaults.py\<close>: the tunable constants, one definition per constant, and the
  directory of the models. All are declared as rewrite rules of the collection \<open>settings\<close>, so that
  a proof unfolds them only where the value matters. The file defines every name twice, with the
  same value; the second assignment is the one that holds.
\<close>

named_theorems settings \<open>values of the configuration constants\<close>

definition SAMPLE_RATE :: nat where [settings]: "SAMPLE_RATE = 16000"
definition TRAILING_PAD_FRAMES :: nat where [settings]: "TRAILING_PAD_FRAMES = 2"
definition VAD_FRAME_SAMPLES :: nat where [settings]: "VAD_FRAME_SAMPLES = 480"
definition RMS_FLOOR :: pyfloat where [settings]: "RMS_FLOOR = 5/1000"
definition SILERO_THRESHOLD :: pyfloat where [settings]: "SILERO_THRESHOLD = 15/100"
definition NOISE_FLOOR_MULTIPLIER :: pyfloat where [settings]: "NOISE_FLOOR_MULTIPLIER = 18/10"
definition NOISE_HISTORY_FRAMES :: nat where [settings]: "NOISE_HISTORY_FRAMES = 40"
definition MIN_SPEECH_FRAMES :: nat where [settings]: "MIN_SPEECH_FRAMES = 3"
definition MIN_SILENCE_FRAMES :: nat where [settings]: "MIN_SILENCE_FRAMES = 8"
definition RESET_COOLDOWN_SECONDS :: time_s where [settings]: "RESET_COOLDOWN_SECONDS = 15"
definition JARO_THRESHOLD :: pyfloat where [settings]: "JARO_THRESHOLD = 82/100"
definition FUZZY_THRESHOLD :: pyfloat where [settings]: "FUZZY_THRESHOLD = 65"
definition REQUIRE_FULL_PHRASE :: bool where [settings]: "REQUIRE_FULL_PHRASE = True"
definition ALLOW_PREFIX_MATCHING :: bool where [settings]: "ALLOW_PREFIX_MATCHING = False"
definition DEFAULT_THRESHOLD :: pyfloat where [settings]: "DEFAULT_THRESHOLD = 78/100"
definition CONFIDENCE_THRESHOLD :: pyfloat where [settings]: "CONFIDENCE_THRESHOLD = DEFAULT_THRESHOLD"
definition WINDOW_SECONDS :: time_s where [settings]: "WINDOW_SECONDS = 35/10"
definition WEIGHT_MATCH :: pyfloat where [settings]: "WEIGHT_MATCH = 65/100"
definition WEIGHT_CONTEXT :: pyfloat where [settings]: "WEIGHT_CONTEXT = 20/100"
definition WEIGHT_STABILITY :: pyfloat where [settings]: "WEIGHT_STABILITY = 15/100"
definition EMA_RISE_ALPHA :: pyfloat where [settings]: "EMA_RISE_ALPHA = 70/100"
definition EMA_DECAY_ALPHA :: pyfloat where [settings]: "EMA_DECAY_ALPHA = 30/100"
definition STABILITY_CAP :: nat where [settings]: "STABILITY_CAP = 12"
definition COOLDOWN_SECONDS :: time_s where [settings]: "COOLDOWN_SECONDS = 2"
definition AUDIO_QUEUE_MAX :: nat where [settings]: "AUDIO_QUEUE_MAX = 20"
definition PHRASE_PRIORITY_MODE :: string where [settings]: "PHRASE_PRIORITY_MODE = ''longest''"
definition BLOCK_SIZE :: nat where [settings]: "BLOCK_SIZE = 1600"
definition NUM_THREADS :: nat where [settings]: "NUM_THREADS = 2"
definition ENDPOINT_RULE1_SILENCE :: pyfloat where [settings]: "ENDPOINT_RULE1_SILENCE = 6/10"
definition ENDPOINT_RULE2_SILENCE :: pyfloat where [settings]: "ENDPOINT_RULE2_SILENCE = 12/10"
definition ENDPOINT_RULE3_UTTERANCE :: pyfloat where [settings]: "ENDPOINT_RULE3_UTTERANCE = 20"
definition SILENCE_RESET_FRAMES :: nat where [settings]: "SILENCE_RESET_FRAMES = 30"
definition VAD_AGGRESSIVENESS :: nat where [settings]: "VAD_AGGRESSIVENESS = 1"
definition MIN_SPEECH_MS :: nat where [settings]: "MIN_SPEECH_MS = 250"
definition MIN_VALID_UTTERANCE_MS :: nat where [settings]: "MIN_VALID_UTTERANCE_MS = 600"
definition IDLE_STREAM_TIMEOUT_S :: time_s where [settings]: "IDLE_STREAM_TIMEOUT_S = 60"
definition WORKER_QUEUE_TIMEOUT :: time_s where [settings]: "WORKER_QUEUE_TIMEOUT = 1"
definition HEARTBEAT_INTERVAL_S :: time_s where [settings]: "HEARTBEAT_INTERVAL_S = 5"
definition METRICS_TO_DISK :: bool where [settings]: "METRICS_TO_DISK = False"
definition LOG_LEVEL :: string where [settings]: "LOG_LEVEL = ''info''"
definition LOG_DEBUG_SUBSYSTEMS :: "(string, bool) dict" where [settings]:
  "LOG_DEBUG_SUBSYSTEMS = [(''vad'', False), (''asr'', False), (''matcher'', False), (''transport'', False), (''telemetry'', False)]"

text \<open>The cache directory, with the platform's \<open>os.path.join\<close>, the environment and the home directory as
  arguments, and the directory of the models below it.\<close>

definition get_default_cache_dir ::
  "(string list \<Rightarrow> string) \<Rightarrow> string \<Rightarrow> string option \<Rightarrow> string \<Rightarrow> string" where
  "get_default_cache_dir join sys_plat localappdata home =
     (if sys_plat = ''Windows''
      then join [case localappdata of Some d \<Rightarrow> d | None \<Rightarrow> join [home, ''AppData'', ''Local''], ''AVAListener'']
      else if sys_plat = ''Darwin'' then join [home, ''Library'', ''Application Support'', ''AVAListener'']
      else join [home, ''.local'', ''share'', ''avalistener''])"

definition MODELS_DIR ::
  "(string list \<Rightarrow> string) \<Rightarrow> string \<Rightarrow> string option \<Rightarrow> string \<Rightarrow> string option \<Rightarrow> string" where
  "MODELS_DIR join sys_plat localappdata home ava_cache_dir =
     join [case ava_cache_dir of Some d \<Rightarrow> d | None \<Rightarrow> get_default_cache_dir join sys_plat localappdata home, ''models'']"

end
