(* ===== verification/Sherpa_Provider.thy ===== *)
theory Sherpa_Provider
  imports Ava_Contracts
begin

text \<open>
  \<^verbatim>\<open>src/runtime/asr/providers/sherpa.py\<close> and \<^verbatim>\<open>src/runtime/audio/queue_manager.py\<close>: the owner of the
  speech recognizer and its per-utterance stream, and the queue of audio chunks. The recognizer
  itself (the sherpa-onnx package) is a parameter: a record of its four operations on a stream of
  an arbitrary type; \<open>create_stream\<close> is the outcome of one call, a stream or an exception.
\<close>

type_synonym chunk = "pyfloat list"

record 'o recognizer =
  rz_accept :: "nat \<Rightarrow> chunk \<Rightarrow> 'o \<Rightarrow> 'o"
  rz_is_ready :: "'o \<Rightarrow> bool"
  rz_decode :: "'o \<Rightarrow> 'o"
  rz_result :: "'o \<Rightarrow> string"

section \<open>The provider\<close>

record 'o provider =
  sp_stream :: "'o option"
  sp_stream_start_time :: time_s
  sp_last_reset_time :: time_s
  sp_reset_count :: nat
  sp_stream_lifetimes :: "time_s list"
  sp_generation_id :: nat

definition new_provider :: "time_s \<Rightarrow> 'o provider" where
  "new_provider now = \<lparr>sp_stream = None, sp_stream_start_time = now, sp_last_reset_time = now,
     sp_reset_count = 0, sp_stream_lifetimes = [], sp_generation_id = 0\<rparr>"

definition sp_reset :: "time_s \<times> (py_exc + 'o) \<Rightarrow> 'o provider \<Rightarrow> (py_exc + unit) \<times> 'o provider" where
  "sp_reset i p =
     (let (now, created) = i;
          p = (if sp_stream p \<noteq> None
               then p\<lparr>sp_stream_lifetimes := sp_stream_lifetimes p @ [now - sp_stream_start_time p]\<rparr>
               else p);
          p = p\<lparr>sp_generation_id := sp_generation_id p + 1, sp_last_reset_time := now,
                sp_stream_start_time := now, sp_reset_count := sp_reset_count p + 1\<rparr>
      in case created of
           Inl e \<Rightarrow> (Inl e, p)
         | Inr s \<Rightarrow> (Inr (), p\<lparr>sp_stream := Some s\<rparr>))"

definition sp_shutdown :: "'o provider \<Rightarrow> 'o provider" where
  "sp_shutdown p = p\<lparr>sp_stream := None\<rparr>"

definition sp_accept ::
  "'o recognizer \<Rightarrow> time_s \<times> (py_exc + 'o) \<Rightarrow> nat \<Rightarrow> chunk \<Rightarrow> 'o provider \<Rightarrow> (py_exc + unit) \<times> 'o provider" where
  "sp_accept rz i sample_rate samples p =
     (let (r, p) = (if sp_stream p = None then sp_reset i p else (Inr (), p))
      in case r of
           Inl e \<Rightarrow> (Inl e, p)
         | Inr _ \<Rightarrow> (Inr (), p\<lparr>sp_stream := map_option (rz_accept rz sample_rate samples) (sp_stream p)\<rparr>))"

text \<open>The decoding loop runs as long as the recognizer says it is ready, so it may not end: \<open>None\<close>.\<close>

partial_function (option) decode_loop :: "'o recognizer \<Rightarrow> nat \<Rightarrow> 'o \<Rightarrow> (nat \<times> 'o) option" where
  [code]: "decode_loop rz count s =
     (if rz_is_ready rz s then decode_loop rz (count + 1) (rz_decode rz s) else Some (count, s))"

definition sp_decode :: "'o recognizer \<Rightarrow> 'o provider \<Rightarrow> (nat \<times> 'o provider) option" where
  "sp_decode rz p =
     (case sp_stream p of
        None \<Rightarrow> Some (0, p)
      | Some s \<Rightarrow> map_option (\<lambda>(n, s'). (n, p\<lparr>sp_stream := Some s'\<rparr>)) (decode_loop rz 0 s))"

definition sp_result :: "'o recognizer \<Rightarrow> 'o provider \<Rightarrow> string" where
  "sp_result rz p =
     (case sp_stream p of None \<Rightarrow> '''' | Some s \<Rightarrow> py_lower (py_strip (rz_result rz s)))"

definition sp_has_stream :: "'o provider \<Rightarrow> bool" where
  "sp_has_stream p \<longleftrightarrow> sp_stream p \<noteq> None"

section \<open>Lemmas\<close>

lemma sp_reset_fields [simp]:
  "sp_generation_id (snd (sp_reset i p)) = Suc (sp_generation_id p)"
  "sp_reset_count (snd (sp_reset i p)) = Suc (sp_reset_count p)"
  "sp_last_reset_time (snd (sp_reset i p)) = fst i"
  "sp_stream_start_time (snd (sp_reset i p)) = fst i"
  by (cases i; cases "snd i"; simp add: sp_reset_def Let_def)+

lemma sp_reset_ok: "fst (sp_reset (now, Inr s) p) = Inr () \<and> sp_stream (snd (sp_reset (now, Inr s) p)) = Some s"
  by (simp add: sp_reset_def Let_def)

lemma sp_reset_err: "fst (sp_reset (now, c) p) = (case c of Inl e \<Rightarrow> Inl e | Inr _ \<Rightarrow> Inr ())"
  by (simp add: sp_reset_def Let_def split: sum.splits)

lemma sp_reset_err_stream: "sp_stream (snd (sp_reset (now, Inl e) p)) = sp_stream p"
  by (simp add: sp_reset_def Let_def)

interpretation sprov: resettable sp_reset sp_generation_id
  by unfold_locales simp

text \<open>Feeding audio to an open stream neither raises nor moves the generation; without a stream it
  opens one.\<close>

lemma sp_accept_open:
  "sp_stream p = Some s \<Longrightarrow>
     sp_accept rz i sr x p = (Inr (), p\<lparr>sp_stream := Some (rz_accept rz sr x s)\<rparr>)"
  by (simp add: sp_accept_def)

lemma sp_accept_generation:
  "sp_generation_id (snd (sp_accept rz i sr x p)) =
     sp_generation_id p + (if sp_stream p = None then 1 else 0)"
  by (simp add: sp_accept_def Let_def split_beta split: sum.splits)

lemma sp_accept_counts:
  "int (sp_reset_count (snd (sp_accept rz i sr x p))) - int (sp_generation_id (snd (sp_accept rz i sr x p))) =
     int (sp_reset_count p) - int (sp_generation_id p)"
  by (simp add: sp_accept_def Let_def split_beta split: sum.splits)

lemma sp_accept_stream:
  "fst (sp_accept rz i sr x p) = Inr () \<Longrightarrow> sp_stream (snd (sp_accept rz i sr x p)) \<noteq> None"
  by (cases i; cases "snd i"; cases "sp_stream p")
    (auto simp: sp_accept_def sp_reset_def Let_def split: sum.splits prod.splits)

subsection \<open>Termination of decoding\<close>

text \<open>What sherpa-onnx documents of the loop: decoding consumes the frames that made the stream ready,
  so some measure of the buffered audio goes down.\<close>

definition decode_progress :: "'o recognizer \<Rightarrow> ('o \<Rightarrow> nat) \<Rightarrow> bool" where
  "decode_progress rz m \<longleftrightarrow> (\<forall>s. rz_is_ready rz s \<longrightarrow> m (rz_decode rz s) < m s)"

lemma decode_loop_returns:
  assumes "decode_progress rz m"
  shows "\<exists>n s'. decode_loop rz count s = Some (count + n, s') \<and> n \<le> m s \<and> \<not> rz_is_ready rz s'
     \<and> s' = (rz_decode rz ^^ n) s"
proof (induction "m s" arbitrary: s count rule: less_induct)
  case less
  show ?case
  proof (cases "rz_is_ready rz s")
    case True
    then have lt: "m (rz_decode rz s) < m s" using assms by (simp add: decode_progress_def)
    from less [OF this, of "count + 1"] obtain n s' where
      n: "decode_loop rz (count + 1) (rz_decode rz s) = Some (count + 1 + n, s')" "n \<le> m (rz_decode rz s)"
        "\<not> rz_is_ready rz s'" "s' = (rz_decode rz ^^ n) (rz_decode rz s)" by blast
    show ?thesis
    proof (intro exI conjI)
      show "decode_loop rz count s = Some (count + Suc n, s')"
        using True n(1) by (subst decode_loop.simps) simp
      show "Suc n \<le> m s" using n(2) lt by simp
      show "\<not> rz_is_ready rz s'" by (rule n(3))
      show "s' = (rz_decode rz ^^ Suc n) s" using n(4) by (simp add: funpow_swap1)
    qed
  next
    case False
    then have "decode_loop rz count s = Some (count + 0, s)" by (subst decode_loop.simps) simp
    with False show ?thesis by (metis funpow_0 le0)
  qed
qed

lemma sp_decode_returns:
  assumes "decode_progress rz m"
  shows "\<exists>n p'. sp_decode rz p = Some (n, p')"
  using decode_loop_returns [OF assms, of 0] by (cases "sp_stream p") (fastforce simp: sp_decode_def)+

lemma sp_decode_fields:
  assumes "sp_decode rz p = Some (n, p')"
  shows "sp_generation_id p' = sp_generation_id p" "sp_reset_count p' = sp_reset_count p"
    "sp_last_reset_time p' = sp_last_reset_time p" "sp_stream_start_time p' = sp_stream_start_time p"
    "sp_has_stream p' = sp_has_stream p"
  using assms by (auto simp: sp_decode_def sp_has_stream_def split: option.splits)

section \<open>The audio queue\<close>

record audio_queue =
  aq_queue :: "chunk list"
  aq_maxsize :: nat
  aq_warn_threshold :: nat
  aq_warn_logged :: bool
  aq_enqueue_count :: nat

definition new_audio_queue :: "nat \<Rightarrow> nat \<Rightarrow> audio_queue" where
  "new_audio_queue maxsize warn = \<lparr>aq_queue = [], aq_maxsize = maxsize, aq_warn_threshold = warn,
     aq_warn_logged = False, aq_enqueue_count = 0\<rparr>"

text \<open>\<open>put_nowait\<close> raises \<open>queue.Full\<close> when the queue is bounded (\<open>maxsize > 0\<close>) and full.\<close>

definition aq_enqueue :: "chunk \<Rightarrow> audio_queue \<Rightarrow> (py_exc + unit) \<times> audio_queue" where
  "aq_enqueue c q =
     (if 0 < aq_maxsize q \<and> aq_maxsize q \<le> length (aq_queue q) then (Inl QueueFull, q)
      else let q = q\<lparr>aq_queue := aq_queue q @ [c], aq_enqueue_count := aq_enqueue_count q + 1\<rparr>;
               depth = length (aq_queue q)
           in (Inr (), if aq_warn_threshold q < depth \<and> \<not> aq_warn_logged q
                       then q\<lparr>aq_warn_logged := True\<rparr> else q))"

text \<open>\<open>dequeue\<close> returns \<open>None\<close> when the timeout passes with the queue empty.\<close>

definition aq_dequeue :: "audio_queue \<Rightarrow> chunk option \<times> audio_queue" where
  "aq_dequeue q =
     (case aq_queue q of [] \<Rightarrow> (None, q) | c # cs \<Rightarrow> (Some c, q\<lparr>aq_queue := cs\<rparr>))"

definition aq_depth :: "audio_queue \<Rightarrow> nat" where
  "aq_depth q = length (aq_queue q)"

definition aq_reset_warn :: "audio_queue \<Rightarrow> audio_queue" where
  "aq_reset_warn q = q\<lparr>aq_warn_logged := False\<rparr>"

datatype aq_action = Aq_put chunk | Aq_get | Aq_reset_warn

text \<open>A run of the queue, with the chunks delivered so far.\<close>

fun aq_act :: "aq_action \<Rightarrow> audio_queue \<times> chunk list \<Rightarrow> audio_queue \<times> chunk list" where
  "aq_act (Aq_put c) (q, out) = (snd (aq_enqueue c q), out)"
| "aq_act Aq_get (q, out) =
     (let (c, q') = aq_dequeue q in (q', case c of None \<Rightarrow> out | Some x \<Rightarrow> out @ [x]))"
| "aq_act Aq_reset_warn (q, out) = (aq_reset_warn q, out)"

fun aq_puts :: "aq_action list \<Rightarrow> chunk list" where
  "aq_puts [] = []"
| "aq_puts (Aq_put c # as) = c # aq_puts as"
| "aq_puts (_ # as) = aq_puts as"

lemma aq_run_fifo:
  "aq_maxsize q = 0 \<Longrightarrow>
     (let (q', out') = fold aq_act as (q, out) in
        out' @ aq_queue q' = out @ aq_queue q @ aq_puts as
      \<and> aq_enqueue_count q' = aq_enqueue_count q + length (aq_puts as) \<and> aq_maxsize q' = 0)"
proof (induction as arbitrary: q out)
  case (Cons a as)
  obtain q1 out1 where s: "aq_act a (q, out) = (q1, out1)" by fastforce
  have m: "aq_maxsize q1 = 0"
    and o1: "out1 @ aq_queue q1 @ aq_puts as = out @ aq_queue q @ aq_puts (a # as)"
    and n1: "aq_enqueue_count q1 + length (aq_puts as) = aq_enqueue_count q + length (aq_puts (a # as))"
    using s Cons.prems
    by (cases a; auto simp: aq_enqueue_def aq_dequeue_def aq_reset_warn_def Let_def split: list.splits)+
  from Cons.IH [OF m, of out1] o1 n1 show ?case by (auto simp: s Let_def split: prod.splits)
qed simp

section \<open>Properties\<close>

text \<open>Every reset of the provider, the one that fails to create a stream too, starts a generation
  never used before: after any resets the generation and the reset count have both grown by their
  number, whatever the recognizer did; a failed reset keeps the old stream under the new number,
  and feeding audio to an open stream never changes the generation.\<close>

theorem provider_generations_fresh:
  "sp_generation_id (fold (\<lambda>i p. snd (sp_reset i p)) rs p) = sp_generation_id p + length rs
   \<and> (sp_generation_id (snd (sp_reset i p)) \<noteq> sp_generation_id p)
   \<and> sp_stream (snd (sp_reset (now, Inl e) p)) = sp_stream p
   \<and> sp_generation_id (snd (sp_accept rz i sr x (p\<lparr>sp_stream := Some s\<rparr>))) = sp_generation_id p"
  using sprov.resets_generation [of rs p]
  by (simp add: sp_reset_err_stream sp_accept_generation)


text \<open>A recognizer that decodes one buffered chunk at a time.\<close>

definition toy_recognizer :: "(nat \<times> string) recognizer" where
  "toy_recognizer = \<lparr>rz_accept = (\<lambda>_ x (n, t). (n + length x, t)), rz_is_ready = (\<lambda>(n, t). 0 < n),
     rz_decode = (\<lambda>(n, t). (n - 1, t @ ''a'')), rz_result = snd\<rparr>"


text \<open>C29: the audio queue between the microphone and the worker is a lossless FIFO: after any interleaving
  of puts, gets and warning resets of the unbounded queue the streamer creates, the chunks delivered
  followed by the chunks still queued are exactly the chunks put, in order, and \<open>enqueue_count\<close> is
  their number.\<close>

theorem audio_queue_fifo:
  "(let (q, out) = fold aq_act as (new_audio_queue 0 warn, []) in
      out @ aq_queue q = aq_puts as \<and> aq_enqueue_count q = length (aq_puts as))"
  using aq_run_fifo [of "new_audio_queue 0 warn" as "[]"]
  by (auto simp: new_audio_queue_def Let_def split: prod.splits)

end
