(* ===== verification/Hybrid_VAD.thy ===== *)
theory Hybrid_VAD
  imports Lifecycle Settings Sherpa_Provider
begin

text \<open>
  \<^verbatim>\<open>src/runtime/vad/pipeline.py\<close>: the two-stage voice activity detector. WebRTC VAD and the Silero
  network are third-party packages and parameters of the model: \<open>vm_webrtc\<close> is the outcome of
  \<open>is_speech\<close> on the 16-bit samples (it may raise), \<open>vm_silero\<close> is one run of the network on a
  segment with its context. So is \<open>vm_rms\<close>, the root mean square computed by numpy. The
  attribute \<open>_audio_buffer\<close> is set by \<open>reset_state\<close> only; an unset attribute is \<open>None\<close>.
\<close>

section \<open>State\<close>

record 's vad_models =
  vm_webrtc :: "int list \<Rightarrow> py_exc + bool"
  vm_silero :: "'s \<Rightarrow> chunk \<Rightarrow> pyfloat \<times> 's"
  vm_silero_zero :: 's
  vm_rms :: "chunk \<Rightarrow> pyfloat"

record vad_stats =
  vs_webrtc_dropped :: nat
  vs_silero_dropped :: nat
  vs_speech_passed :: nat
  vs_silero_probs :: "pyfloat list"

record 's vad =
  vd_fsm :: subsystem_lifecycle
  vd_silero_sess :: bool
  vd_audio_buffer :: "chunk option"
  vd_silero_state :: 's
  vd_silero_context :: chunk
  vd_frame_count :: nat
  vd_last_speech_pass :: bool
  vd_stats :: vad_stats
  vd_noise_rms_history :: "pyfloat list"

record vad_result =
  vr_webrtc :: bool
  vr_silero_prob :: pyfloat
  vr_silero_pass :: bool
  vr_rms :: pyfloat
  vr_peak :: pyfloat
  vr_pass :: bool

definition vad_reset_state :: "'s vad_models \<Rightarrow> 's vad \<Rightarrow> 's vad" where
  "vad_reset_state m v =
     (let v = v\<lparr>vd_audio_buffer := Some []\<rparr> in
      if vd_silero_sess v
      then v\<lparr>vd_silero_state := vm_silero_zero m, vd_silero_context := replicate 64 0,
             vd_frame_count := 0, vd_last_speech_pass := False\<rparr>
      else v)"

text \<open>The constructor. \<open>session\<close> says whether the Silero model file was found; \<open>FileNotFoundError\<close> leaves
  the handler before \<open>reset_state\<close>. The two moves to ACTIVE are legal moves of the table.\<close>

definition new_vad :: "'s vad_models \<Rightarrow> bool \<Rightarrow> 's vad" where
  "new_vad m session =
     (let v = \<lparr>vd_fsm = \<lparr>sl_name = ''VAD'', sl_state = SS_INITIALIZING\<rparr>, vd_silero_sess = session,
               vd_audio_buffer = None, vd_silero_state = vm_silero_zero m, vd_silero_context = [],
               vd_frame_count = 0, vd_last_speech_pass = False,
               vd_stats = \<lparr>vs_webrtc_dropped = 0, vs_silero_dropped = 0, vs_speech_passed = 0,
                           vs_silero_probs = []\<rparr>,
               vd_noise_rms_history = []\<rparr>;
          v = (if session then vad_reset_state m v else v)
      in v\<lparr>vd_fsm := \<lparr>sl_name = ''VAD'', sl_state = SS_ACTIVE\<rparr>\<rparr>)"

section \<open>Noise floor\<close>

text \<open>\<open>statistics.median\<close> of a non-empty sequence.\<close>

definition median :: "pyfloat list \<Rightarrow> pyfloat" where
  "median xs =
     (let ys = sort xs; n = length ys in
      if odd n then ys ! (n div 2) else (ys ! (n div 2 - 1) + ys ! (n div 2)) / 2)"

definition adaptive_noise_floor :: "'s vad \<Rightarrow> pyfloat" where
  "adaptive_noise_floor v =
     (if vd_noise_rms_history v = [] then RMS_FLOOR
      else max (median (vd_noise_rms_history v)) RMS_FLOOR)"

definition energy_threshold :: "'s vad \<Rightarrow> pyfloat" where
  "energy_threshold v = max RMS_FLOOR (adaptive_noise_floor v * NOISE_FLOOR_MULTIPLIER)"

definition push_noise :: "pyfloat \<Rightarrow> 's vad \<Rightarrow> 's vad" where
  "push_noise r v =
     (let h = vd_noise_rms_history v @ [r] in
      v\<lparr>vd_noise_rms_history := (if NOISE_HISTORY_FRAMES < length h then tl h else h)\<rparr>)"

section \<open>Processing a chunk\<close>

definition pcm_frame :: "chunk \<Rightarrow> int list" where
  "pcm_frame chunk =
     (let frame = take VAD_FRAME_SAMPLES chunk;
          frame = (if length frame < VAD_FRAME_SAMPLES
                   then frame @ replicate (VAD_FRAME_SAMPLES - length frame) 0 else frame)
      in map (\<lambda>x. py_int (max (-1) (min 1 x) * 32767)) frame)"

definition run_silero :: "'s vad_models \<Rightarrow> chunk \<Rightarrow> 's vad \<Rightarrow> pyfloat \<times> 's vad" where
  "run_silero m audio v =
     (let audio_with_context = vd_silero_context v @ audio;
          (prob, stateN) = vm_silero m (vd_silero_state v) audio_with_context
      in (prob, v\<lparr>vd_silero_state := stateN, vd_silero_context := last_n 64 audio_with_context,
                  vd_frame_count := vd_frame_count v + 1\<rparr>))"

text \<open>The \<open>while len(self._audio_buffer) >= 512\<close> loop over the buffered samples.\<close>

function silero_segments :: "'s vad_models \<Rightarrow> chunk \<Rightarrow> pyfloat list \<Rightarrow> 's vad \<Rightarrow> pyfloat list \<times> 's vad" where
  "silero_segments m buf probs v =
     (if 512 \<le> length buf
      then let (prob, v') = run_silero m (take 512 buf) v
           in silero_segments m (drop 512 buf) (probs @ [prob]) v'
      else (probs, v\<lparr>vd_audio_buffer := Some buf\<rparr>))"
  by pat_completeness auto
termination by (relation "measure (\<lambda>(m, buf, probs, v). length buf)") auto

declare silero_segments.simps [simp del]

definition count_webrtc_dropped :: "'s vad \<Rightarrow> 's vad" where
  "count_webrtc_dropped v = v\<lparr>vd_stats := (vd_stats v)\<lparr>vs_webrtc_dropped := vs_webrtc_dropped (vd_stats v) + 1\<rparr>\<rparr>"

definition count_silero_dropped :: "'s vad \<Rightarrow> 's vad" where
  "count_silero_dropped v = v\<lparr>vd_stats := (vd_stats v)\<lparr>vs_silero_dropped := vs_silero_dropped (vd_stats v) + 1\<rparr>\<rparr>"

definition count_speech_passed :: "'s vad \<Rightarrow> 's vad" where
  "count_speech_passed v = v\<lparr>vd_stats := (vd_stats v)\<lparr>vs_speech_passed := vs_speech_passed (vd_stats v) + 1\<rparr>\<rparr>"

text \<open>Gate 1 said no speech.\<close>

definition vad_prefilter_drop :: "'s vad_models \<Rightarrow> vad_result \<Rightarrow> 's vad \<Rightarrow> vad_result \<times> 's vad" where
  "vad_prefilter_drop m r v =
     (let v = count_webrtc_dropped v;
          v = (if vd_silero_sess v then vad_reset_state m v else v);
          v = v\<lparr>vd_audio_buffer := Some []\<rparr>
      in if energy_threshold v \<le> vr_rms r then (r\<lparr>vr_pass := True\<rparr>, count_speech_passed v)
         else (r, push_noise (vr_rms r) v))"

text \<open>Gate 2.\<close>

definition vad_verify :: "'s vad_models \<Rightarrow> vad_result \<Rightarrow> chunk \<Rightarrow> 's vad \<Rightarrow> vad_result \<times> 's vad" where
  "vad_verify m r buf v =
     (let (probs, v) = silero_segments m buf [] v;
          max_prob = (case probs of [] \<Rightarrow> 0 | p # ps \<Rightarrow> py_max p ps);
          v = v\<lparr>vd_stats := (vd_stats v)\<lparr>vs_silero_probs := vs_silero_probs (vd_stats v) @ [max_prob]\<rparr>\<rparr>;
          r = r\<lparr>vr_silero_prob := max_prob, vr_silero_pass := (SILERO_THRESHOLD \<le> max_prob)\<rparr>;
          (r, v) = (if vr_silero_pass r \<or> energy_threshold v \<le> vr_rms r
                    then (r\<lparr>vr_pass := True\<rparr>, count_speech_passed v)
                    else (r, push_noise (vr_rms r) (count_silero_dropped v)))
      in (r, v\<lparr>vd_last_speech_pass := vr_pass r\<rparr>))"

definition process_chunk :: "'s vad_models \<Rightarrow> chunk \<Rightarrow> 's vad \<Rightarrow> py_exc + (vad_result \<times> 's vad)" where
  "process_chunk m chunk v =
     (case chunk of
        [] \<Rightarrow> Inl (ValueError ''zero-size array to reduction operation maximum'')
      | x # xs \<Rightarrow>
          let rms = vm_rms m chunk;
              r = \<lparr>vr_webrtc = False, vr_silero_prob = 0, vr_silero_pass = False, vr_rms = rms,
                   vr_peak = py_max \<bar>x\<bar> (map abs xs), vr_pass = False\<rparr>
          in if rms < 1/10000 then Inr (r, count_webrtc_dropped v)
             else case vd_audio_buffer v of
                    None \<Rightarrow> Inl (OtherException ''AttributeError: _audio_buffer'')
                  | Some b \<Rightarrow>
                      let buf = b @ chunk;
                          v = v\<lparr>vd_audio_buffer := Some buf\<rparr>;
                          speech = (case vm_webrtc m (pcm_frame chunk) of Inl e \<Rightarrow> True | Inr s \<Rightarrow> s);
                          r = r\<lparr>vr_webrtc := speech\<rparr>
                      in Inr (if \<not> speech then vad_prefilter_drop m r v
                              else if \<not> vd_silero_sess v
                                then (r\<lparr>vr_pass := True\<rparr>, count_speech_passed v)
                              else vad_verify m r buf v))"

section \<open>Lemmas\<close>

lemmas vad_count_defs = count_webrtc_dropped_def count_silero_dropped_def count_speech_passed_def

lemma noise_floor_min: "RMS_FLOOR \<le> adaptive_noise_floor v"
  by (simp add: adaptive_noise_floor_def)

lemma energy_threshold_min: "9/1000 \<le> energy_threshold v"
  using noise_floor_min [of v] by (simp add: energy_threshold_def settings le_max_iff_disj)

definition noise_wf :: "'s vad \<Rightarrow> bool" where
  "noise_wf v \<longleftrightarrow> length (vd_noise_rms_history v) \<le> NOISE_HISTORY_FRAMES"

lemma push_noise_last_n:
  "noise_wf v \<Longrightarrow> vd_noise_rms_history (push_noise r v) =
     last_n NOISE_HISTORY_FRAMES (vd_noise_rms_history v @ [r])"
  using last_n_pop [of "vd_noise_rms_history v" NOISE_HISTORY_FRAMES r]
  by (simp add: noise_wf_def push_noise_def Let_def settings)

interpretation noise_log: bounded_log push_noise vd_noise_rms_history NOISE_HISTORY_FRAMES noise_wf
proof unfold_locales
  show "noise_wf s \<Longrightarrow> noise_wf (push_noise x s)" for x and s :: "'a vad"
    by (simp add: noise_wf_def push_noise_def Let_def settings)
qed (simp_all add: push_noise_last_n noise_wf_def settings)

lemma silero_segments_frame:
  "vd_noise_rms_history (snd (silero_segments m buf probs v)) = vd_noise_rms_history v
   \<and> vd_stats (snd (silero_segments m buf probs v)) = vd_stats v
   \<and> vd_fsm (snd (silero_segments m buf probs v)) = vd_fsm v
   \<and> vd_silero_sess (snd (silero_segments m buf probs v)) = vd_silero_sess v
   \<and> (\<exists>rest. vd_audio_buffer (snd (silero_segments m buf probs v)) = Some rest \<and> length rest < 512)"
proof (induction m buf probs v rule: silero_segments.induct)
  case (1 m buf probs v)
  show ?case
  proof (cases "512 \<le> length buf")
    case True
    obtain p v' where r: "run_silero m (take 512 buf) v = (p, v')" by fastforce
    then have v': "vd_noise_rms_history v' = vd_noise_rms_history v" "vd_stats v' = vd_stats v"
      "vd_fsm v' = vd_fsm v" "vd_silero_sess v' = vd_silero_sess v"
      by (auto simp: run_silero_def Let_def split: prod.splits)
    from "1.IH" [OF True r [symmetric] refl] True r v' show ?thesis
      by (subst (1 2 3 4 5) silero_segments.simps) simp
  next
    case False
    then show ?thesis by (subst (1 2 3 4 5) silero_segments.simps) simp
  qed
qed

lemma energy_threshold_cong:
  "vd_noise_rms_history v = vd_noise_rms_history v' \<Longrightarrow> energy_threshold v = energy_threshold v'"
  by (simp add: energy_threshold_def adaptive_noise_floor_def)

definition webrtc_speech :: "'s vad_models \<Rightarrow> chunk \<Rightarrow> bool" where
  "webrtc_speech m chunk = (case vm_webrtc m (pcm_frame chunk) of Inl e \<Rightarrow> True | Inr s \<Rightarrow> s)"

definition vad_ready :: "'s vad \<Rightarrow> bool" where
  "vad_ready v \<longleftrightarrow> vd_audio_buffer v \<noteq> None \<and> noise_wf v"

lemma vad_ready_new [ava_inv]: "vad_ready (new_vad m True)"
  by (simp add: vad_ready_def new_vad_def vad_reset_state_def noise_wf_def Let_def)

lemma vad_reset_state_fields [simp]:
  "vd_noise_rms_history (vad_reset_state m v) = vd_noise_rms_history v"
  "vd_fsm (vad_reset_state m v) = vd_fsm v"
  "vd_stats (vad_reset_state m v) = vd_stats v"
  "vd_silero_sess (vad_reset_state m v) = vd_silero_sess v"
  "vd_audio_buffer (vad_reset_state m v) = Some []"
  by (simp_all add: vad_reset_state_def Let_def)

lemma vad_ready_reset_state [ava_inv]: "noise_wf v \<Longrightarrow> vad_ready (vad_reset_state m v)"
  by (simp add: vad_ready_def noise_wf_def)

lemma energy_threshold_simps [simp]:
  "energy_threshold (vad_reset_state m v) = energy_threshold v"
  "energy_threshold (v\<lparr>vd_audio_buffer := b\<rparr>) = energy_threshold v"
  "energy_threshold (v\<lparr>vd_stats := t\<rparr>) = energy_threshold v"
  by (rule energy_threshold_cong, simp)+

text \<open>What one gate after the silence gate does: the decision and the noise history.\<close>

definition vad_post :: "bool \<Rightarrow> vad_result \<Rightarrow> 's vad \<Rightarrow> vad_result \<times> 's vad \<Rightarrow> bool" where
  "vad_post p r v out \<longleftrightarrow>
     (vr_pass (fst out) \<longleftrightarrow> p)
   \<and> vd_noise_rms_history (snd out) =
       (if p then vd_noise_rms_history v else last_n NOISE_HISTORY_FRAMES (vd_noise_rms_history v @ [vr_rms r]))
   \<and> vd_fsm (snd out) = vd_fsm v \<and> vd_silero_sess (snd out) = vd_silero_sess v
   \<and> vd_audio_buffer (snd out) \<noteq> None
   \<and> (vd_silero_sess v \<longrightarrow> (\<exists>b. vd_audio_buffer (snd out) = Some b \<and> length b < 512))"

lemma push_noise_fields [simp]:
  "vd_fsm (push_noise r v) = vd_fsm v" "vd_silero_sess (push_noise r v) = vd_silero_sess v"
  "vd_audio_buffer (push_noise r v) = vd_audio_buffer v" "vd_stats (push_noise r v) = vd_stats v"
  by (simp_all add: push_noise_def Let_def)

lemma vad_prefilter_post:
  assumes "noise_wf v" "\<not> vr_pass r"
  shows "vad_post (energy_threshold v \<le> vr_rms r) r v (vad_prefilter_drop m r v)"
proof -
  define w where "w = (let v = count_webrtc_dropped v; v = (if vd_silero_sess v then vad_reset_state m v else v)
      in v\<lparr>vd_audio_buffer := Some []\<rparr>)"
  have w: "vd_noise_rms_history w = vd_noise_rms_history v" "vd_fsm w = vd_fsm v"
    "vd_silero_sess w = vd_silero_sess v" "vd_audio_buffer w = Some []"
    by (simp_all add: w_def count_webrtc_dropped_def Let_def)
  have t: "energy_threshold w = energy_threshold v" by (rule energy_threshold_cong) (rule w)
  have nw: "noise_wf w" using assms(1) by (simp add: noise_wf_def w)
  have "vad_prefilter_drop m r v = (if energy_threshold w \<le> vr_rms r
      then (r\<lparr>vr_pass := True\<rparr>, count_speech_passed w) else (r, push_noise (vr_rms r) w))"
    by (simp add: vad_prefilter_drop_def w_def Let_def)
  with assms(2) show ?thesis
    by (simp add: vad_post_def w t push_noise_last_n [OF nw] count_speech_passed_def)
qed

lemma vad_verify_post:
  assumes "noise_wf v" "\<not> vr_pass r"
  shows "vad_post (SILERO_THRESHOLD \<le> vr_silero_prob (fst (vad_verify m r buf v)) \<or> energy_threshold v \<le> vr_rms r)
           r v (vad_verify m r buf v)"
proof -
  obtain probs w where s: "silero_segments m buf [] v = (probs, w)" by fastforce
  then obtain rest where w: "vd_noise_rms_history w = vd_noise_rms_history v" "vd_fsm w = vd_fsm v"
    "vd_silero_sess w = vd_silero_sess v" "vd_audio_buffer w = Some rest" "length rest < 512"
    using silero_segments_frame [of m buf "[]" v] by auto
  have t: "energy_threshold w = energy_threshold v" by (rule energy_threshold_cong) (rule w)
  have h: "length (vd_noise_rms_history v) \<le> NOISE_HISTORY_FRAMES" using assms(1) by (simp add: noise_wf_def)
  show ?thesis
    using assms(2) h
    by (auto simp: vad_verify_def s Let_def vad_post_def w t push_noise_last_n noise_wf_def vad_count_defs)
qed

lemma process_chunk_cases:
  assumes "chunk \<noteq> []" "vad_ready v"
  shows "\<exists>r v'. process_chunk m chunk v = Inr (r, v') \<and> vr_rms r = vm_rms m chunk \<and>
     (if vm_rms m chunk < 1/10000 then \<not> vr_pass r \<and> v' = count_webrtc_dropped v
      else \<exists>p. vad_post p (r\<lparr>vr_rms := vm_rms m chunk\<rparr>) v (r, v') \<and>
        (p \<longleftrightarrow> energy_threshold v \<le> vm_rms m chunk
             \<or> (webrtc_speech m chunk \<and> (\<not> vd_silero_sess v \<or> SILERO_THRESHOLD \<le> vr_silero_prob r))))"
proof -
  obtain x xs where c: "chunk = x # xs" using assms(1) by (cases chunk) auto
  obtain b where b: "vd_audio_buffer v = Some b" and nw: "noise_wf v"
    using assms(2) by (auto simp: vad_ready_def)
  define r0 where "r0 = \<lparr>vr_webrtc = webrtc_speech m chunk, vr_silero_prob = 0, vr_silero_pass = False,
      vr_rms = vm_rms m chunk, vr_peak = py_max \<bar>x\<bar> (map abs xs), vr_pass = False\<rparr>"
  define w where "w = v\<lparr>vd_audio_buffer := Some (b @ chunk)\<rparr>"
  have w: "vd_noise_rms_history w = vd_noise_rms_history v" "vd_fsm w = vd_fsm v"
    "vd_silero_sess w = vd_silero_sess v" "energy_threshold w = energy_threshold v" "noise_wf w"
    using nw by (simp_all add: w_def noise_wf_def)
  have r0: "\<not> vr_pass r0" "vr_rms r0 = vm_rms m chunk" "vr_silero_prob r0 = 0" by (simp_all add: r0_def)
  show ?thesis
  proof (cases "vm_rms m chunk < 1/10000")
    case True
    then show ?thesis by (auto simp: process_chunk_def c Let_def)
  next
    case False
    have eq: "process_chunk m chunk v = Inr (if \<not> webrtc_speech m chunk then vad_prefilter_drop m r0 w
        else if \<not> vd_silero_sess w then (r0\<lparr>vr_pass := True\<rparr>, count_speech_passed w)
        else vad_verify m r0 (b @ chunk) w)"
      using False by (simp add: process_chunk_def c b Let_def r0_def w_def webrtc_speech_def)
    have rms1: "vr_rms (fst (vad_prefilter_drop m r0 w)) = vm_rms m chunk"
      by (simp add: vad_prefilter_drop_def Let_def r0)
    have rms2: "vr_rms (fst (vad_verify m r0 (b @ chunk) w)) = vm_rms m chunk"
      by (simp add: vad_verify_def Let_def r0 split: prod.splits)
    consider (a) "\<not> webrtc_speech m chunk" | (b) "webrtc_speech m chunk" "\<not> vd_silero_sess w"
      | (c) "webrtc_speech m chunk" "vd_silero_sess w" by blast
    then show ?thesis
    proof cases
      case a
      obtain r v' where o: "vad_prefilter_drop m r0 w = (r, v')" by fastforce
      from vad_prefilter_post [OF w(5) r0(1), of m] rms1 False a eq show ?thesis
        by (auto simp: o vad_post_def w r0)
    next
      case b
      then show ?thesis using False eq by (auto simp: vad_post_def w r0 count_speech_passed_def w_def)
    next
      case c
      obtain r v' where o: "vad_verify m r0 (b @ chunk) w = (r, v')" by fastforce
      from vad_verify_post [OF w(5) r0(1), of m "b @ chunk"] rms2 False c eq show ?thesis
        by (auto simp: o vad_post_def w r0)
    qed
  qed
qed

text \<open>What an accepted call keeps.\<close>

lemma process_chunk_ready:
  assumes "vad_ready v" "process_chunk m chunk v = Inr (r, v')"
  shows "vad_ready v' \<and> vd_fsm v' = vd_fsm v \<and> vd_silero_sess v' = vd_silero_sess v"
proof -
  have ne: "chunk \<noteq> []" using assms(2) by (auto simp: process_chunk_def)
  show ?thesis
    using process_chunk_cases [OF ne assms(1), of m] assms
    by (auto simp: vad_post_def vad_ready_def noise_wf_def count_webrtc_dropped_def settings
        split: if_splits)
qed

lemma process_chunk_total:
  "vad_ready v \<Longrightarrow> chunk \<noteq> [] \<Longrightarrow> \<exists>r v'. process_chunk m chunk v = Inr (r, v') \<and> vad_ready v'"
  using process_chunk_cases [of chunk v m] process_chunk_ready [of v m chunk] by blast

section \<open>Properties\<close>

text \<open>C13: a chunk passes the detector exactly when it is not digital silence and either its energy
  reaches the adaptive threshold, or WebRTC hears speech and Silero is absent or at least as sure as
  \<open>SILERO_THRESHOLD\<close>; the threshold is never below 0.009; only rejected chunks that are not
  silent enter the noise history, which keeps the last \<open>NOISE_HISTORY_FRAMES\<close> of them; and with a
  Silero session less than one 512-sample segment stays buffered after a chunk.\<close>

theorem vad_pass_exact:
  assumes "vad_ready v" "chunk \<noteq> []"
  shows "\<exists>r v'. process_chunk m chunk v = Inr (r, v') \<and> vad_ready v'
     \<and> (vr_pass r \<longleftrightarrow> 1/10000 \<le> vm_rms m chunk \<and>
          (energy_threshold v \<le> vm_rms m chunk
           \<or> (webrtc_speech m chunk \<and> (\<not> vd_silero_sess v \<or> SILERO_THRESHOLD \<le> vr_silero_prob r))))
     \<and> 9/1000 \<le> energy_threshold v
     \<and> vd_noise_rms_history v' =
         (if 1/10000 \<le> vm_rms m chunk \<and> \<not> vr_pass r
          then last_n NOISE_HISTORY_FRAMES (vd_noise_rms_history v @ [vm_rms m chunk])
          else vd_noise_rms_history v)
     \<and> (vd_silero_sess v \<and> 1/10000 \<le> vm_rms m chunk \<longrightarrow>
          (\<exists>b. vd_audio_buffer v' = Some b \<and> length b < 512))"
proof -
  obtain r v' where o: "process_chunk m chunk v = Inr (r, v')" "vr_rms r = vm_rms m chunk"
    and c: "if vm_rms m chunk < 1/10000 then \<not> vr_pass r \<and> v' = count_webrtc_dropped v
      else \<exists>p. vad_post p (r\<lparr>vr_rms := vm_rms m chunk\<rparr>) v (r, v') \<and>
        (p \<longleftrightarrow> energy_threshold v \<le> vm_rms m chunk
             \<or> (webrtc_speech m chunk \<and> (\<not> vd_silero_sess v \<or> SILERO_THRESHOLD \<le> vr_silero_prob r)))"
    using process_chunk_cases [OF assms(2,1), of m] by blast
  have rd: "vad_ready v'" using process_chunk_ready [OF assms(1) o(1)] by blast
  show ?thesis
  proof (intro exI [of _ r] exI [of _ v'] conjI)
    show "9/1000 \<le> energy_threshold v" by (rule energy_threshold_min)
  qed (use o(1) rd c in \<open>auto simp: vad_post_def count_webrtc_dropped_def split: if_splits\<close>)
qed

text \<open>Models that hear speech in everything.\<close>

definition toy_vad_models :: "unit vad_models" where
  "toy_vad_models = \<lparr>vm_webrtc = (\<lambda>_. Inr True), vm_silero = (\<lambda>s _. (9/10, s)), vm_silero_zero = (),
     vm_rms = (\<lambda>c. hd c)\<rparr>"

theorem vad_pass_exact_witness:
  "\<exists>r v'. process_chunk toy_vad_models [1/100] (new_vad toy_vad_models True) = Inr (r, v')
     \<and> vr_pass r \<and> vad_ready v'"
proof -
  have e: "energy_threshold (new_vad toy_vad_models True) \<le> vm_rms toy_vad_models [1/100]"
    by (simp add: energy_threshold_def adaptive_noise_floor_def new_vad_def vad_reset_state_def
        toy_vad_models_def settings)
  have big: "1/10000 \<le> vm_rms toy_vad_models [1/100]" by (simp add: toy_vad_models_def)
  have ne: "[1/100 :: rat] \<noteq> []" by simp
  from vad_pass_exact [OF vad_ready_new ne, of toy_vad_models toy_vad_models] e big
  show ?thesis by blast
qed

text \<open>C30: the WebRTC-only fallback does not work until a stream reset: without the Silero model file the
  constructor leaves \<open>_audio_buffer\<close> unset, so the first chunk that is not digital silence makes
  \<open>process_chunk\<close> raise \<open>AttributeError\<close> (which ends the worker thread), while after one
  \<open>reset_state\<close> the same chunk is processed.\<close>

theorem vad_fallback_raises:
  assumes "chunk \<noteq> []" "1/10000 \<le> vm_rms m chunk"
  shows "process_chunk m chunk (new_vad m False) = Inl (OtherException ''AttributeError: _audio_buffer'')
     \<and> (\<exists>r v'. process_chunk m chunk (vad_reset_state m (new_vad m False)) = Inr (r, v'))"
proof (intro conjI)
  show "process_chunk m chunk (new_vad m False) = Inl (OtherException ''AttributeError: _audio_buffer'')"
    using assms by (cases chunk) (auto simp: process_chunk_def new_vad_def Let_def)
  have "noise_wf (new_vad m False)" by (simp add: noise_wf_def new_vad_def Let_def)
  then have "vad_ready (vad_reset_state m (new_vad m False))" by (rule vad_ready_reset_state)
  from process_chunk_total [OF this assms(1)]
  show "\<exists>r v'. process_chunk m chunk (vad_reset_state m (new_vad m False)) = Inr (r, v')" by blast
qed

theorem vad_fallback_raises_witness:
  "process_chunk toy_vad_models [1/100] (new_vad toy_vad_models False) =
     Inl (OtherException ''AttributeError: _audio_buffer'')"
  using vad_fallback_raises [of "[1/100]" toy_vad_models] by (simp add: toy_vad_models_def)

end
