(* ===== verification/Audio_Worker.thy ===== *)
theory Audio_Worker
  imports Hybrid_VAD
begin

text \<open>
  \<^verbatim>\<open>src/runtime/audio/worker.py\<close>: the consumer thread that takes a chunk from the queue, runs the
  detector and the speech-state hysteresis, feeds and decodes the recognizer, and delivers a
  hypothesis. One iteration of the loop is one definition, composed of the blocks the code marks.
  The worker's references to the provider, the detector, the ASR lifecycle and the queue are fields
  of one pipeline record, since they are shared with the streamer. The clock readings of an
  iteration, the fresh correlation id and the outcome of \<open>create_stream\<close> (called at most once in an
  iteration) are its input. The performance counters are not modelled.
\<close>

section \<open>State\<close>

record worker =
  aw_is_speaking :: bool
  aw_consecutive_speech :: nat
  aw_consecutive_silence :: nat
  aw_has_spoken_in_generation :: bool
  aw_utterance_start_time :: time_s
  aw_last_valid_speech_duration :: pyfloat
  aw_trailing_pad :: nat
  aw_last_hypothesis :: string
  aw_stable_frames :: nat
  aw_peak_hypothesis :: string
  aw_peak_length :: nat
  aw_pre_buffer :: "chunk list"
  aw_correlation_id :: string
  aw_heartbeat :: time_s
  aw_processing_active :: bool
  aw_last_qsize_log :: time_s

definition new_worker :: "time_s \<Rightarrow> worker" where
  "new_worker now = \<lparr>aw_is_speaking = False, aw_consecutive_speech = 0, aw_consecutive_silence = 0,
     aw_has_spoken_in_generation = False, aw_utterance_start_time = now,
     aw_last_valid_speech_duration = 0, aw_trailing_pad = 0, aw_last_hypothesis = '''',
     aw_stable_frames = 0, aw_peak_hypothesis = '''', aw_peak_length = 0, aw_pre_buffer = [],
     aw_correlation_id = ''init-0'', aw_heartbeat = now, aw_processing_active = False,
     aw_last_qsize_log = now\<rparr>"

definition aw_reset_state :: "time_s \<Rightarrow> worker \<Rightarrow> worker" where
  "aw_reset_state now w = w\<lparr>aw_is_speaking := False, aw_consecutive_speech := 0,
     aw_consecutive_silence := 0, aw_has_spoken_in_generation := False,
     aw_utterance_start_time := now, aw_trailing_pad := 0, aw_last_hypothesis := '''',
     aw_stable_frames := 0, aw_peak_hypothesis := '''', aw_peak_length := 0\<rparr>"

record ('o, 's) pipe =
  pp_worker :: worker
  pp_provider :: "'o provider"
  pp_vad :: "'s vad"
  pp_asr_fsm :: subsystem_lifecycle
  pp_queue :: audio_queue

record 'o aw_input =
  wi_t_dequeue :: time_s
  wi_t_speech :: time_s
  wi_t_silence :: time_s
  wi_t_timeout :: time_s
  wi_t_reset :: time_s
  wi_t_state :: time_s
  wi_t_diag :: time_s
  wi_uuid :: string
  wi_created :: "py_exc + 'o"

record delivery =
  dl_text :: string
  dl_stability :: nat
  dl_peak :: string
  dl_generation_id :: nat
  dl_correlation_id :: string

section \<open>The blocks of one iteration\<close>

text \<open>Entering the loop.\<close>

definition aw_enter :: "subsystem_lifecycle \<Rightarrow> py_exc + subsystem_lifecycle" where
  "aw_enter l =
     (if sl_state l = SS_READY then sub_transition SS_ACTIVE l
      else if sl_state l = SS_ACTIVE then Inr l
      else Inl (RuntimeError (''AudioWorker started in invalid FSM state: '' @ subsystem_value (sl_state l))))"

text \<open>Feeding a list of chunks: the flush of the pre-roll buffer.\<close>

fun accept_all ::
  "'o recognizer \<Rightarrow> time_s \<times> (py_exc + 'o) \<Rightarrow> chunk list \<Rightarrow> 'o provider \<Rightarrow> (py_exc + unit) \<times> 'o provider" where
  "accept_all rz i [] p = (Inr (), p)"
| "accept_all rz i (c # cs) p =
     (case sp_accept rz i SAMPLE_RATE c p of
        (Inl e, p') \<Rightarrow> (Inl e, p')
      | (Inr _, p') \<Rightarrow> accept_all rz i cs p')"

definition pre_buffer_push :: "chunk \<Rightarrow> worker \<Rightarrow> worker" where
  "pre_buffer_push c w =
     (let b = aw_pre_buffer w @ [c] in w\<lparr>aw_pre_buffer := (if 5 < length b then tl b else b)\<rparr>)"

definition aw_hysteresis ::
  "'o recognizer \<Rightarrow> 'o aw_input \<Rightarrow> bool \<Rightarrow> worker \<Rightarrow> 'o provider \<Rightarrow> (py_exc + unit) \<times> worker \<times> 'o provider" where
  "aw_hysteresis rz i chunk_speech w p =
     (if chunk_speech
      then let w = w\<lparr>aw_consecutive_speech := aw_consecutive_speech w + 1, aw_consecutive_silence := 0\<rparr>
           in if MIN_SPEECH_FRAMES \<le> aw_consecutive_speech w \<and> \<not> aw_is_speaking w
              then let w = w\<lparr>aw_is_speaking := True, aw_utterance_start_time := wi_t_speech i,
                             aw_has_spoken_in_generation := True, aw_correlation_id := wi_uuid i\<rparr>
                   in case accept_all rz (wi_t_reset i, wi_created i) (aw_pre_buffer w) p of
                        (Inl e, p') \<Rightarrow> (Inl e, w, p')
                      | (Inr _, p') \<Rightarrow> (Inr (), w\<lparr>aw_pre_buffer := []\<rparr>, p')
              else (Inr (), w, p)
      else let w = w\<lparr>aw_consecutive_silence := aw_consecutive_silence w + 1, aw_consecutive_speech := 0\<rparr>
           in if MIN_SILENCE_FRAMES \<le> aw_consecutive_silence w \<and> aw_is_speaking w
              then (Inr (), w\<lparr>aw_is_speaking := False,
                      aw_last_valid_speech_duration := (wi_t_silence i - aw_utterance_start_time w) * 1000\<rparr>, p)
              else (Inr (), w, p))"

definition partial_tokens :: "string list" where
  "partial_tokens = [''wake'', ''listen'', ''hey'', ''ar'', ''arv'', ''arbe'', ''wake up'']"

definition silence_timeout :: "worker \<Rightarrow> nat" where
  "silence_timeout w =
     (if list_ex (\<lambda>tok. sublist tok (aw_last_hypothesis w)) partial_tokens then 25 else 18)"

text \<open>The lifecycle moves of a reset, shared by the worker and the streamer: \<open>recover\<close> on both machines,
  and later back to ACTIVE.\<close>

definition fsm_recover :: "string \<Rightarrow> subsystem_lifecycle \<Rightarrow> py_exc + subsystem_lifecycle" where
  "fsm_recover reason l = (if reason \<noteq> ''silence'' then sub_recover l else Inr l)"

definition fsm_reactivate :: "string \<Rightarrow> subsystem_lifecycle \<Rightarrow> py_exc + subsystem_lifecycle" where
  "fsm_reactivate reason l =
     (if reason \<noteq> ''silence'' \<and> sl_state l = SS_RECOVERING then sub_transition SS_ACTIVE l else Inr l)"

definition aw_fsm_moves ::
  "string \<Rightarrow> time_s \<Rightarrow> ('o, 's) pipe \<Rightarrow> (py_exc + unit) \<times> ('o, 's) pipe" where
  "aw_fsm_moves reason t_state s =
     (case sbind (fsm_recover reason (pp_asr_fsm s)) (\<lambda>a.
           sbind (fsm_recover reason (vd_fsm (pp_vad s))) (\<lambda>v. Inr (a, v))) of
        Inl e \<Rightarrow> (Inl e, s)
      | Inr (a, v) \<Rightarrow>
          let s = s\<lparr>pp_asr_fsm := a, pp_vad := (pp_vad s)\<lparr>vd_fsm := v\<rparr>,
                    pp_worker := aw_reset_state t_state (pp_worker s)\<rparr>
          in case sbind (fsm_reactivate reason a) (\<lambda>a. sbind (fsm_reactivate reason v) (\<lambda>v. Inr (a, v))) of
               Inl e \<Rightarrow> (Inl e, s)
             | Inr (a, v) \<Rightarrow> (Inr (), s\<lparr>pp_asr_fsm := a, pp_vad := (pp_vad s)\<lparr>vd_fsm := v\<rparr>\<rparr>))"

definition aw_do_stream_reset ::
  "'o aw_input \<Rightarrow> string \<Rightarrow> ('o, 's) pipe \<Rightarrow> (py_exc + unit) \<times> ('o, 's) pipe" where
  "aw_do_stream_reset i reason s =
     (let (r, p) = sp_reset (wi_t_reset i, wi_created i) (pp_provider s);
          s = s\<lparr>pp_provider := p\<rparr>
      in case r of
           Inl e \<Rightarrow> (Inl e, s)
         | Inr _ \<Rightarrow> aw_fsm_moves reason (wi_t_state i) s)"

text \<open>The silence timeout: only the chunk at which the counter equals the timeout may reset.\<close>

definition aw_timeout :: "'o aw_input \<Rightarrow> ('o, 's) pipe \<Rightarrow> (py_exc + unit) \<times> ('o, 's) pipe" where
  "aw_timeout i s =
     (let w = pp_worker s in
      if aw_consecutive_silence w = silence_timeout w \<and> aw_has_spoken_in_generation w
         \<and> RESET_COOLDOWN_SECONDS \<le> wi_t_timeout i - sp_last_reset_time (pp_provider s)
      then aw_do_stream_reset i ''inactivity'' s else (Inr (), s))"

definition aw_feed ::
  "'o recognizer \<Rightarrow> 'o aw_input \<Rightarrow> chunk \<Rightarrow> worker \<Rightarrow> 'o provider \<Rightarrow> (py_exc + unit) \<times> worker \<times> 'o provider" where
  "aw_feed rz i c w p =
     (if aw_is_speaking w
      then (case sp_accept rz (wi_t_reset i, wi_created i) SAMPLE_RATE c p of
              (Inl e, p') \<Rightarrow> (Inl e, w, p')
            | (Inr _, p') \<Rightarrow> (Inr (), w\<lparr>aw_trailing_pad := 0\<rparr>, p'))
      else if aw_trailing_pad w < TRAILING_PAD_FRAMES
      then (case sp_accept rz (wi_t_reset i, wi_created i) SAMPLE_RATE c p of
              (Inl e, p') \<Rightarrow> (Inl e, w, p')
            | (Inr _, p') \<Rightarrow> (Inr (), w\<lparr>aw_trailing_pad := aw_trailing_pad w + 1\<rparr>, p'))
      else (Inr (), w, p))"

definition aw_track :: "string \<Rightarrow> worker \<Rightarrow> worker" where
  "aw_track result w =
     (let w = (if aw_peak_length w < length result
               then w\<lparr>aw_peak_hypothesis := result, aw_peak_length := length result\<rparr> else w)
      in if result = aw_last_hypothesis w then w\<lparr>aw_stable_frames := aw_stable_frames w + 1\<rparr>
         else w\<lparr>aw_stable_frames := 0, aw_last_hypothesis := result\<rparr>)"

definition aw_deliver :: "string \<Rightarrow> 'o provider \<Rightarrow> worker \<Rightarrow> delivery option" where
  "aw_deliver result p w =
     (let d = \<lparr>dl_text = result, dl_stability = aw_stable_frames w, dl_peak = aw_peak_hypothesis w,
               dl_generation_id = sp_generation_id p, dl_correlation_id = aw_correlation_id w\<rparr>
      in if aw_is_speaking w then Some d
         else if aw_trailing_pad w \<le> TRAILING_PAD_FRAMES then Some d else None)"

definition aw_diag :: "'o aw_input \<Rightarrow> ('o, 's) pipe \<Rightarrow> ('o, 's) pipe" where
  "aw_diag i s =
     (if 30 \<le> wi_t_diag i - aw_last_qsize_log (pp_worker s)
      then s\<lparr>pp_worker := (pp_worker s)\<lparr>aw_last_qsize_log := wi_t_diag i\<rparr>, pp_queue := aq_reset_warn (pp_queue s)\<rparr>
      else s)"

text \<open>The rest of the iteration after the timeout check. \<open>None\<close>: the decoding loop never ends.\<close>

definition aw_transcribe ::
  "'o recognizer \<Rightarrow> 'o aw_input \<Rightarrow> chunk \<Rightarrow> ('o, 's) pipe \<Rightarrow> ((py_exc + delivery option) \<times> ('o, 's) pipe) option" where
  "aw_transcribe rz i c s =
     (case aw_feed rz i c (pp_worker s) (pp_provider s) of
        (Inl e, w, p) \<Rightarrow> Some (Inl e, s\<lparr>pp_worker := w, pp_provider := p\<rparr>)
      | (Inr _, w, p) \<Rightarrow>
          let s = aw_diag i (s\<lparr>pp_worker := w, pp_provider := p\<rparr>) in
          (case sp_decode rz (pp_provider s) of
             None \<Rightarrow> None
           | Some (ready_count, p) \<Rightarrow>
               let s = s\<lparr>pp_provider := p\<rparr>; result = sp_result rz p in
               if result = '''' then Some (Inr None, s)
               else let w = aw_track result (pp_worker s)
                    in Some (Inr (aw_deliver result p w), s\<lparr>pp_worker := w\<rparr>)))"

definition aw_process ::
  "'o recognizer \<Rightarrow> 's vad_models \<Rightarrow> 'o aw_input \<Rightarrow> chunk \<Rightarrow> ('o, 's) pipe
     \<Rightarrow> ((py_exc + delivery option) \<times> ('o, 's) pipe) option" where
  "aw_process rz m i c s =
     (case process_chunk m c (pp_vad s) of
        Inl e \<Rightarrow> Some (Inl e, s)
      | Inr (vad_res, v) \<Rightarrow>
          case aw_hysteresis rz i (vr_pass vad_res) (pp_worker s) (pp_provider s) of
            (Inl e, w, p) \<Rightarrow> Some (Inl e, s\<lparr>pp_vad := v, pp_worker := w, pp_provider := p\<rparr>)
          | (Inr _, w, p) \<Rightarrow>
              let w = (if \<not> aw_is_speaking w then pre_buffer_push c w else w);
                  s = s\<lparr>pp_vad := v, pp_worker := w, pp_provider := p\<rparr>
              in if silence_timeout w \<le> aw_consecutive_silence w
                 then (case aw_timeout i s of
                         (Inl e, s) \<Rightarrow> Some (Inl e, s)
                       | (Inr _, s) \<Rightarrow> Some (Inr None, s))
                 else aw_transcribe rz i c s)"

text \<open>One pass of the \<open>while\<close> loop: an empty queue only moves the heartbeat.\<close>

definition aw_iteration ::
  "'o recognizer \<Rightarrow> 's vad_models \<Rightarrow> 'o aw_input \<Rightarrow> ('o, 's) pipe
     \<Rightarrow> ((py_exc + delivery option) \<times> ('o, 's) pipe) option" where
  "aw_iteration rz m i s =
     (let (c, q) = aq_dequeue (pp_queue s);
          s = s\<lparr>pp_queue := q,
                pp_worker := (pp_worker s)\<lparr>aw_processing_active := False, aw_heartbeat := wi_t_dequeue i\<rparr>\<rparr>
      in case c of
           None \<Rightarrow> Some (Inr None, s)
         | Some c \<Rightarrow>
             aw_process rz m i c (s\<lparr>pp_worker := (pp_worker s)\<lparr>aw_processing_active := True\<rparr>\<rparr>))"

section \<open>Invariants\<close>

definition pre_wf :: "worker \<Rightarrow> bool" where
  "pre_wf w \<longleftrightarrow> length (aw_pre_buffer w) \<le> 5"

interpretation preroll: bounded_log pre_buffer_push aw_pre_buffer 5 pre_wf
proof unfold_locales
  show "pre_wf s \<Longrightarrow> aw_pre_buffer (pre_buffer_push x s) = last_n 5 (aw_pre_buffer s @ [x])" for s x
    using last_n_pop [of "aw_pre_buffer s" 5 x] by (simp add: pre_buffer_push_def pre_wf_def Let_def)
  show "pre_wf s \<Longrightarrow> pre_wf (pre_buffer_push x s)" for s x
    by (simp add: pre_buffer_push_def pre_wf_def Let_def)
qed (simp_all add: pre_wf_def)

definition aw_wf :: "worker \<Rightarrow> bool" where
  "aw_wf w \<longleftrightarrow> pre_wf w \<and> aw_trailing_pad w \<le> TRAILING_PAD_FRAMES
     \<and> aw_peak_length w = length (aw_peak_hypothesis w)
     \<and> length (aw_last_hypothesis w) \<le> aw_peak_length w
     \<and> (aw_consecutive_speech w = 0 \<or> aw_consecutive_silence w = 0)
     \<and> (if aw_is_speaking w
        then aw_has_spoken_in_generation w \<and> aw_consecutive_silence w < MIN_SILENCE_FRAMES
        else aw_consecutive_speech w < MIN_SPEECH_FRAMES)"

definition pp_wf :: "('o, 's) pipe \<Rightarrow> bool" where
  "pp_wf s \<longleftrightarrow> aw_wf (pp_worker s) \<and> sp_has_stream (pp_provider s) \<and> vad_ready (pp_vad s)
     \<and> sl_state (pp_asr_fsm s) = SS_ACTIVE \<and> sl_state (vd_fsm (pp_vad s)) = SS_ACTIVE"

lemma aw_wf_new [ava_inv]: "aw_wf (new_worker now)"
  by (simp add: aw_wf_def new_worker_def pre_wf_def settings)

lemma aw_wf_reset_state [ava_inv]: "pre_wf w \<Longrightarrow> aw_wf (aw_reset_state now w)"
  by (simp add: aw_wf_def aw_reset_state_def pre_wf_def settings)

lemma pre_buffer_push_fields [simp]:
  "aw_is_speaking (pre_buffer_push c w) = aw_is_speaking w"
  "aw_consecutive_speech (pre_buffer_push c w) = aw_consecutive_speech w"
  "aw_consecutive_silence (pre_buffer_push c w) = aw_consecutive_silence w"
  "aw_has_spoken_in_generation (pre_buffer_push c w) = aw_has_spoken_in_generation w"
  "aw_trailing_pad (pre_buffer_push c w) = aw_trailing_pad w"
  "aw_last_hypothesis (pre_buffer_push c w) = aw_last_hypothesis w"
  "aw_peak_hypothesis (pre_buffer_push c w) = aw_peak_hypothesis w"
  "aw_peak_length (pre_buffer_push c w) = aw_peak_length w"
  "silence_timeout (pre_buffer_push c w) = silence_timeout w"
  by (simp_all add: pre_buffer_push_def silence_timeout_def Let_def)

lemma aw_wf_push [ava_inv]: "aw_wf w \<Longrightarrow> aw_wf (pre_buffer_push c w)"
  using preroll.push_inv [of w c] by (simp add: aw_wf_def)

text \<open>What feeding audio keeps of the provider, as long as a stream is open.\<close>

definition same_reset :: "'o provider \<Rightarrow> 'o provider \<Rightarrow> bool" where
  "same_reset p p' \<longleftrightarrow> sp_generation_id p' = sp_generation_id p \<and> sp_reset_count p' = sp_reset_count p
     \<and> sp_last_reset_time p' = sp_last_reset_time p \<and> sp_has_stream p' = sp_has_stream p"

lemma same_reset_refl [simp]: "same_reset p p"
  by (simp add: same_reset_def)

lemma same_reset_trans: "same_reset p q \<Longrightarrow> same_reset q r \<Longrightarrow> same_reset p r"
  by (simp add: same_reset_def)

lemma accept_open:
  assumes "sp_has_stream p"
  obtains p' where "sp_accept rz i sr c p = (Inr (), p')" "same_reset p p'"
  using assms sp_accept_open [of p _ rz i sr c] by (auto simp: sp_has_stream_def same_reset_def)

lemma accept_all_open:
  "sp_has_stream p \<Longrightarrow> \<exists>p'. accept_all rz i cs p = (Inr (), p') \<and> same_reset p p'"
proof (induction cs arbitrary: p)
  case (Cons c cs)
  obtain p1 where p1: "sp_accept rz i SAMPLE_RATE c p = (Inr (), p1)" "same_reset p p1"
    using accept_open [OF Cons.prems] by blast
  then obtain p2 where "accept_all rz i cs p1 = (Inr (), p2)" "same_reset p1 p2"
    using Cons.IH [of p1] Cons.prems by (auto simp: same_reset_def)
  with p1 show ?case by (auto intro: same_reset_trans)
qed simp

lemma hysteresis_open:
  assumes "sp_has_stream p" "aw_wf w"
  obtains w' p' where "aw_hysteresis rz i b w p = (Inr (), w', p')" "same_reset p p'" "aw_wf w'"
    "aw_consecutive_silence w' = (if b then 0 else aw_consecutive_silence w + 1)"
    "aw_consecutive_speech w' = (if b then aw_consecutive_speech w + 1 else 0)"
    "aw_is_speaking w' = (if b then aw_is_speaking w \<or> MIN_SPEECH_FRAMES \<le> aw_consecutive_speech w + 1
       else aw_is_speaking w \<and> aw_consecutive_silence w + 1 < MIN_SILENCE_FRAMES)"
    "aw_last_hypothesis w' = aw_last_hypothesis w"
    "aw_has_spoken_in_generation w' = (aw_has_spoken_in_generation w \<or> aw_is_speaking w')"
proof -
  obtain p' where p': "accept_all rz (wi_t_reset i, wi_created i) (aw_pre_buffer w) p = (Inr (), p')"
    "same_reset p p'" using accept_all_open [OF assms(1)] by blast
  show thesis
    by (rule that [of "fst (snd (aw_hysteresis rz i b w p))" "snd (snd (aw_hysteresis rz i b w p))"])
      (use assms p' in \<open>auto simp: aw_hysteresis_def aw_wf_def pre_wf_def settings Let_def\<close>)
qed

lemma fsm_reset_active:
  "sl_state l = SS_ACTIVE \<Longrightarrow>
     fsm_recover r l = Inr (if r \<noteq> ''silence'' then l\<lparr>sl_state := SS_RECOVERING\<rparr> else l)"
  by (simp add: fsm_recover_def sub_recover_eq)

lemma fsm_reactivate_recovering:
  "r \<noteq> ''silence'' \<Longrightarrow> fsm_reactivate r (l\<lparr>sl_state := SS_RECOVERING\<rparr>) = Inr (l\<lparr>sl_state := SS_ACTIVE\<rparr>)"
  by (simp add: fsm_reactivate_def sub_transition_def)

lemma fsm_moves_active:
  assumes "sl_state (pp_asr_fsm s) = SS_ACTIVE" "sl_state (vd_fsm (pp_vad s)) = SS_ACTIVE"
  shows "aw_fsm_moves reason t s = (Inr (), s\<lparr>pp_worker := aw_reset_state t (pp_worker s)\<rparr>)"
proof -
  have id: "l\<lparr>sl_state := SS_ACTIVE\<rparr> = l" if "sl_state l = SS_ACTIVE" for l :: subsystem_lifecycle
    using that by (cases l) simp
  have id2: "(pp_vad s)\<lparr>vd_fsm := vd_fsm (pp_vad s)\<rparr> = pp_vad s" by (cases "pp_vad s") simp
  have id3: "s\<lparr>pp_asr_fsm := pp_asr_fsm s, pp_vad := pp_vad s, pp_worker := w\<rparr> = s\<lparr>pp_worker := w\<rparr>" for w
    by (cases s) simp
  show ?thesis
  proof (cases "reason = ''silence''")
    case True
    then show ?thesis
      using assms by (simp add: aw_fsm_moves_def fsm_recover_def fsm_reactivate_def Let_def id2 id3)
  next
    case False
    then show ?thesis
      using assms by (simp add: aw_fsm_moves_def fsm_reset_active fsm_reactivate_recovering Let_def id id2 id3)
  qed
qed

lemma timeout_outcome:
  assumes "pp_wf s"
  obtains r s' where "aw_timeout i s = (r, s')" "pp_wf s'" "\<And>e. r = Inl e \<Longrightarrow> wi_created i = Inl e"
    "sp_generation_id (pp_provider s') = sp_generation_id (pp_provider s)
     \<or> (sp_generation_id (pp_provider s') = Suc (sp_generation_id (pp_provider s))
        \<and> RESET_COOLDOWN_SECONDS \<le> wi_t_timeout i - sp_last_reset_time (pp_provider s)
        \<and> aw_has_spoken_in_generation (pp_worker s)
        \<and> sp_last_reset_time (pp_provider s') = wi_t_reset i)"
proof (cases "aw_consecutive_silence (pp_worker s) = silence_timeout (pp_worker s)
    \<and> aw_has_spoken_in_generation (pp_worker s)
    \<and> RESET_COOLDOWN_SECONDS \<le> wi_t_timeout i - sp_last_reset_time (pp_provider s)")
  case False
  then have "aw_timeout i s = (Inr (), s)" by (auto simp: aw_timeout_def Let_def)
  with that [of "Inr ()" s] assms show thesis by simp
next
  case True
  define p where "p = snd (sp_reset (wi_t_reset i, wi_created i) (pp_provider s))"
  define s1 where "s1 = s\<lparr>pp_provider := p\<rparr>"
  have open1: "sp_has_stream p"
    using assms by (auto simp: p_def pp_wf_def sp_has_stream_def sp_reset_def Let_def split: sum.splits)
  have wf1: "pp_wf s1" using assms open1 by (simp add: pp_wf_def s1_def)
  have wf2: "pp_wf (s1\<lparr>pp_worker := aw_reset_state (wi_t_state i) (pp_worker s1)\<rparr>)"
  proof -
    have "pre_wf (pp_worker s1)" using wf1 by (simp add: pp_wf_def aw_wf_def)
    then have "aw_wf (aw_reset_state (wi_t_state i) (pp_worker s1))" by (rule aw_wf_reset_state)
    with wf1 show ?thesis by (simp add: pp_wf_def)
  qed
  have gen: "sp_generation_id p = Suc (sp_generation_id (pp_provider s))"
    "sp_last_reset_time p = wi_t_reset i" by (simp_all add: p_def)
  have moves: "aw_fsm_moves reason t s1 = (Inr (), s1\<lparr>pp_worker := aw_reset_state t (pp_worker s1)\<rparr>)" for reason t
    using wf1 by (intro fsm_moves_active) (simp_all add: pp_wf_def)
  show thesis
  proof (cases "wi_created i")
    case (Inl e)
    then have "aw_timeout i s = (Inl e, s1)"
      using True by (simp add: aw_timeout_def aw_do_stream_reset_def s1_def p_def sp_reset_def Let_def)
    with that [of "Inl e" s1] wf1 gen True Inl show thesis by (simp add: s1_def)
  next
    case (Inr o')
    then have "aw_timeout i s = aw_fsm_moves ''inactivity'' (wi_t_state i) s1"
      using True by (simp add: aw_timeout_def aw_do_stream_reset_def s1_def p_def sp_reset_def Let_def)
    with that [of "Inr ()" "s1\<lparr>pp_worker := aw_reset_state (wi_t_state i) (pp_worker s1)\<rparr>"] wf2 gen True moves
    show thesis by (simp add: s1_def)
  qed
qed

lemma feed_open:
  assumes "sp_has_stream p" "aw_wf w"
  obtains w' p' where "aw_feed rz i c w p = (Inr (), w', p')" "same_reset p p'" "aw_wf w'"
    "aw_last_hypothesis w' = aw_last_hypothesis w" "aw_consecutive_silence w' = aw_consecutive_silence w"
proof -
  obtain p' where p': "sp_accept rz (wi_t_reset i, wi_created i) SAMPLE_RATE c p = (Inr (), p')" "same_reset p p'"
    using accept_open [OF assms(1)] by blast
  show thesis
    by (rule that [of "fst (snd (aw_feed rz i c w p))" "snd (snd (aw_feed rz i c w p))"])
      (use assms p' in \<open>auto simp: aw_feed_def aw_wf_def pre_wf_def settings\<close>)
qed

lemma aw_wf_track [ava_inv]: "aw_wf w \<Longrightarrow> aw_wf (aw_track r w)"
  by (auto simp: aw_wf_def aw_track_def pre_wf_def Let_def)

lemma aw_track_fields:
  "aw_last_hypothesis (aw_track r w) = r" "aw_is_speaking (aw_track r w) = aw_is_speaking w"
  "aw_trailing_pad (aw_track r w) = aw_trailing_pad w" "aw_correlation_id (aw_track r w) = aw_correlation_id w"
  "aw_consecutive_silence (aw_track r w) = aw_consecutive_silence w"
  by (simp_all add: aw_track_def Let_def)

text \<open>What a delivery tells the engine.\<close>

definition delivery_ok :: "('o, 's) pipe \<Rightarrow> delivery \<Rightarrow> bool" where
  "delivery_ok s d \<longleftrightarrow> dl_text d \<noteq> '''' \<and> dl_text d = aw_last_hypothesis (pp_worker s)
     \<and> dl_stability d = aw_stable_frames (pp_worker s)
     \<and> dl_peak d = aw_peak_hypothesis (pp_worker s) \<and> length (dl_text d) \<le> length (dl_peak d)
     \<and> dl_generation_id d = sp_generation_id (pp_provider s)
     \<and> dl_correlation_id d = aw_correlation_id (pp_worker s)"

lemma deliver_ok:
  assumes "aw_wf (aw_track result w)" "result \<noteq> ''''"
  shows "\<exists>d. aw_deliver result p (aw_track result w) = Some d \<and>
     (pp_worker s = aw_track result w \<and> pp_provider s = p \<longrightarrow> delivery_ok s d)"
  using assms by (auto simp: aw_deliver_def Let_def aw_track_fields aw_wf_def delivery_ok_def)

lemma transcribe_outcome:
  assumes "pp_wf s" "decode_progress rz k"
  obtains d s' where "aw_transcribe rz i c s = Some (Inr d, s')" "pp_wf s'"
    "same_reset (pp_provider s) (pp_provider s')"
    "d = None \<longleftrightarrow> sp_result rz (pp_provider s') = ''''" "\<And>x. d = Some x \<Longrightarrow> delivery_ok s' x"
proof -
  have open1: "sp_has_stream (pp_provider s)" "aw_wf (pp_worker s)" using assms(1) by (simp_all add: pp_wf_def)
  obtain w p where f: "aw_feed rz i c (pp_worker s) (pp_provider s) = (Inr (), w, p)"
    "same_reset (pp_provider s) p" "aw_wf w"
    using feed_open [OF open1] by blast
  define s1 where "s1 = aw_diag i (s\<lparr>pp_worker := w, pp_provider := p\<rparr>)"
  have wd: "aw_wf (w\<lparr>aw_last_qsize_log := t\<rparr>)" for t using f(3) by (simp add: aw_wf_def pre_wf_def)
  have s1: "aw_wf (pp_worker s1)" "pp_provider s1 = p" "pp_vad s1 = pp_vad s" "pp_asr_fsm s1 = pp_asr_fsm s"
    using f(3) wd by (simp_all add: s1_def aw_diag_def)
  obtain n p' where d: "sp_decode rz p = Some (n, p')" using sp_decode_returns [OF assms(2)] by blast
  have pp': "same_reset (pp_provider s) p'"
    using f(2) sp_decode_fields [OF d] by (simp add: same_reset_def)
  have wf: "pp_wf (s1\<lparr>pp_provider := p', pp_worker := w'\<rparr>)" if "aw_wf w'" for w'
    using assms(1) that pp' s1 by (simp add: pp_wf_def same_reset_def)
  have wf': "pp_wf (s1\<lparr>pp_provider := p'\<rparr>)"
    using assms(1) pp' s1 by (simp add: pp_wf_def same_reset_def)
  show thesis
  proof (cases "sp_result rz p' = ''''")
    case True
    then have "aw_transcribe rz i c s = Some (Inr None, s1\<lparr>pp_provider := p'\<rparr>)"
      by (simp add: aw_transcribe_def f(1) s1(2) d Let_def flip: s1_def)
    with that [of None "s1\<lparr>pp_provider := p'\<rparr>"] True pp' wf' show thesis by simp
  next
    case False
    let ?w = "aw_track (sp_result rz p') (pp_worker s1)"
    let ?s = "s1\<lparr>pp_provider := p', pp_worker := ?w\<rparr>"
    have tw: "aw_wf ?w" using s1(1) by (rule aw_wf_track)
    obtain x where x: "aw_deliver (sp_result rz p') p' ?w = Some x" "delivery_ok ?s x"
      using deliver_ok [OF tw False, of p' ?s] by auto
    have "aw_transcribe rz i c s = Some (Inr (Some x), ?s)"
      using False x(1) by (simp add: aw_transcribe_def f(1) s1(2) d Let_def flip: s1_def)
    with that [of "Some x" ?s] False pp' wf [OF tw] x(2) show thesis by simp
  qed
qed

lemma process_outcome:
  assumes "pp_wf s" "decode_progress rz k" "c \<noteq> []"
  obtains r s' where "aw_process rz m i c s = Some (r, s')" "pp_wf s'"
    "\<And>e. r = Inl e \<Longrightarrow> wi_created i = Inl e" "\<And>x. r = Inr (Some x) \<Longrightarrow> delivery_ok s' x"
    "r = Inr None \<Longrightarrow> sp_result rz (pp_provider s') = '''' \<or> 18 \<le> aw_consecutive_silence (pp_worker s) + 1"
    "sp_generation_id (pp_provider s') = sp_generation_id (pp_provider s)
     \<or> (sp_generation_id (pp_provider s') = Suc (sp_generation_id (pp_provider s))
        \<and> RESET_COOLDOWN_SECONDS \<le> wi_t_timeout i - sp_last_reset_time (pp_provider s)
        \<and> aw_has_spoken_in_generation (pp_worker s) \<and> 18 \<le> aw_consecutive_silence (pp_worker s) + 1)"
proof -
  obtain vr v where v: "process_chunk m c (pp_vad s) = Inr (vr, v)" "vad_ready v" "vd_fsm v = vd_fsm (pp_vad s)"
    using process_chunk_total [of "pp_vad s" c m] process_chunk_ready [of "pp_vad s" m c] assms(1,3)
    by (fastforce simp: pp_wf_def)
  have open1: "sp_has_stream (pp_provider s)" "aw_wf (pp_worker s)" using assms(1) by (simp_all add: pp_wf_def)
  obtain w p where h: "aw_hysteresis rz i (vr_pass vr) (pp_worker s) (pp_provider s) = (Inr (), w, p)"
    "same_reset (pp_provider s) p" "aw_wf w"
    "aw_consecutive_silence w = (if vr_pass vr then 0 else aw_consecutive_silence (pp_worker s) + 1)"
    "aw_has_spoken_in_generation w = (aw_has_spoken_in_generation (pp_worker s) \<or> aw_is_speaking w)"
    using hysteresis_open [OF open1] by blast
  define w1 where "w1 = (if \<not> aw_is_speaking w then pre_buffer_push c w else w)"
  define s1 where "s1 = s\<lparr>pp_vad := v, pp_worker := w1, pp_provider := p\<rparr>"
  have w1: "aw_wf w1" "aw_consecutive_silence w1 = aw_consecutive_silence w"
    "aw_has_spoken_in_generation w1 = aw_has_spoken_in_generation w" "aw_is_speaking w1 = aw_is_speaking w"
    using h(3) by (simp_all add: w1_def aw_wf_push)
  have s1: "pp_wf s1" using assms(1) v h(2) w1(1) by (simp add: pp_wf_def s1_def same_reset_def)
  have eq: "aw_process rz m i c s =
      (if silence_timeout w1 \<le> aw_consecutive_silence w1
       then (case aw_timeout i s1 of (Inl e, s) \<Rightarrow> Some (Inl e, s) | (Inr _, s) \<Rightarrow> Some (Inr None, s))
       else aw_transcribe rz i c s1)"
    by (simp add: aw_process_def v(1) h(1) Let_def w1_def s1_def)
  show thesis
  proof (cases "silence_timeout w1 \<le> aw_consecutive_silence w1")
    case True
    have long: "18 \<le> aw_consecutive_silence w1" using True by (simp add: silence_timeout_def split: if_splits)
    then have long': "18 \<le> aw_consecutive_silence (pp_worker s) + 1" "\<not> aw_is_speaking w1"
      using h(4) w1 by (auto simp: aw_wf_def settings split: if_splits)
    have sp: "aw_has_spoken_in_generation w1 = aw_has_spoken_in_generation (pp_worker s)"
      using h(5) w1 long'(2) by auto
    obtain r s' where t: "aw_timeout i s1 = (r, s')" "pp_wf s'" "\<And>e. r = Inl e \<Longrightarrow> wi_created i = Inl e"
      "sp_generation_id (pp_provider s') = sp_generation_id (pp_provider s1)
       \<or> (sp_generation_id (pp_provider s') = Suc (sp_generation_id (pp_provider s1))
          \<and> RESET_COOLDOWN_SECONDS \<le> wi_t_timeout i - sp_last_reset_time (pp_provider s1)
          \<and> aw_has_spoken_in_generation (pp_worker s1)
          \<and> sp_last_reset_time (pp_provider s') = wi_t_reset i)"
      using timeout_outcome [OF s1, of i] by blast
    have g: "sp_generation_id (pp_provider s') = sp_generation_id (pp_provider s)
     \<or> (sp_generation_id (pp_provider s') = Suc (sp_generation_id (pp_provider s))
        \<and> RESET_COOLDOWN_SECONDS \<le> wi_t_timeout i - sp_last_reset_time (pp_provider s)
        \<and> aw_has_spoken_in_generation (pp_worker s) \<and> 18 \<le> aw_consecutive_silence (pp_worker s) + 1)"
      using t(4) h(2) long'(1) sp by (auto simp: s1_def same_reset_def)
    show thesis
    proof (cases r)
      case (Inl e)
      then have "aw_process rz m i c s = Some (Inl e, s')" using eq True t(1) by simp
      then show thesis using that [of "Inl e" s'] t(2,3) g Inl by blast
    next
      case (Inr u)
      then have "aw_process rz m i c s = Some (Inr None, s')" using eq True t(1) by simp
      then show thesis using that [of "Inr None" s'] t(2) g long'(1) by blast
    qed
  next
    case False
    obtain d s' where t: "aw_transcribe rz i c s1 = Some (Inr d, s')" "pp_wf s'"
      "same_reset (pp_provider s1) (pp_provider s')"
      "d = None \<longleftrightarrow> sp_result rz (pp_provider s') = ''''" "\<And>x. d = Some x \<Longrightarrow> delivery_ok s' x"
      using transcribe_outcome [OF s1 assms(2)] by blast
    have "aw_process rz m i c s = Some (Inr d, s')" using eq False t(1) by simp
    moreover have "sp_generation_id (pp_provider s') = sp_generation_id (pp_provider s)"
      using t(3) h(2) by (simp add: s1_def same_reset_def)
    ultimately show thesis using that [of "Inr d" s'] t(2,4,5) by blast
  qed
qed

section \<open>Properties\<close>

text \<open>C11: one iteration of the worker on a chunk, from any state that satisfies the invariant: it returns
  (decoding ends), keeps the invariant (padding, pre-roll buffer, peak, hysteresis counters, both
  lifecycles ACTIVE), raises only the exception of a failed \<open>create_stream\<close>, delivers only non-empty
  texts that are no longer than the peak and carry the current generation, stability and
  correlation id, and moves to a new generation only after at least 18 silent chunks, with speech in
  this generation and \<open>RESET_COOLDOWN_SECONDS\<close> after the last reset.\<close>

theorem worker_iteration_safe:
  assumes "pp_wf s" "decode_progress rz k" "c \<noteq> []"
  shows "\<exists>r s'. aw_process rz m i c s = Some (r, s') \<and> pp_wf s'
     \<and> (\<forall>e. r = Inl e \<longrightarrow> wi_created i = Inl e)
     \<and> (\<forall>d. r = Inr (Some d) \<longrightarrow> delivery_ok s' d)
     \<and> (sp_generation_id (pp_provider s') = sp_generation_id (pp_provider s)
        \<or> (sp_generation_id (pp_provider s') = Suc (sp_generation_id (pp_provider s))
           \<and> RESET_COOLDOWN_SECONDS \<le> wi_t_timeout i - sp_last_reset_time (pp_provider s)
           \<and> aw_has_spoken_in_generation (pp_worker s) \<and> 18 \<le> aw_consecutive_silence (pp_worker s) + 1))"
  using process_outcome [OF assms, of m i] by metis

definition toy_pipe :: "((nat \<times> string), unit) pipe" where
  "toy_pipe = \<lparr>pp_worker = new_worker 0,
     pp_provider = (new_provider 0)\<lparr>sp_stream := Some (0, '''')\<rparr>, pp_vad = new_vad toy_vad_models True,
     pp_asr_fsm = \<lparr>sl_name = ''ASR'', sl_state = SS_ACTIVE\<rparr>, pp_queue = new_audio_queue 0 20\<rparr>"

definition toy_input :: "(nat \<times> string) aw_input" where
  "toy_input = \<lparr>wi_t_dequeue = 1, wi_t_speech = 1, wi_t_silence = 1, wi_t_timeout = 1, wi_t_reset = 1,
     wi_t_state = 1, wi_t_diag = 1, wi_uuid = ''u1'', wi_created = Inr (0, '''')\<rparr>"

lemma toy_pipe_wf: "pp_wf toy_pipe"
  by (simp add: pp_wf_def toy_pipe_def aw_wf_new vad_ready_new sp_has_stream_def)
    (simp add: new_vad_def Let_def)

lemma toy_progress: "decode_progress toy_recognizer fst"
  by (auto simp: decode_progress_def toy_recognizer_def)

theorem worker_iteration_safe_witness:
  "\<exists>r s'. aw_process toy_recognizer toy_vad_models toy_input [1/100] toy_pipe = Some (r, s') \<and> pp_wf s'"
proof -
  have "[1/100 :: rat] \<noteq> []" by simp
  from worker_iteration_safe [OF toy_pipe_wf toy_progress this] show ?thesis by blast
qed

text \<open>C26: the voice activity detector does not gate delivery: whatever it decides on the chunk, an
  iteration that starts with fewer than 17 consecutive silent chunks and ends with a non-empty
  recognizer result delivers it, because the test \<open>_trailing_pad <= TRAILING_PAD_FRAMES\<close> on the
  silent branch always holds.\<close>

theorem delivery_not_gated_by_vad:
  assumes "pp_wf s" "decode_progress rz k" "c \<noteq> []"
    and "aw_consecutive_silence (pp_worker s) < 17"
    and "aw_process rz m i c s = Some (Inr d, s')" "sp_result rz (pp_provider s') \<noteq> ''''"
  shows "\<exists>x. d = Some x \<and> delivery_ok s' x"
proof -
  obtain r s1 where o: "aw_process rz m i c s = Some (r, s1)"
    "\<And>x. r = Inr (Some x) \<Longrightarrow> delivery_ok s1 x"
    "r = Inr None \<Longrightarrow> sp_result rz (pp_provider s1) = '''' \<or> 18 \<le> aw_consecutive_silence (pp_worker s) + 1"
    using process_outcome [OF assms(1-3), of m i] by metis
  then have r: "r = Inr d" "s1 = s'" using assms(5) by simp_all
  show ?thesis
  proof (cases d)
    case None
    with o(3) r assms(4,6) show ?thesis by simp
  next
    case (Some x)
    with o(2) r show ?thesis by blast
  qed
qed

text \<open>A detector that rejects everything, and a recognizer that keeps reporting an old result.\<close>

definition deaf_vad_models :: "unit vad_models" where
  "deaf_vad_models = \<lparr>vm_webrtc = (\<lambda>_. Inr False), vm_silero = (\<lambda>s _. (0, s)), vm_silero_zero = (),
     vm_rms = (\<lambda>_. 0)\<rparr>"

definition stale_recognizer :: "(nat \<times> string) recognizer" where
  "stale_recognizer = \<lparr>rz_accept = (\<lambda>_ _ s. s), rz_is_ready = (\<lambda>_. False), rz_decode = id,
     rz_result = (\<lambda>_. ''ava'')\<rparr>"

theorem delivery_not_gated_by_vad_witness:
  "\<exists>x s'. aw_process stale_recognizer deaf_vad_models toy_input [0] toy_pipe = Some (Inr (Some x), s')
     \<and> delivery_ok s' x"
proof -
  have ne: "[0 :: rat] \<noteq> []" by simp
  have prog: "decode_progress stale_recognizer fst" by (simp add: decode_progress_def stale_recognizer_def)
  obtain r s' where o: "aw_process stale_recognizer deaf_vad_models toy_input [0] toy_pipe = Some (r, s')"
    "pp_wf s'" "\<And>e. r = Inl e \<Longrightarrow> wi_created toy_input = Inl e"
    using process_outcome [OF toy_pipe_wf prog ne] by metis
  then obtain d where d: "r = Inr d" by (cases r) (auto simp: toy_input_def)
  have "sp_result stale_recognizer (pp_provider s') = ''ava''"
    using o(2) by (auto simp: pp_wf_def sp_has_stream_def sp_result_def stale_recognizer_def
        py_lower_def py_strip_def lower_char_def is_space_def)
  then have res: "sp_result stale_recognizer (pp_provider s') \<noteq> ''''" by simp
  have q: "aw_consecutive_silence (pp_worker toy_pipe) < 17" by (simp add: toy_pipe_def new_worker_def)
  from delivery_not_gated_by_vad [OF toy_pipe_wf prog ne q o(1) [unfolded d] res] o(1) d
  show ?thesis by blast
qed

text \<open>C27: the hysteresis does not flicker: a chunk changes the speaking flag only from off to on as the third
  or later consecutive speech chunk, or from on to off as the eighth consecutive silent chunk; so a
  single speech chunk in silence, or fewer than eight silent ones in speech, change nothing.\<close>

theorem hysteresis_debounces:
  assumes "aw_wf w" "sp_has_stream p" "aw_hysteresis rz i b w p = (r, w', p')"
  shows "aw_wf w' \<and> r = Inr () \<and>
     (aw_is_speaking w' \<noteq> aw_is_speaking w \<longleftrightarrow>
        (if b then \<not> aw_is_speaking w \<and> MIN_SPEECH_FRAMES \<le> aw_consecutive_speech w'
         else aw_is_speaking w \<and> aw_consecutive_silence w' = MIN_SILENCE_FRAMES))
     \<and> aw_consecutive_speech w' = (if b then aw_consecutive_speech w + 1 else 0)
     \<and> aw_consecutive_silence w' = (if b then 0 else aw_consecutive_silence w + 1)"
proof -
  have lt: "aw_is_speaking w \<Longrightarrow> aw_consecutive_silence w < MIN_SILENCE_FRAMES"
    using assms(1) by (simp add: aw_wf_def)
  obtain v q where h: "aw_hysteresis rz i b w p = (Inr (), v, q)" "aw_wf v"
    "aw_consecutive_silence v = (if b then 0 else aw_consecutive_silence w + 1)"
    "aw_consecutive_speech v = (if b then aw_consecutive_speech w + 1 else 0)"
    "aw_is_speaking v = (if b then aw_is_speaking w \<or> MIN_SPEECH_FRAMES \<le> aw_consecutive_speech w + 1
       else aw_is_speaking w \<and> aw_consecutive_silence w + 1 < MIN_SILENCE_FRAMES)"
    by (rule hysteresis_open [OF assms(2,1), of rz i b])
  have "r = Inr ()" "w' = v" using assms(3) h(1) by simp_all
  with h(2-5) lt show ?thesis by auto
qed

theorem hysteresis_debounces_witness:
  "\<exists>r w' p'. aw_hysteresis toy_recognizer toy_input True (pp_worker toy_pipe) (pp_provider toy_pipe) = (r, w', p')
     \<and> aw_consecutive_speech w' = 1 \<and> \<not> aw_is_speaking w'"
proof -
  have wf: "aw_wf (pp_worker toy_pipe)" "sp_has_stream (pp_provider toy_pipe)"
    using toy_pipe_wf by (simp_all add: pp_wf_def)
  obtain r w' p' where
    o: "aw_hysteresis toy_recognizer toy_input True (pp_worker toy_pipe) (pp_provider toy_pipe) = (r, w', p')"
    by (metis prod.exhaust)
  from hysteresis_debounces [OF wf o] show ?thesis
    using o by (auto simp: toy_pipe_def new_worker_def settings)
qed

end
