(* ===== verification/Streamer.thy ===== *)
theory Streamer
  imports Audio_Worker
begin

text \<open>
  \<^verbatim>\<open>src/runtime/asr/streaming.py\<close>: the coordinator that owns the pipeline: \<open>start\<close>, \<open>stop\<close>, the stream
  reset the engine and the watchdog call, and the microphone callback. Opening the microphone
  (sounddevice) and \<open>create_stream\<close> are outcomes given as arguments; the worker thread's entry into
  its loop is taken where \<open>start\<close> spawns it. The stream reset is interpreted as a resettable stream.
\<close>

section \<open>State and operations\<close>

record ('o, 's) streamer =
  st_pipe :: "('o, 's) pipe"
  st_audio_fsm :: subsystem_lifecycle
  st_stop :: bool
  st_callback_count :: nat

definition new_streamer :: "'s vad_models \<Rightarrow> bool \<Rightarrow> time_s \<Rightarrow> ('o, 's) streamer" where
  "new_streamer m session now =
     \<lparr>st_pipe = \<lparr>pp_worker = new_worker now, pp_provider = new_provider now, pp_vad = new_vad m session,
                 pp_asr_fsm = new_subsystem ''ASR'', pp_queue = new_audio_queue 0 AUDIO_QUEUE_MAX\<rparr>,
      st_audio_fsm = new_subsystem ''Audio'', st_stop = False, st_callback_count = 0\<rparr>"

definition st_generation :: "('o, 's) streamer \<Rightarrow> nat" where
  "st_generation s = sp_generation_id (pp_provider (st_pipe s))"

definition st_provider_reset ::
  "time_s \<Rightarrow> (py_exc + 'o) \<Rightarrow> ('o, 's) streamer \<Rightarrow> (py_exc + unit) \<times> ('o, 's) streamer" where
  "st_provider_reset now created s =
     (let (r, p) = sp_reset (now, created) (pp_provider (st_pipe s))
      in (r, s\<lparr>st_pipe := (st_pipe s)\<lparr>pp_provider := p\<rparr>\<rparr>))"

definition st_asr_transition ::
  "subsystem_state \<Rightarrow> ('o, 's) streamer \<Rightarrow> (py_exc + unit) \<times> ('o, 's) streamer" where
  "st_asr_transition t s =
     (case sub_transition t (pp_asr_fsm (st_pipe s)) of
        Inl e \<Rightarrow> (Inl e, s)
      | Inr l \<Rightarrow> (Inr (), s\<lparr>st_pipe := (st_pipe s)\<lparr>pp_asr_fsm := l\<rparr>\<rparr>))"

definition st_audio_transition ::
  "subsystem_state \<Rightarrow> ('o, 's) streamer \<Rightarrow> (py_exc + unit) \<times> ('o, 's) streamer" where
  "st_audio_transition t s =
     (case sub_transition t (st_audio_fsm s) of
        Inl e \<Rightarrow> (Inl e, s)
      | Inr l \<Rightarrow> (Inr (), s\<lparr>st_audio_fsm := l\<rparr>))"

definition st_worker_enter :: "('o, 's) streamer \<Rightarrow> (py_exc + unit) \<times> ('o, 's) streamer" where
  "st_worker_enter s =
     (case aw_enter (pp_asr_fsm (st_pipe s)) of
        Inl e \<Rightarrow> (Inl e, s)
      | Inr l \<Rightarrow> (Inr (), s\<lparr>st_pipe := (st_pipe s)\<lparr>pp_asr_fsm := l\<rparr>\<rparr>))"

text \<open>\<open>start\<close> up to the loop that waits for the stop event.\<close>

definition st_start ::
  "time_s \<Rightarrow> (py_exc + 'o) \<Rightarrow> (py_exc + unit) \<Rightarrow> ('o, 's) streamer \<Rightarrow> (py_exc + unit) \<times> ('o, 's) streamer" where
  "st_start now created mic s =
     eseq (st_provider_reset now created (s\<lparr>st_stop := False\<rparr>)) (\<lambda>_ s.
     eseq (st_asr_transition SS_INITIALIZING s) (\<lambda>_ s.
     eseq (st_asr_transition SS_READY s) (\<lambda>_ s.
     eseq (st_worker_enter s) (\<lambda>_ s.
     eseq (st_audio_transition SS_INITIALIZING s) (\<lambda>_ s.
     eseq (st_audio_transition SS_READY s) (\<lambda>_ s.
     eseq (mic, s) (\<lambda>_ s.
     st_audio_transition SS_ACTIVE s)))))))"

definition st_stop_stream :: "('o, 's) streamer \<Rightarrow> (py_exc + unit) \<times> ('o, 's) streamer" where
  "st_stop_stream s =
     (let s = s\<lparr>st_stop := True\<rparr> in
      case sub_shutdown (pp_asr_fsm (st_pipe s)) of
        Inl e \<Rightarrow> (Inl e, s)
      | Inr a \<Rightarrow>
          let s = s\<lparr>st_pipe := (st_pipe s)\<lparr>pp_asr_fsm := a\<rparr>\<rparr> in
          case sub_shutdown (st_audio_fsm s) of
            Inl e \<Rightarrow> (Inl e, s)
          | Inr l \<Rightarrow> (Inr (), s\<lparr>st_audio_fsm := l\<rparr>))"

text \<open>The inputs of a stream reset: the reason, the provider's and the worker's clock readings, and the
  outcome of \<open>create_stream\<close>.\<close>

type_synonym 'o reset_input = "string \<times> time_s \<times> time_s \<times> (py_exc + 'o)"

definition st_reset_stream ::
  "'s vad_models \<Rightarrow> 'o reset_input \<Rightarrow> ('o, 's) streamer \<Rightarrow> (py_exc + unit) \<times> ('o, 's) streamer" where
  "st_reset_stream m i s =
     (let (reason, t_reset, t_state, created) = i in
      eseq (st_provider_reset t_reset created s) (\<lambda>_ s.
        let pipe = (st_pipe s)\<lparr>pp_vad := vad_reset_state m (pp_vad (st_pipe s))\<rparr>;
            (r, pipe) = aw_fsm_moves reason t_state pipe
        in (r, s\<lparr>st_pipe := pipe\<rparr>)))"

text \<open>The microphone callback. The result says whether the falling-behind warning is logged.\<close>

definition st_audio_callback :: "chunk \<Rightarrow> ('o, 's) streamer \<Rightarrow> (py_exc + bool) \<times> ('o, 's) streamer" where
  "st_audio_callback c s =
     (let (r, q) = aq_enqueue c (pp_queue (st_pipe s));
          s = s\<lparr>st_pipe := (st_pipe s)\<lparr>pp_queue := q\<rparr>\<rparr>
      in case r of
           Inl e \<Rightarrow> (Inl e, s)
         | Inr _ \<Rightarrow>
             let s = s\<lparr>st_callback_count := st_callback_count s + 1\<rparr>;
                 q = pp_queue (st_pipe s)
             in if AUDIO_QUEUE_MAX < aq_depth q \<and> \<not> aq_warn_logged q
                then (Inr True, s\<lparr>st_pipe := (st_pipe s)\<lparr>pp_queue := q\<lparr>aq_warn_logged := True\<rparr>\<rparr>\<rparr>)
                else (Inr False, s))"

section \<open>Lemmas\<close>

text \<open>The lifecycle moves of a reset from any state: they never raise, and bring a machine that is ACTIVE,
  FAULTED or RECOVERING to ACTIVE and leave any other alone.\<close>

definition fsm_after_reset :: "string \<Rightarrow> subsystem_lifecycle \<Rightarrow> subsystem_lifecycle" where
  "fsm_after_reset reason l =
     (if reason \<noteq> ''silence'' \<and> sl_state l \<in> {SS_ACTIVE, SS_FAULTED, SS_RECOVERING}
      then l\<lparr>sl_state := SS_ACTIVE\<rparr> else l)"

lemma fsm_moves_split:
  "\<exists>k. fsm_recover reason l = Inr k \<and> fsm_reactivate reason k = Inr (fsm_after_reset reason l)"
  by (cases "sl_state l")
    (auto simp: fsm_recover_def sub_recover_eq fsm_reactivate_def sub_transition_def fsm_after_reset_def)

lemma fsm_moves_eq:
  "aw_fsm_moves reason t s =
     (Inr (), s\<lparr>pp_asr_fsm := fsm_after_reset reason (pp_asr_fsm s),
                pp_vad := (pp_vad s)\<lparr>vd_fsm := fsm_after_reset reason (vd_fsm (pp_vad s))\<rparr>,
                pp_worker := aw_reset_state t (pp_worker s)\<rparr>)"
proof -
  obtain k where "fsm_recover reason (pp_asr_fsm s) = Inr k"
    "fsm_reactivate reason k = Inr (fsm_after_reset reason (pp_asr_fsm s))"
    using fsm_moves_split by blast
  moreover obtain k' where "fsm_recover reason (vd_fsm (pp_vad s)) = Inr k'"
    "fsm_reactivate reason k' = Inr (fsm_after_reset reason (vd_fsm (pp_vad s)))"
    using fsm_moves_split by blast
  ultimately show ?thesis by (simp add: aw_fsm_moves_def Let_def)
qed

lemma st_reset_stream_eq:
  "st_reset_stream m (reason, tr, ts, created) s =
     (let p = snd (sp_reset (tr, created) (pp_provider (st_pipe s))) in
      case created of
        Inl e \<Rightarrow> (Inl e, s\<lparr>st_pipe := (st_pipe s)\<lparr>pp_provider := p\<rparr>\<rparr>)
      | Inr _ \<Rightarrow> (Inr (), s\<lparr>st_pipe := (st_pipe s)\<lparr>pp_provider := p,
            pp_asr_fsm := fsm_after_reset reason (pp_asr_fsm (st_pipe s)),
            pp_vad := (vad_reset_state m (pp_vad (st_pipe s)))\<lparr>vd_fsm :=
               fsm_after_reset reason (vd_fsm (pp_vad (st_pipe s)))\<rparr>,
            pp_worker := aw_reset_state ts (pp_worker (st_pipe s))\<rparr>\<rparr>))"
  by (simp add: st_reset_stream_def st_provider_reset_def sp_reset_def Let_def fsm_moves_eq split: sum.splits)

lemma st_reset_generation: "st_generation (snd (st_reset_stream m i s)) = Suc (st_generation s)"
  by (cases i) (simp add: st_reset_stream_eq st_generation_def Let_def split: sum.splits)

interpretation stream: resettable "st_reset_stream m" st_generation for m :: "'s vad_models"
  by unfold_locales (rule st_reset_generation)

lemma st_reset_wf:
  assumes "pp_wf (st_pipe s)"
  shows "pp_wf (st_pipe (snd (st_reset_stream m i s)))"
proof -
  obtain reason tr ts created where i: "i = (reason, tr, ts, created)" by (metis prod.exhaust)
  have hs: "sp_has_stream (snd (sp_reset (tr, created) (pp_provider (st_pipe s))))"
    using assms by (auto simp: pp_wf_def sp_has_stream_def sp_reset_def Let_def split: sum.splits)
  have "pre_wf (pp_worker (st_pipe s))" "noise_wf (pp_vad (st_pipe s))"
    using assms by (auto simp: pp_wf_def aw_wf_def vad_ready_def)
  then have "aw_wf (aw_reset_state ts (pp_worker (st_pipe s)))"
    "vad_ready ((vad_reset_state m (pp_vad (st_pipe s)))\<lparr>vd_fsm := f\<rparr>)" for f
    using aw_wf_reset_state vad_ready_reset_state [of "pp_vad (st_pipe s)" m]
    by (auto simp: vad_ready_def noise_wf_def)
  with assms hs show ?thesis
    by (auto simp: i st_reset_stream_eq pp_wf_def fsm_after_reset_def Let_def split: sum.splits)
qed

lemma st_start_again:
  "sl_state (pp_asr_fsm (st_pipe s)) = SS_ACTIVE \<Longrightarrow> \<exists>e. fst (st_start t created mic s) = Inl e"
  by (cases created) (simp_all add: st_start_def st_provider_reset_def st_asr_transition_def
      sub_transition_def sp_reset_def Let_def)

lemmas st_start_defs = st_start_def st_provider_reset_def st_asr_transition_def st_audio_transition_def
  st_worker_enter_def aw_enter_def sub_transition_def new_streamer_def new_subsystem_def
  sp_reset_def new_provider_def Let_def

lemma st_start_fresh:
  fixes created :: "py_exc + 'o"
  shows "fst (st_start t created mic (new_streamer m session now)) = Inr () \<longleftrightarrow> (\<exists>x. created = Inr x) \<and> mic = Inr ()"
  by (cases created; cases mic) (simp_all add: st_start_defs)

lemma st_start_fresh_state:
  "st_generation (snd (st_start t (Inr x) (Inr ()) (new_streamer m session now))) = 1"
  "sl_state (st_audio_fsm (snd (st_start t (Inr x) (Inr ()) (new_streamer m session now)))) = SS_ACTIVE"
  "sl_state (pp_asr_fsm (st_pipe (snd (st_start t (Inr x) (Inr ()) (new_streamer m session now))))) = SS_ACTIVE"
  "pp_worker (st_pipe (snd (st_start t (Inr x) (Inr ()) (new_streamer m session now)))) = new_worker now"
  "pp_vad (st_pipe (snd (st_start t (Inr x) (Inr ()) (new_streamer m session now)))) = new_vad m session"
  "sp_has_stream (pp_provider (st_pipe (snd (st_start t (Inr x) (Inr ()) (new_streamer m session now)))))"
  by (simp_all add: st_start_defs st_generation_def sp_has_stream_def)

section \<open>Properties\<close>



text \<open>A fresh streamer starts exactly when the recognizer creates a stream and the microphone opens:
  then the pipeline satisfies its invariant (given the Silero model was found), generation 1 is
  running and the audio subsystem is ACTIVE, and it cannot be started again; stopping any streamer
  takes both subsystems to OFFLINE and never raises.\<close>

theorem streamer_start_stop:
  "(let out = st_start t created mic (new_streamer m session now) in
      (fst out = Inr () \<longleftrightarrow> (\<exists>x. created = Inr x) \<and> mic = Inr ())
    \<and> (fst out = Inr () \<longrightarrow>
         st_generation (snd out) = 1 \<and> sl_state (st_audio_fsm (snd out)) = SS_ACTIVE
       \<and> (session \<longrightarrow> pp_wf (st_pipe (snd out)))
       \<and> (\<exists>e. fst (st_start t' created' mic' (snd out)) = Inl e)))
   \<and> fst (st_stop_stream s) = Inr ()
   \<and> sl_state (pp_asr_fsm (st_pipe (snd (st_stop_stream s)))) = SS_OFFLINE
   \<and> sl_state (st_audio_fsm (snd (st_stop_stream s))) = SS_OFFLINE"
proof -
  have stop: "fst (st_stop_stream s) = Inr ()"
    "sl_state (pp_asr_fsm (st_pipe (snd (st_stop_stream s)))) = SS_OFFLINE"
    "sl_state (st_audio_fsm (snd (st_stop_stream s))) = SS_OFFLINE"
    by (simp_all add: st_stop_stream_def sub_shutdown_eq Let_def)
  have wf: "session \<Longrightarrow> pp_wf (st_pipe (snd (st_start t (Inr x) (Inr ()) (new_streamer m session now))))" for x
    using vad_ready_new [of m] by (simp add: pp_wf_def st_start_fresh_state aw_wf_new) (simp add: new_vad_def Let_def)
  have again: "\<exists>e. fst (st_start t' created' mic' (snd (st_start t (Inr x) (Inr ()) (new_streamer m session now)))) = Inl e" for x
    by (rule st_start_again) (rule st_start_fresh_state)
  show ?thesis
    using stop wf again by (auto simp: st_start_fresh st_start_fresh_state Let_def)
qed

theorem streamer_start_stop_witness:
  "\<exists>s. st_start 0 (Inr (0, '''')) (Inr ()) (new_streamer toy_vad_models True 0) = (Inr (), s)
     \<and> pp_wf (st_pipe (s :: (nat \<times> string, unit) streamer))"
proof -
  let ?out = "st_start 0 (Inr (0 :: nat, '''' :: string)) (Inr ()) (new_streamer toy_vad_models True 0)"
  have "fst ?out = Inr () \<and> pp_wf (st_pipe (snd ?out))"
    using streamer_start_stop [of 0 "Inr (0 :: nat, '''' :: string)" "Inr ()" toy_vad_models True 0]
    unfolding Let_def by blast
  then show ?thesis by (intro exI [of _ "snd ?out"]) (simp add: prod_eq_iff)
qed

text \<open>The warning of the microphone callback that the worker is falling behind is never logged: the queue
  the streamer creates latches its own warning flag inside \<open>enqueue\<close>, at the same threshold, before
  the callback tests it; and the callback never raises.\<close>

theorem callback_warning_unreachable:
  assumes "aq_maxsize (pp_queue (st_pipe s)) = 0" "aq_warn_threshold (pp_queue (st_pipe s)) = AUDIO_QUEUE_MAX"
  shows "fst (st_audio_callback c s) = Inr False
     \<and> aq_queue (pp_queue (st_pipe (snd (st_audio_callback c s)))) = aq_queue (pp_queue (st_pipe s)) @ [c]"
  using assms by (simp add: st_audio_callback_def aq_enqueue_def aq_depth_def Let_def)

theorem callback_warning_unreachable_witness:
  "fst (st_audio_callback [0] (new_streamer toy_vad_models True 0 :: (nat \<times> string, unit) streamer)) = Inr False"
  using callback_warning_unreachable [of "new_streamer toy_vad_models True 0 :: (nat \<times> string, unit) streamer" "[0]"]
  by (simp add: new_streamer_def new_audio_queue_def)

end
