(* ===== verification/Hypothesis_Buffer.thy ===== *)
theory Hypothesis_Buffer
  imports Settings
begin

text \<open>
  \<^verbatim>\<open>src/runtime/audio/realtime/ring_buffer.py\<close>: the rolling window of hypotheses. An entry is the
  triple (timestamp, text, stability) of the code. \<open>push\<close> reads the clock twice, once for the entry
  and once in \<open>_purge\<close>; both readings are arguments.
\<close>

section \<open>State and operations\<close>

type_synonym hypothesis = "time_s \<times> string \<times> nat"

record hyp_buffer =
  hb_buf :: "hypothesis list"

definition new_hyp_buffer :: hyp_buffer where
  "new_hyp_buffer = \<lparr>hb_buf = []\<rparr>"

definition hb_purge :: "time_s \<Rightarrow> hyp_buffer \<Rightarrow> hyp_buffer" where
  "hb_purge now b = b\<lparr>hb_buf := dropWhile (\<lambda>e. fst e < now - WINDOW_SECONDS) (hb_buf b)\<rparr>"

definition hb_push :: "time_s \<Rightarrow> time_s \<Rightarrow> string \<Rightarrow> nat \<Rightarrow> hyp_buffer \<Rightarrow> hyp_buffer" where
  "hb_push now now' text stability b =
     (if hb_buf b \<noteq> [] \<and>
         (let last_text = fst (snd (last (hb_buf b))) in
          last_text \<noteq> '''' \<and> (prefix last_text text \<or> prefix text last_text))
      then hb_purge now' (b\<lparr>hb_buf := butlast (hb_buf b) @ [(now, text, stability)]\<rparr>)
      else hb_purge now' (b\<lparr>hb_buf := hb_buf b @ [(now, text, stability)]\<rparr>))"

definition hb_get_window :: "time_s \<Rightarrow> hyp_buffer \<Rightarrow> (string \<times> nat) list \<times> hyp_buffer" where
  "hb_get_window now b = (let b' = hb_purge now b in (map snd (hb_buf b'), b'))"

definition hb_clear :: "hyp_buffer \<Rightarrow> hyp_buffer" where
  "hb_clear b = b\<lparr>hb_buf := []\<rparr>"

definition hb_len :: "time_s \<Rightarrow> hyp_buffer \<Rightarrow> nat \<times> hyp_buffer" where
  "hb_len now b = (let b' = hb_purge now b in (length (hb_buf b'), b'))"

section \<open>Invariant\<close>

text \<open>Entries are in the order of their timestamps, none of them in the future.\<close>

definition hb_wf :: "time_s \<Rightarrow> hyp_buffer \<Rightarrow> bool" where
  "hb_wf now b \<longleftrightarrow> sorted (map fst (hb_buf b)) \<and> (\<forall>e\<in>set (hb_buf b). fst e \<le> now)"

lemma hb_wf_new [ava_inv]: "hb_wf now new_hyp_buffer"
  by (simp add: hb_wf_def new_hyp_buffer_def)

lemma hb_wf_clear [ava_inv]: "hb_wf now (hb_clear b)"
  by (simp add: hb_wf_def hb_clear_def)

lemma hb_wf_later: "hb_wf t b \<Longrightarrow> t \<le> now \<Longrightarrow> hb_wf now b"
  by (force simp: hb_wf_def)

lemma sorted_dropWhile_fst: "sorted (map fst xs) \<Longrightarrow> sorted (map fst (dropWhile P xs))"
  by (induction xs) auto

lemma dropWhile_old_filter:
  "sorted (map fst xs) \<Longrightarrow>
     dropWhile (\<lambda>e. fst e < c) xs = filter (\<lambda>e. c \<le> fst e) (xs :: (rat \<times> 'a) list)"
  by (induction xs) (auto simp: not_less intro!: filter_True [symmetric])

lemma hb_wf_purge [ava_inv]: "hb_wf now b \<Longrightarrow> hb_wf now (hb_purge t b)"
  by (auto simp: hb_wf_def hb_purge_def sorted_dropWhile_fst dest: set_dropWhileD)

lemma hb_wf_snoc:
  assumes "hb_wf t b" "t \<le> now"
  shows "hb_wf now (b\<lparr>hb_buf := hb_buf b @ [(now, x)]\<rparr>)"
    and "hb_wf now (b\<lparr>hb_buf := butlast (hb_buf b) @ [(now, x)]\<rparr>)"
proof -
  have s: "sorted (map fst (butlast (hb_buf b)))"
    using assms(1) by (simp add: hb_wf_def map_butlast sorted_butlast)
  show "hb_wf now (b\<lparr>hb_buf := hb_buf b @ [(now, x)]\<rparr>)"
    using assms by (force simp: hb_wf_def sorted_append)
  show "hb_wf now (b\<lparr>hb_buf := butlast (hb_buf b) @ [(now, x)]\<rparr>)"
    using assms s by (force simp: hb_wf_def sorted_append dest: in_set_butlastD)
qed

lemma hb_wf_push [ava_inv]:
  "hb_wf t b \<Longrightarrow> t \<le> now \<Longrightarrow> hb_wf now (hb_push now now' text stab b)"
  by (simp add: hb_push_def Let_def hb_wf_purge hb_wf_snoc)

lemma hb_purge_filter:
  "hb_wf t b \<Longrightarrow> hb_buf (hb_purge now b) = filter (\<lambda>e. now - WINDOW_SECONDS \<le> fst e) (hb_buf b)"
  by (simp add: hb_wf_def hb_purge_def dropWhile_old_filter)

lemma hb_push_last:
  assumes "hb_wf t b" "t \<le> now" "now' - WINDOW_SECONDS \<le> now"
  shows "hb_buf (hb_push now now' text stab b) \<noteq> [] \<and>
     last (hb_buf (hb_push now now' text stab b)) = (now, text, stab)"
proof -
  note w = hb_wf_snoc [OF assms(1,2)]
  show ?thesis
    using assms(3) hb_purge_filter [OF w(1)] hb_purge_filter [OF w(2)]
    by (simp add: hb_push_def Let_def)
qed

section \<open>Properties\<close>

text \<open>With a clock that does not go back, the window never shows a hypothesis older than
  \<open>WINDOW_SECONDS\<close> and loses none that is newer: reading it returns exactly the recent entries, in
  arrival order, and the hypothesis just pushed is always its last one; a pushed text that extends
  the newest entry, or is extended by it, replaces that entry instead of being appended.\<close>

theorem window_exact:
  assumes "hb_wf t b" "t \<le> now" "now \<le> now'" "now' \<le> now + WINDOW_SECONDS"
  shows "fst (hb_get_window now b) =
           map snd (filter (\<lambda>e. now - WINDOW_SECONDS \<le> fst e) (hb_buf b))
     \<and> fst (hb_get_window now' (hb_push now now text stab b)) \<noteq> []
     \<and> last (fst (hb_get_window now' (hb_push now now text stab b))) = (text, stab)
     \<and> hb_wf now (hb_push now now text stab b)
     \<and> (hb_buf b \<noteq> [] \<and> fst (snd (last (hb_buf b))) \<noteq> '''' \<and>
           (prefix (fst (snd (last (hb_buf b)))) text \<or> prefix text (fst (snd (last (hb_buf b))))) \<longrightarrow>
         length (hb_buf (hb_push now now text stab b)) \<le> length (hb_buf b))"
proof (intro conjI impI)
  have wf: "hb_wf now (hb_push now now text stab b)" using assms(1,2) by (rule hb_wf_push)
  have recent: "now - WINDOW_SECONDS \<le> now" by (simp add: settings)
  have l: "hb_buf (hb_push now now text stab b) \<noteq> []"
    "last (hb_buf (hb_push now now text stab b)) = (now, text, stab)"
    using hb_push_last [OF assms(1,2) recent] by blast+
  obtain ys where ys: "hb_buf (hb_push now now text stab b) = ys @ [(now, text, stab)]"
    using l by (metis append_butlast_last_id)
  have get: "fst (hb_get_window now' (hb_push now now text stab b)) =
      map snd (filter (\<lambda>e. now' - WINDOW_SECONDS \<le> fst e) ys) @ [(text, stab)]"
    using assms(4) hb_purge_filter [OF wf] by (simp add: hb_get_window_def Let_def ys)
  show "fst (hb_get_window now b) =
      map snd (filter (\<lambda>e. now - WINDOW_SECONDS \<le> fst e) (hb_buf b))"
    using hb_purge_filter [OF assms(1)] by (simp add: hb_get_window_def Let_def)
  show "fst (hb_get_window now' (hb_push now now text stab b)) \<noteq> []" by (simp add: get)
  show "last (fst (hb_get_window now' (hb_push now now text stab b))) = (text, stab)" by (simp add: get)
  show "hb_wf now (hb_push now now text stab b)" by (rule wf)
  assume c: "hb_buf b \<noteq> [] \<and> fst (snd (last (hb_buf b))) \<noteq> '''' \<and>
      (prefix (fst (snd (last (hb_buf b)))) text \<or> prefix text (fst (snd (last (hb_buf b)))))"
  then have "length (hb_buf (hb_push now now text stab b)) \<le>
      length (butlast (hb_buf b) @ [(now, text, stab)])"
    by (simp add: hb_push_def hb_purge_def Let_def length_dropWhile_le del: length_append)
  also have "\<dots> = length (hb_buf b)" using c by (cases "hb_buf b" rule: rev_cases) auto
  finally show "length (hb_buf (hb_push now now text stab b)) \<le> length (hb_buf b)" .
qed

theorem window_exact_witness:
  "last (fst (hb_get_window 3 (hb_push 2 2 ''hey ava'' 1 \<lparr>hb_buf = [(1, ''hey'', 0)]\<rparr>))) = (''hey ava'', 1)
   \<and> length (hb_buf (hb_push 2 2 ''hey ava'' 1 \<lparr>hb_buf = [(1, ''hey'', 0)]\<rparr>)) \<le> 1"
  using window_exact [of 1 "\<lparr>hb_buf = [(1, ''hey'', 0)]\<rparr>" 2 3 "''hey ava''" 1]
  by (simp add: hb_wf_def settings)

end
