(* ===== verification/Confidence.thy ===== *)
theory Confidence
  imports Settings
begin

text \<open>
  \<^verbatim>\<open>src/runtime/matcher/scorers/phonetic.py\<close> (the confidence scorer) and
  \<^verbatim>\<open>src/runtime/matcher/cooldown.py\<close> (the temporal gate after a wake event).
\<close>

section \<open>Confidence\<close>

definition compute_confidence :: "pyfloat \<Rightarrow> nat \<Rightarrow> nat \<Rightarrow> pyfloat" where
  "compute_confidence match_score window_size hit_count =
     (let effective_size = max window_size 3;
          repeat_rate = rat_of_nat hit_count / rat_of_nat effective_size;
          repeat_bonus = min repeat_rate 1 * (20/100);
          score = match_score * (80/100) + repeat_bonus
      in min score 1)"

definition is_confident :: "pyfloat \<Rightarrow> bool" where
  "is_confident score \<longleftrightarrow> CONFIDENCE_THRESHOLD \<le> score"

lemma repeat_rate_nonneg: "0 \<le> min (rat_of_nat h / rat_of_nat n) 1"
  by simp

lemma confidence_bounds: "0 \<le> m \<Longrightarrow> 0 \<le> compute_confidence m w h \<and> compute_confidence m w h \<le> 1"
  using repeat_rate_nonneg [of h "max w 3"] by (simp add: compute_confidence_def Let_def)

lemma confidence_mono_match: "m \<le> m' \<Longrightarrow> compute_confidence m w h \<le> compute_confidence m' w h"
  by (simp add: compute_confidence_def Let_def min.coboundedI1 min.mono)

lemma confidence_mono_hits:
  assumes "h \<le> h'" shows "compute_confidence m w h \<le> compute_confidence m w h'"
proof -
  have "rat_of_nat h / rat_of_nat (max w 3) \<le> rat_of_nat h' / rat_of_nat (max w 3)"
    using assms by (simp add: divide_right_mono)
  then have "min (rat_of_nat h / rat_of_nat (max w 3)) 1 \<le> min (rat_of_nat h' / rat_of_nat (max w 3)) 1"
    by (rule min.mono) simp
  then show ?thesis unfolding compute_confidence_def Let_def by (intro min.mono) simp_all
qed

lemma confidence_upper: "compute_confidence m w h \<le> m * (80/100) + 20/100"
proof -
  have "min (rat_of_nat h / rat_of_nat (max w 3)) 1 \<le> 1" by simp
  then show ?thesis unfolding compute_confidence_def Let_def by (rule_tac min.coboundedI1) simp
qed

lemma confidence_zero_match: "compute_confidence 0 w h \<le> 20/100"
  using confidence_upper [of 0 w h] by simp

section \<open>Cooldown\<close>

record cooldown_gate =
  cg_last_trigger :: time_s

definition new_cooldown :: cooldown_gate where
  "new_cooldown = \<lparr>cg_last_trigger = 0\<rparr>"

definition cg_can_trigger :: "time_s \<Rightarrow> cooldown_gate \<Rightarrow> bool" where
  "cg_can_trigger now g \<longleftrightarrow> COOLDOWN_SECONDS \<le> now - cg_last_trigger g"

definition cg_mark_triggered :: "time_s \<Rightarrow> cooldown_gate \<Rightarrow> cooldown_gate" where
  "cg_mark_triggered now g = g\<lparr>cg_last_trigger := now\<rparr>"

definition cg_time_remaining :: "time_s \<Rightarrow> cooldown_gate \<Rightarrow> time_s" where
  "cg_time_remaining now g = max 0 (COOLDOWN_SECONDS - (now - cg_last_trigger g))"

definition cg_reset :: "cooldown_gate \<Rightarrow> cooldown_gate" where
  "cg_reset g = g\<lparr>cg_last_trigger := 0\<rparr>"

text \<open>The two readings of the gate agree.\<close>

lemma cg_can_trigger_iff_remaining: "cg_can_trigger now g \<longleftrightarrow> cg_time_remaining now g = 0"
  by (auto simp: cg_can_trigger_def cg_time_remaining_def max_def)

lemma cg_blocked_after_mark:
  "cg_can_trigger now (cg_mark_triggered t g) \<longleftrightarrow> t + COOLDOWN_SECONDS \<le> now"
  by (auto simp: cg_can_trigger_def cg_mark_triggered_def)

section \<open>Properties\<close>

text \<open>A match score in [0, 1] gives a confidence in [0, 1] that grows with the match score and with
  the number of hits; and repeated hits cannot replace a match: to be confident at the threshold
  0.78 the match score must be at least 0.725, whatever the window holds.\<close>

theorem confidence_sound:
  assumes "0 \<le> m" "m \<le> m'" "h \<le> h'"
  shows "0 \<le> compute_confidence m w h \<and> compute_confidence m' w h' \<le> 1
     \<and> compute_confidence m w h \<le> compute_confidence m' w h'
     \<and> (is_confident (compute_confidence m' w h') \<longrightarrow> 725/1000 \<le> m')"
proof -
  have "compute_confidence m w h \<le> compute_confidence m' w h'"
    using confidence_mono_match [OF assms(2), of w h] confidence_mono_hits [OF assms(3), of m' w]
    by (rule order_trans)
  moreover have "725/1000 \<le> m'" if "is_confident (compute_confidence m' w h')"
    using that confidence_upper [of m' w h'] by (simp add: is_confident_def settings)
  ultimately show ?thesis using confidence_bounds [of m w h] confidence_bounds [of m' w h'] assms by auto
qed

theorem confidence_sound_witness:
  "compute_confidence (1/2) 4 1 \<le> compute_confidence (9/10) 4 3
   \<and> is_confident (compute_confidence (9/10) 4 3) \<and> 725/1000 \<le> (9/10 :: rat)"
proof -
  have c: "is_confident (compute_confidence (9/10) 4 3)"
    by (simp add: is_confident_def compute_confidence_def settings)
  with confidence_sound [of "1/2" "9/10" 1 3 4] show ?thesis by simp
qed

end
