(* ===== verification/Phrase_Registry.thy ===== *)
theory Phrase_Registry
  imports Ava_Contracts
begin

text \<open>
  \<^verbatim>\<open>src/runtime/matcher/registry/phrase_registry.py\<close>: the immutable phrase descriptor with its
  validation, and the registry of phrases by id. A profile's phrase entry is typed as the profile
  schema has it (a string is a string, a number a number) with every key optional; a missing
  required key is the \<open>KeyError\<close> the code raises. The registry is interpreted as a keyed store.
\<close>

section \<open>Phrase descriptors\<close>

record phrase_config =
  pc_phrase_id :: string
  pc_phrase :: string
  pc_variants :: "string list"
  pc_threshold :: pyfloat
  pc_cooldown_ms :: int
  pc_enabled :: bool
  pc_weight :: pyfloat

definition pc_post_init :: "phrase_config \<Rightarrow> py_exc + phrase_config" where
  "pc_post_init p =
     (if pc_phrase_id p = '''' then Inl (ValueError ''PhraseConfig.phrase_id must not be empty'')
      else if pc_phrase p = '''' then Inl (ValueError ''PhraseConfig.phrase must not be empty'')
      else if \<not> (0 < pc_threshold p \<and> pc_threshold p \<le> 1)
        then Inl (ValueError ''PhraseConfig.threshold must be in (0, 1]'')
      else if pc_cooldown_ms p < 0 then Inl (ValueError ''PhraseConfig.cooldown_ms must be >= 0'')
      else Inr p)"

record phrase_data =
  pd_phraseId :: "string option"
  pd_phrase :: "string option"
  pd_variants :: "string list option"
  pd_threshold :: "pyfloat option"
  pd_cooldownMs :: "pyfloat option"
  pd_enabled :: "bool option"
  pd_weight :: "pyfloat option"

definition norm_text :: "string \<Rightarrow> string" where
  "norm_text s = py_lower (py_strip s)"

fun clean_from :: "string list \<Rightarrow> string list \<Rightarrow> string list" where
  "clean_from acc [] = acc"
| "clean_from acc (v # vs) =
     (let norm = norm_text v in
      if norm \<noteq> '''' \<and> norm \<notin> set acc then clean_from (acc @ [norm]) vs else clean_from acc vs)"

definition clean_variants :: "string list \<Rightarrow> string list" where
  "clean_variants vs = clean_from [] vs"

definition require_key :: "string \<Rightarrow> 'a option \<Rightarrow> py_exc + 'a" where
  "require_key k x = (case x of None \<Rightarrow> Inl (KeyError k) | Some v \<Rightarrow> Inr v)"

definition pc_from_dict :: "phrase_data \<Rightarrow> py_exc + phrase_config" where
  "pc_from_dict data =
     sbind (require_key ''phraseId'' (pd_phraseId data)) (\<lambda>pid.
     sbind (require_key ''phrase'' (pd_phrase data)) (\<lambda>phrase.
     sbind (require_key ''threshold'' (pd_threshold data)) (\<lambda>threshold.
     pc_post_init
       \<lparr>pc_phrase_id = pid,
        pc_phrase = norm_text phrase,
        pc_variants = clean_variants (case pd_variants data of None \<Rightarrow> [] | Some vs \<Rightarrow> vs),
        pc_threshold = threshold,
        pc_cooldown_ms = py_int (case pd_cooldownMs data of None \<Rightarrow> 2000 | Some c \<Rightarrow> c),
        pc_enabled = (case pd_enabled data of None \<Rightarrow> True | Some b \<Rightarrow> b),
        pc_weight = (case pd_weight data of None \<Rightarrow> 1 | Some w \<Rightarrow> w)\<rparr>)))"

text \<open>
  The keys \<open>with_updates\<close> accepts (\<open>cooldown_ms\<close> and \<open>cooldownMs\<close> name the same field); any other
  key is ignored. \<open>dataclasses.replace\<close> builds a new object, so the validation runs again.
\<close>

datatype phrase_update =
    Upd_threshold pyfloat | Upd_cooldown int | Upd_enabled bool | Upd_weight pyfloat
  | Upd_variants "string list" | Upd_ignored string

fun apply_update :: "phrase_update \<Rightarrow> phrase_config \<Rightarrow> phrase_config" where
  "apply_update (Upd_threshold t) p = p\<lparr>pc_threshold := t\<rparr>"
| "apply_update (Upd_cooldown c) p = p\<lparr>pc_cooldown_ms := c\<rparr>"
| "apply_update (Upd_enabled b) p = p\<lparr>pc_enabled := b\<rparr>"
| "apply_update (Upd_weight w) p = p\<lparr>pc_weight := w\<rparr>"
| "apply_update (Upd_variants vs) p = p\<lparr>pc_variants := clean_variants vs\<rparr>"
| "apply_update (Upd_ignored k) p = p"

definition pc_with_updates :: "phrase_update list \<Rightarrow> phrase_config \<Rightarrow> py_exc + phrase_config" where
  "pc_with_updates us p = pc_post_init (fold apply_update us p)"

subsection \<open>Valid descriptors\<close>

definition norm_variants :: "string list \<Rightarrow> bool" where
  "norm_variants vs \<longleftrightarrow> distinct vs \<and> (\<forall>v\<in>set vs. v \<noteq> '''' \<and> py_lower v = v)"

definition pc_valid :: "phrase_config \<Rightarrow> bool" where
  "pc_valid p \<longleftrightarrow>
     pc_phrase_id p \<noteq> '''' \<and> pc_phrase p \<noteq> '''' \<and> py_lower (pc_phrase p) = pc_phrase p \<and>
     0 < pc_threshold p \<and> pc_threshold p \<le> 1 \<and> 0 \<le> pc_cooldown_ms p \<and> norm_variants (pc_variants p)"

lemma norm_text_lower [simp]: "py_lower (norm_text s) = norm_text s"
  by (simp add: norm_text_def)

lemma norm_variants_snoc:
  "norm_variants acc \<Longrightarrow> norm_text v \<noteq> '''' \<Longrightarrow> norm_text v \<notin> set acc \<Longrightarrow>
     norm_variants (acc @ [norm_text v])"
  unfolding norm_variants_def by (simp add: ball_Un)

lemma clean_from_norm: "norm_variants acc \<Longrightarrow> norm_variants (clean_from acc vs)"
  by (induction acc vs rule: clean_from.induct) (simp_all add: Let_def norm_variants_snoc)

lemma clean_from_set: "set (clean_from acc vs) = set acc \<union> (norm_text ` set vs - {''''})"
  by (induction acc vs rule: clean_from.induct) (auto simp: Let_def)

lemma clean_variants_norm [simp]: "norm_variants (clean_variants vs)"
  unfolding clean_variants_def by (rule clean_from_norm) (simp add: norm_variants_def)

lemma clean_variants_set: "set (clean_variants vs) = norm_text ` set vs - {''''}"
  by (simp add: clean_variants_def clean_from_set)

lemma pc_post_init_Inr:
  "pc_post_init p = Inr q \<longleftrightarrow> q = p \<and> pc_phrase_id p \<noteq> '''' \<and> pc_phrase p \<noteq> '''' \<and>
     0 < pc_threshold p \<and> pc_threshold p \<le> 1 \<and> 0 \<le> pc_cooldown_ms p"
  unfolding pc_post_init_def if_Inl_eq_Inr sum.inject not_not not_less by (rule iffI; elim conjE; simp)

lemma pc_from_dict_valid: "pc_from_dict data = Inr p \<Longrightarrow> pc_valid p"
  by (auto simp: pc_from_dict_def sbind_eq_Inr pc_post_init_Inr pc_valid_def)

lemma apply_updates_keep:
  "norm_variants (pc_variants p) \<Longrightarrow>
     pc_phrase_id (fold apply_update us p) = pc_phrase_id p
   \<and> pc_phrase (fold apply_update us p) = pc_phrase p
   \<and> norm_variants (pc_variants (fold apply_update us p))"
proof (induction us arbitrary: p)
  case (Cons u us)
  have "norm_variants (pc_variants (apply_update u p))" "pc_phrase_id (apply_update u p) = pc_phrase_id p"
    "pc_phrase (apply_update u p) = pc_phrase p"
    using Cons.prems by (cases u; simp)+
  with Cons.IH [of "apply_update u p"] show ?case by simp
qed simp

lemma pc_with_updates_valid:
  "pc_valid p \<Longrightarrow> pc_with_updates us p = Inr q \<Longrightarrow> pc_valid q \<and> pc_phrase_id q = pc_phrase_id p"
  using apply_updates_keep [of p us] by (auto simp: pc_valid_def pc_with_updates_def pc_post_init_Inr)

section \<open>The registry\<close>

record phrase_registry =
  pr_phrases :: "(string, phrase_config) dict"

definition new_registry :: phrase_registry where
  "new_registry = \<lparr>pr_phrases = []\<rparr>"

definition pr_put :: "string \<Rightarrow> phrase_config \<Rightarrow> phrase_registry \<Rightarrow> phrase_registry" where
  "pr_put k p r = r\<lparr>pr_phrases := AList.update k p (pr_phrases r)\<rparr>"

definition pr_add_phrase :: "phrase_config \<Rightarrow> phrase_registry \<Rightarrow> phrase_registry" where
  "pr_add_phrase p r = pr_put (pc_phrase_id p) p r"

definition pr_remove_phrase :: "string \<Rightarrow> phrase_registry \<Rightarrow> phrase_registry" where
  "pr_remove_phrase k r = r\<lparr>pr_phrases := AList.delete k (pr_phrases r)\<rparr>"

definition pr_get_by_id :: "phrase_registry \<Rightarrow> string \<Rightarrow> phrase_config option" where
  "pr_get_by_id r k = map_of (pr_phrases r) k"

definition pr_enable_phrase :: "string \<Rightarrow> phrase_registry \<Rightarrow> phrase_registry" where
  "pr_enable_phrase k r =
     (case pr_get_by_id r k of None \<Rightarrow> r | Some p \<Rightarrow> pr_put k (p\<lparr>pc_enabled := True\<rparr>) r)"

definition pr_disable_phrase :: "string \<Rightarrow> phrase_registry \<Rightarrow> phrase_registry" where
  "pr_disable_phrase k r =
     (case pr_get_by_id r k of None \<Rightarrow> r | Some p \<Rightarrow> pr_put k (p\<lparr>pc_enabled := False\<rparr>) r)"

definition pr_update_phrase :: "string \<Rightarrow> phrase_update list \<Rightarrow> phrase_registry \<Rightarrow> py_exc + phrase_registry" where
  "pr_update_phrase k us r =
     (case pr_get_by_id r k of
        None \<Rightarrow> Inr r
      | Some p \<Rightarrow> sbind (pc_with_updates us p) (\<lambda>p'. Inr (pr_put k p' r)))"

definition pr_clear :: "phrase_registry \<Rightarrow> phrase_registry" where
  "pr_clear r = r\<lparr>pr_phrases := []\<rparr>"

definition pr_get_all :: "phrase_registry \<Rightarrow> phrase_config list" where
  "pr_get_all r = map snd (pr_phrases r)"

definition pr_get_active :: "phrase_registry \<Rightarrow> phrase_config list" where
  "pr_get_active r = filter pc_enabled (map snd (pr_phrases r))"

definition pr_is_empty :: "phrase_registry \<Rightarrow> bool" where
  "pr_is_empty r \<longleftrightarrow> length (pr_phrases r) = 0"

definition pr_count :: "phrase_registry \<Rightarrow> nat" where
  "pr_count r = length (pr_phrases r)"

definition pr_active_count :: "phrase_registry \<Rightarrow> nat" where
  "pr_active_count r = length (filter pc_enabled (map snd (pr_phrases r)))"

lemmas pr_defs = pr_put_def pr_add_phrase_def pr_remove_phrase_def pr_get_by_id_def
  pr_enable_phrase_def pr_disable_phrase_def pr_clear_def

subsection \<open>Invariant\<close>

definition pr_dict_wf :: "phrase_registry \<Rightarrow> bool" where
  "pr_dict_wf r = dict_wf (pr_phrases r)"

interpretation pstore: keyed_store pr_put pr_get_by_id pr_remove_phrase pr_dict_wf
  by unfold_locales (auto simp: pr_defs pr_dict_wf_def)

definition pr_wf :: "phrase_registry \<Rightarrow> bool" where
  "pr_wf r \<longleftrightarrow> pr_dict_wf r \<and>
     (\<forall>k p. pr_get_by_id r k = Some p \<longrightarrow> pc_phrase_id p = k \<and> pc_valid p)"

lemma pr_wf_put: "pr_wf r \<Longrightarrow> pc_phrase_id p = k \<Longrightarrow> pc_valid p \<Longrightarrow> pr_wf (pr_put k p r)"
  by (simp add: pr_wf_def pstore.put_inv pstore.put_get)

lemma pr_wf_new [ava_inv]: "pr_wf new_registry"
  by (simp add: pr_wf_def new_registry_def pr_dict_wf_def pr_get_by_id_def)

lemma pr_wf_add [ava_inv]: "pr_wf r \<Longrightarrow> pc_valid p \<Longrightarrow> pr_wf (pr_add_phrase p r)"
  by (simp add: pr_add_phrase_def pr_wf_put)

lemma pr_wf_remove [ava_inv]: "pr_wf r \<Longrightarrow> pr_wf (pr_remove_phrase k r)"
  by (simp add: pr_wf_def pstore.remove_inv pstore.remove_get)

lemma pr_wf_enable [ava_inv]: "pr_wf r \<Longrightarrow> pr_wf (pr_enable_phrase k r)"
  by (auto simp: pr_enable_phrase_def split: option.splits intro!: pr_wf_put)
     (auto simp: pr_wf_def pc_valid_def)

lemma pr_wf_disable [ava_inv]: "pr_wf r \<Longrightarrow> pr_wf (pr_disable_phrase k r)"
  by (auto simp: pr_disable_phrase_def split: option.splits intro!: pr_wf_put)
     (auto simp: pr_wf_def pc_valid_def)

lemma pr_wf_update [ava_inv]: "pr_wf r \<Longrightarrow> pr_update_phrase k us r = Inr r' \<Longrightarrow> pr_wf r'"
proof (cases "pr_get_by_id r k")
  case (Some p)
  assume wf: "pr_wf r" and "pr_update_phrase k us r = Inr r'"
  then obtain q where q: "pc_with_updates us p = Inr q" "r' = pr_put k q r"
    using Some by (auto simp: pr_update_phrase_def sbind_eq_Inr)
  have p: "pc_phrase_id p = k" "pc_valid p" using wf Some by (simp_all add: pr_wf_def)
  with q(1) have "pc_valid q" "pc_phrase_id q = k" using pc_with_updates_valid by blast+
  with wf q(2) show "pr_wf r'" by (simp add: pr_wf_put)
qed (simp add: pr_update_phrase_def)

lemma pr_wf_clear [ava_inv]: "pr_wf (pr_clear r)"
  by (simp add: pr_wf_def pr_clear_def pr_dict_wf_def pr_get_by_id_def)

lemma pr_get_all_iff: "pr_dict_wf r \<Longrightarrow> p \<in> set (pr_get_all r) \<longleftrightarrow> (\<exists>k. pr_get_by_id r k = Some p)"
  by (force simp: pr_get_all_def pr_get_by_id_def pr_dict_wf_def map_of_in_set)

lemma pr_get_active_iff:
  "pr_dict_wf r \<Longrightarrow> p \<in> set (pr_get_active r) \<longleftrightarrow> (\<exists>k. pr_get_by_id r k = Some p) \<and> pc_enabled p"
  using pr_get_all_iff [of r p] by (auto simp: pr_get_active_def pr_get_all_def)

lemma pr_all_valid: "pr_wf r \<Longrightarrow> p \<in> set (pr_get_all r) \<Longrightarrow> pc_valid p"
  by (auto simp: pr_wf_def pr_get_all_iff)

section \<open>Loading phrases\<close>

text \<open>The registry part of \<open>load_profile\<close>: every entry is parsed before the registry is cleared.\<close>

fun parse_phrases :: "phrase_data list \<Rightarrow> py_exc + phrase_config list" where
  "parse_phrases [] = Inr []"
| "parse_phrases (d # ds) =
     sbind (pc_from_dict d) (\<lambda>p. sbind (parse_phrases ds) (\<lambda>ps. Inr (p # ps)))"

definition pr_load :: "phrase_data list \<Rightarrow> phrase_registry \<Rightarrow> py_exc + phrase_registry" where
  "pr_load ds r = sbind (parse_phrases ds) (\<lambda>ps. Inr (fold pr_add_phrase ps (pr_clear r)))"

lemma parse_phrases_valid: "parse_phrases ds = Inr ps \<Longrightarrow> \<forall>p\<in>set ps. pc_valid p"
  by (induction ds arbitrary: ps) (auto simp: sbind_eq_Inr dest: pc_from_dict_valid)

lemma fold_add_put_all:
  "fold pr_add_phrase ps r = pstore.put_all (map (\<lambda>p. (pc_phrase_id p, p)) ps) r"
  by (induction ps arbitrary: r) (simp_all add: pstore.put_all_def pr_add_phrase_def)

lemma pr_wf_fold_add: "pr_wf r \<Longrightarrow> \<forall>p\<in>set ps. pc_valid p \<Longrightarrow> pr_wf (fold pr_add_phrase ps r)"
  by (induction ps arbitrary: r) (auto simp: pr_wf_add)

lemma pr_load_wf [ava_inv]: "pr_load ds r = Inr r' \<Longrightarrow> pr_wf r'"
  by (auto simp: pr_load_def sbind_eq_Inr intro!: pr_wf_fold_add pr_wf_clear dest: parse_phrases_valid)

section \<open>Properties\<close>

text \<open>A parsed phrase entry is valid: its phrase and variants are lower-case, the variants are
  distinct and non-empty and are exactly the normalised non-empty raw variants, the threshold is in
  (0, 1], the cooldown is not negative; updating a valid descriptor keeps that or raises.\<close>

theorem phrase_config_always_valid:
  "(pc_from_dict data = Inr p \<longrightarrow>
      pc_valid p \<and>
      set (pc_variants p) =
        norm_text ` set (case pd_variants data of None \<Rightarrow> [] | Some vs \<Rightarrow> vs) - {''''})
   \<and> (pc_valid p \<and> pc_with_updates us p = Inr q \<longrightarrow> pc_valid q \<and> pc_phrase_id q = pc_phrase_id p)"
proof (intro conjI impI)
  assume "pc_from_dict data = Inr p"
  then have "pc_variants p = clean_variants (case pd_variants data of None \<Rightarrow> [] | Some vs \<Rightarrow> vs)"
    by (auto simp: pc_from_dict_def sbind_eq_Inr pc_post_init_Inr)
  then show "set (pc_variants p) =
      norm_text ` set (case pd_variants data of None \<Rightarrow> [] | Some vs \<Rightarrow> vs) - {''''}"
    by (simp only: clean_variants_set)
qed (auto simp: pc_from_dict_valid dest: pc_with_updates_valid)

definition example_data :: phrase_data where
  "example_data = \<lparr>pd_phraseId = Some ''core'', pd_phrase = Some '' Jarvis'',
     pd_variants = Some [''JARVIS '', ''jarvis'', '' ''], pd_threshold = Some (7/10),
     pd_cooldownMs = None, pd_enabled = None, pd_weight = None\<rparr>"

lemma example_norms:
  "norm_text '' Jarvis'' = ''jarvis''" "norm_text ''JARVIS '' = ''jarvis''"
  "norm_text ''jarvis'' = ''jarvis''" "norm_text '' '' = ''''"
  by (simp_all add: norm_text_def py_lower_def py_strip_def lower_char_def is_space_def
      char_of_def bit_0)

definition example_phrase :: phrase_config where
  "example_phrase = \<lparr>pc_phrase_id = ''core'', pc_phrase = ''jarvis'', pc_variants = [''jarvis''],
     pc_threshold = 7/10, pc_cooldown_ms = 2000, pc_enabled = True, pc_weight = 1\<rparr>"

lemma example_parsed: "pc_from_dict example_data = Inr example_phrase"
  unfolding pc_from_dict_def
  by (simp add: example_data_def require_key_def clean_variants_def example_norms py_int_def
      pc_post_init_Inr) (simp add: example_phrase_def)

theorem phrase_config_always_valid_witness:
  "\<exists>p. pc_from_dict example_data = Inr p \<and> pc_variants p = [''jarvis''] \<and> pc_valid p"
  using phrase_config_always_valid [of example_data example_phrase] example_parsed
  by (intro exI [of _ example_phrase]) (simp add: example_phrase_def)

text \<open>Loading a profile's phrases replaces the registry: afterwards the entry of an id is the last
  parsed phrase with that id, nothing of the old content is left, the registry is well formed, and
  the active phrases are exactly the enabled ones; if any entry is malformed the old registry
  stays, since parsing precedes clearing.\<close>

theorem load_replaces_registry:
  assumes "pr_load ds r = Inr r'"
  shows "\<exists>ps. parse_phrases ds = Inr ps \<and> length ps = length ds \<and> pr_wf r'
     \<and> pr_get_by_id r' = map_of (rev (map (\<lambda>p. (pc_phrase_id p, p)) ps))
     \<and> (\<forall>p. p \<in> set (pr_get_active r') \<longleftrightarrow> pr_get_by_id r' (pc_phrase_id p) = Some p \<and> pc_enabled p)"
proof -
  from assms obtain ps where ps: "parse_phrases ds = Inr ps"
    and r': "r' = fold pr_add_phrase ps (pr_clear r)" by (auto simp: pr_load_def sbind_eq_Inr)
  have len: "parse_phrases ds = Inr ps \<Longrightarrow> length ps = length ds" for ds ps
    by (induction ds arbitrary: ps) (auto simp: sbind_eq_Inr)
  have wf: "pr_wf r'" using assms by (rule pr_load_wf)
  have "pr_dict_wf (pr_clear r)" "pr_get_by_id (pr_clear r) = Map.empty"
    using pr_wf_clear [of r] by (auto simp: pr_wf_def pr_clear_def pr_get_by_id_def)
  then have get: "pr_get_by_id r' = map_of (rev (map (\<lambda>p. (pc_phrase_id p, p)) ps))"
    using pstore.put_all_get by (simp add: r' fold_add_put_all)
  have "p \<in> set (pr_get_active r') \<longleftrightarrow> pr_get_by_id r' (pc_phrase_id p) = Some p \<and> pc_enabled p" for p
    using wf pr_get_active_iff [of r' p] by (auto simp: pr_wf_def)
  with ps len [OF ps] wf get show ?thesis by blast
qed

theorem load_replaces_registry_witness:
  "\<exists>r'. pr_load [example_data, example_data] new_registry = Inr r' \<and> pr_wf r' \<and> pr_count r' = 1"
proof -
  have "pr_load [example_data, example_data] new_registry = Inr \<lparr>pr_phrases = [(''core'', example_phrase)]\<rparr>"
    by (simp add: pr_load_def example_parsed pr_clear_def pr_add_phrase_def pr_put_def)
       (simp add: example_phrase_def)
  then show ?thesis using load_replaces_registry by (fastforce simp: pr_count_def)
qed

text \<open>Every operation of the registry keeps it well formed: each key holds a valid phrase with that
  very id, and enabling or disabling a phrase changes nothing but its flag.\<close>

theorem registry_operations_safe:
  assumes "pr_wf r"
  shows "pr_wf (pr_enable_phrase k r) \<and> pr_wf (pr_disable_phrase k r) \<and> pr_wf (pr_remove_phrase k r)
     \<and> (pc_valid p \<longrightarrow> pr_wf (pr_add_phrase p r))
     \<and> (\<forall>r'. pr_update_phrase k us r = Inr r' \<longrightarrow> pr_wf r')
     \<and> pr_get_by_id (pr_disable_phrase k r) =
         (pr_get_by_id r)(k := map_option (\<lambda>p. p\<lparr>pc_enabled := False\<rparr>) (pr_get_by_id r k))
     \<and> pr_get_by_id (pr_enable_phrase k (pr_disable_phrase k r)) = pr_get_by_id (pr_enable_phrase k r)"
proof (intro conjI impI allI)
  have d: "pr_dict_wf r" using assms by (simp add: pr_wf_def)
  show "pr_get_by_id (pr_disable_phrase k r) =
         (pr_get_by_id r)(k := map_option (\<lambda>p. p\<lparr>pc_enabled := False\<rparr>) (pr_get_by_id r k))"
    using d by (auto simp: pr_disable_phrase_def pstore.put_get fun_eq_iff split: option.splits)
  show "pr_get_by_id (pr_enable_phrase k (pr_disable_phrase k r)) = pr_get_by_id (pr_enable_phrase k r)"
    using d by (auto simp: pr_enable_phrase_def pr_disable_phrase_def pstore.put_get pstore.put_inv
        fun_eq_iff split: option.splits)
  show "pr_wf r'" if "pr_update_phrase k us r = Inr r'" for r'
    using assms that by (rule pr_wf_update)
qed (use assms in \<open>auto intro: ava_inv\<close>)

theorem registry_operations_safe_witness:
  "pr_wf new_registry \<and> pr_wf (pr_enable_phrase ''core'' new_registry)"
  using registry_operations_safe [OF pr_wf_new] pr_wf_new by blast

end
