(* ===== verification/Variants.thy ===== *)
theory Variants
  imports Phrase_Registry
begin

text \<open>
  \<^verbatim>\<open>src/runtime/matcher/variants.py\<close>: the index from anchor variants to canonical phrases that the
  anchor gate and the matcher read. The three module-level structures are one record; building it is
  a loop over all registered phrases with an inner loop over their variants, as in the code.
\<close>

section \<open>The index\<close>

text \<open>The entry of a phrase is the dictionary form of its descriptor, with the same seven fields.\<close>

record variant_index =
  vi_all :: "string list"
  vi_canon :: "(string, string) dict"
  vi_entry :: "(string, phrase_config) dict"

definition empty_index :: variant_index where
  "empty_index = \<lparr>vi_all = [], vi_canon = [], vi_entry = []\<rparr>"

definition index_variant :: "string \<Rightarrow> string \<Rightarrow> variant_index \<Rightarrow> variant_index" where
  "index_variant canonical v ix =
     (let norm = norm_text v in
      if norm = '''' then ix
      else ix\<lparr>vi_all := (if norm \<notin> set (vi_all ix) then vi_all ix @ [norm] else vi_all ix),
              vi_canon := AList.update norm canonical (vi_canon ix)\<rparr>)"

definition index_phrase :: "phrase_config \<Rightarrow> variant_index \<Rightarrow> variant_index" where
  "index_phrase cfg ix =
     fold (index_variant (pc_phrase cfg)) (pc_variants cfg)
       (ix\<lparr>vi_entry := AList.update (pc_phrase cfg) cfg (vi_entry ix)\<rparr>)"

definition build_index_from_registry :: "phrase_registry \<Rightarrow> variant_index" where
  "build_index_from_registry r = fold index_phrase (pr_get_all r) empty_index"

definition rebuild_index :: "phrase_registry \<Rightarrow> variant_index \<Rightarrow> variant_index" where
  "rebuild_index r ix = build_index_from_registry r"

section \<open>Queries\<close>

definition get_variants :: "variant_index \<Rightarrow> string list" where
  "get_variants ix = vi_all ix"

definition get_canonical :: "variant_index \<Rightarrow> string \<Rightarrow> string option" where
  "get_canonical ix v = map_of (vi_canon ix) (norm_text v)"

definition get_wakeword_for_phrase :: "variant_index \<Rightarrow> string \<Rightarrow> phrase_config option" where
  "get_wakeword_for_phrase ix phrase = map_of (vi_entry ix) (norm_text phrase)"

definition get_active_phrases :: "phrase_registry \<Rightarrow> string list" where
  "get_active_phrases r = map pc_phrase (pr_get_active r)"

section \<open>Invariant and reference definition\<close>

definition index_wf :: "variant_index \<Rightarrow> bool" where
  "index_wf ix \<longleftrightarrow>
     distinct (vi_all ix) \<and> '''' \<notin> set (vi_all ix) \<and> set (vi_all ix) = dom (map_of (vi_canon ix))"

text \<open>The pairs the loops write, in the order they write them.\<close>

definition variant_pairs :: "phrase_config list \<Rightarrow> (string \<times> string) list" where
  "variant_pairs ps =
     concat (map (\<lambda>p. map (\<lambda>v. (norm_text v, pc_phrase p)) (filter (\<lambda>v. norm_text v \<noteq> '''') (pc_variants p))) ps)"

lemma index_wf_empty [ava_inv]: "index_wf empty_index"
  by (simp add: index_wf_def empty_index_def)

lemma index_wf_variant [ava_inv]: "index_wf ix \<Longrightarrow> index_wf (index_variant c v ix)"
  by (auto simp: index_wf_def index_variant_def Let_def)

lemma index_wf_variants [ava_inv]: "index_wf ix \<Longrightarrow> index_wf (fold (index_variant c) vs ix)"
  by (induction vs arbitrary: ix) (auto intro: ava_inv)

lemma index_wf_entry [simp]: "index_wf (ix\<lparr>vi_entry := e\<rparr>) = index_wf ix"
  by (simp add: index_wf_def)

lemma index_wf_phrase [ava_inv]: "index_wf ix \<Longrightarrow> index_wf (index_phrase p ix)"
  by (simp add: index_phrase_def index_wf_variants)

lemma index_wf_phrases [ava_inv]: "index_wf ix \<Longrightarrow> index_wf (fold index_phrase ps ix)"
  by (induction ps arbitrary: ix) (auto intro: ava_inv)

lemma index_wf_build [ava_inv]: "index_wf (build_index_from_registry r)"
  by (simp add: build_index_from_registry_def ava_inv)

lemma index_variants_canon:
  "map_of (vi_canon (fold (index_variant c) vs ix)) =
     map_of (vi_canon ix) ++ map_of (rev (map (\<lambda>v. (norm_text v, c)) (filter (\<lambda>v. norm_text v \<noteq> '''') vs)))"
  by (induction vs arbitrary: ix) (simp_all add: index_variant_def Let_def)

lemma index_phrases_canon:
  "map_of (vi_canon (fold index_phrase ps ix)) = map_of (vi_canon ix) ++ map_of (rev (variant_pairs ps))"
  by (induction ps arbitrary: ix) (simp_all add: variant_pairs_def index_phrase_def index_variants_canon)

lemma build_canon:
  "map_of (vi_canon (build_index_from_registry r)) = map_of (rev (variant_pairs (pr_get_all r)))"
  by (simp add: build_index_from_registry_def index_phrases_canon empty_index_def)

lemma index_variants_entry: "vi_entry (fold (index_variant c) vs ix) = vi_entry ix"
  by (induction vs arbitrary: ix) (simp_all add: index_variant_def Let_def)

lemma index_phrases_entry:
  "map_of (vi_entry (fold index_phrase ps ix)) =
     map_of (vi_entry ix) ++ map_of (rev (map (\<lambda>p. (pc_phrase p, p)) ps))"
  by (induction ps arbitrary: ix) (simp_all add: index_phrase_def index_variants_entry)

lemma set_variant_pairs:
  "(v, c) \<in> set (variant_pairs ps) \<longleftrightarrow>
     (\<exists>p\<in>set ps. pc_phrase p = c \<and> v \<in> norm_text ` set (pc_variants p) \<and> v \<noteq> '''')"
  by (auto simp: variant_pairs_def)

lemma get_variants_iff:
  "v \<in> set (get_variants (build_index_from_registry r)) \<longleftrightarrow>
     v \<noteq> '''' \<and> (\<exists>p\<in>set (pr_get_all r). v \<in> norm_text ` set (pc_variants p))"
proof -
  have "v \<in> set (get_variants (build_index_from_registry r)) \<longleftrightarrow>
      v \<in> fst ` set (variant_pairs (pr_get_all r))"
    using index_wf_build [of r]
    by (simp add: index_wf_def get_variants_def build_canon dom_map_of_conv_image_fst)
  also have "\<dots> \<longleftrightarrow> (\<exists>c. (v, c) \<in> set (variant_pairs (pr_get_all r)))" by force
  finally show ?thesis by (auto simp: set_variant_pairs)
qed

lemma get_canonical_phrase:
  assumes "get_canonical (build_index_from_registry r) v = Some c"
  shows "\<exists>p\<in>set (pr_get_all r). pc_phrase p = c \<and> norm_text v \<in> norm_text ` set (pc_variants p)"
proof -
  from assms have "(norm_text v, c) \<in> set (variant_pairs (pr_get_all r))"
    using map_of_SomeD [of "rev (variant_pairs (pr_get_all r))" "norm_text v" c]
    by (simp add: get_canonical_def build_canon)
  then show ?thesis by (auto simp: set_variant_pairs)
qed

section \<open>Properties\<close>

text \<open>The rebuilt index covers every registered phrase, the disabled ones too: the anchor list has
  no duplicates and holds exactly the normalised variants of the registered phrases, every anchor
  has a canonical phrase, and a variant shared by several phrases belongs to the one registered
  last.\<close>

theorem variant_index_complete:
  "distinct (get_variants (rebuild_index r ix))
   \<and> (\<forall>v. v \<in> set (get_variants (rebuild_index r ix)) \<longleftrightarrow>
        v \<noteq> '''' \<and> (\<exists>p\<in>set (pr_get_all r). v \<in> norm_text ` set (pc_variants p)))
   \<and> (\<forall>v. get_canonical (rebuild_index r ix) v = map_of (rev (variant_pairs (pr_get_all r))) (norm_text v))
   \<and> (\<forall>v. norm_text v \<in> set (get_variants (rebuild_index r ix)) \<longleftrightarrow>
        (\<exists>c. get_canonical (rebuild_index r ix) v = Some c))"
  unfolding rebuild_index_def
proof (intro conjI allI)
  fix v
  have wf: "index_wf (build_index_from_registry r)" by (rule index_wf_build)
  show "distinct (get_variants (build_index_from_registry r))"
    using wf by (simp add: index_wf_def get_variants_def)
  show "v \<in> set (get_variants (build_index_from_registry r)) \<longleftrightarrow>
      v \<noteq> '''' \<and> (\<exists>p\<in>set (pr_get_all r). v \<in> norm_text ` set (pc_variants p))"
    by (rule get_variants_iff)
  show "get_canonical (build_index_from_registry r) v =
      map_of (rev (variant_pairs (pr_get_all r))) (norm_text v)"
    by (simp add: get_canonical_def build_canon)
  show "norm_text v \<in> set (get_variants (build_index_from_registry r)) \<longleftrightarrow>
      (\<exists>c. get_canonical (build_index_from_registry r) v = Some c)"
    using wf by (simp add: index_wf_def get_variants_def get_canonical_def domIff)
qed

end
