(* ===== verification/Evaluator.thy ===== *)
theory Evaluator
  imports Variants Settings
begin

text \<open>
  \<^verbatim>\<open>src/runtime/matcher/evaluator.py\<close>: the two-gate wake phrase matcher. The two similarity
  functions of third-party packages are parameters: \<open>jw\<close> is jellyfish's Jaro-Winkler similarity and
  \<open>tsr\<close> is rapidfuzz's \<open>token_set_ratio\<close>, of which the code relies on the documented range 0 to 100
  (\<open>ratio_ok\<close>). The variant index and the registry that the code reads from module globals are
  arguments.
\<close>

type_synonym window = "(string \<times> nat) list"

section \<open>Context words\<close>

definition derive_context_words :: "string \<Rightarrow> string list" where
  "derive_context_words phrase =
     (let words = py_split (py_strip phrase) in if length words \<le> 1 then [] else butlast words)"

section \<open>Gate 1: anchor presence\<close>

text \<open>\<open>near d a b\<close> is \<open>abs(a - b) <= d\<close> on lengths.\<close>

definition near :: "nat \<Rightarrow> nat \<Rightarrow> nat \<Rightarrow> bool" where
  "near d a b \<longleftrightarrow> \<bar>int a - int b\<bar> \<le> int d"

definition multi_token_hit :: "string \<Rightarrow> string \<Rightarrow> bool" where
  "multi_token_hit text variant =
     (let v = drop_blanks variant; text_stripped = concat (py_split (py_lower text)) in
      (near 2 (length (py_split (py_lower text))) (length (py_split variant))
         \<and> sublist variant (py_lower text))
      \<or> (near 3 (length text_stripped) (length v) \<and> sublist v text_stripped))"

definition token_hit :: "string \<Rightarrow> string \<Rightarrow> bool" where
  "token_hit v tok =
     (let tok_stripped = drop_blanks tok in
      (sublist v tok_stripped \<or> sublist tok_stripped v) \<and> near 2 (length tok_stripped) (length v))"

definition fuzzy_token_hit :: "(string \<Rightarrow> string \<Rightarrow> pyfloat) \<Rightarrow> string \<Rightarrow> string \<Rightarrow> bool" where
  "fuzzy_token_hit jw v tok \<longleftrightarrow> near 2 (length tok) (length v) \<and> JARO_THRESHOLD \<le> jw tok v"

definition variant_hit :: "(string \<Rightarrow> string \<Rightarrow> pyfloat) \<Rightarrow> string \<Rightarrow> string \<Rightarrow> bool" where
  "variant_hit jw text variant =
     (let tokens = py_split (py_lower text); v = drop_blanks variant in
      (CHR '' '' \<in> set variant \<and> multi_token_hit text variant)
      \<or> list_ex (token_hit v) tokens
      \<or> list_ex (fuzzy_token_hit jw v) tokens)"

definition anchor_present :: "(string \<Rightarrow> string \<Rightarrow> pyfloat) \<Rightarrow> variant_index \<Rightarrow> string \<Rightarrow> bool" where
  "anchor_present jw ix text = list_ex (variant_hit jw text) (get_variants ix)"

section \<open>Gate 2: scoring\<close>

definition context_score :: "string \<Rightarrow> string \<Rightarrow> pyfloat" where
  "context_score text phrase =
     (let ctx_words = derive_context_words phrase in
      if ctx_words = [] then 1
      else let text_words = set (py_split (py_lower text));
               matched = length (filter (\<lambda>w. w \<in> text_words) ctx_words)
           in rat_of_nat matched / rat_of_nat (length ctx_words))"

definition stability_score :: "window \<Rightarrow> pyfloat" where
  "stability_score w =
     (if w = [] then 0
      else rat_of_nat (length (filter (\<lambda>e. 2 \<le> snd e) w)) / rat_of_nat (length w))"

definition build_weighted_text :: "window \<Rightarrow> string" where
  "build_weighted_text w =
     py_lower (py_join '' '' (concat (map (\<lambda>(text, stab). replicate (1 + min (stab div 2) 3) text) w)))"

definition find_matched_variant :: "variant_index \<Rightarrow> string \<Rightarrow> window \<Rightarrow> string" where
  "find_matched_variant ix combined w =
     (let texts_to_check = combined # map fst w in
      fold (\<lambda>variant best_variant.
              if list_ex (\<lambda>text. sublist variant (py_lower text) \<and> length best_variant < length variant)
                   texts_to_check
              then variant else best_variant)
        (get_variants ix) '''')"

text \<open>\<open>list.sort(reverse=True)\<close> is stable, so it is the reverse of the ascending stable sort of the
  reversed list.\<close>

definition sort_desc :: "('a \<Rightarrow> 'k :: linorder) \<Rightarrow> 'a list \<Rightarrow> 'a list" where
  "sort_desc key xs = rev (sort_key key (rev xs))"

text \<open>\<open>max(xs, key=...)\<close> returns the first maximal element.\<close>

definition py_max_by :: "('a \<Rightarrow> 'k :: linorder) \<Rightarrow> 'a \<Rightarrow> 'a list \<Rightarrow> 'a" where
  "py_max_by key x xs = fold (\<lambda>y best. if key best < key y then y else best) xs x"

definition resolve_phrase_candidate :: "(pyfloat \<times> string) list \<Rightarrow> string" where
  "resolve_phrase_candidate candidates =
     (case candidates of
        [] \<Rightarrow> ''''
      | c # cs \<Rightarrow>
          if PHRASE_PRIORITY_MODE = ''score'' then snd (py_max_by fst c cs)
          else snd (hd (sort_desc (\<lambda>item. (fst item, length (snd item), snd item)) candidates)))"

text \<open>The body of the scoring loop for one phrase: \<open>None\<close> is a \<open>continue\<close>.\<close>

definition phrase_fuzzy ::
  "(string \<Rightarrow> string \<Rightarrow> pyfloat) \<Rightarrow> string \<Rightarrow> window \<Rightarrow> string option \<Rightarrow> string \<Rightarrow> string \<Rightarrow> pyfloat" where
  "phrase_fuzzy tsr combined w canonical_candidate matched_variant phrase =
     (let fuzzy_combined = tsr combined (py_lower phrase) / 100;
          fuzzy_individual = py_max (tsr (fst (hd w)) (py_lower phrase) / 100)
                               (map (\<lambda>(h_text, _). tsr h_text (py_lower phrase) / 100) (tl w));
          fuzzy_via_variant =
            (if canonical_candidate = Some phrase \<and> matched_variant \<noteq> ''''
             then tsr combined matched_variant / 100 * (85/100) else 0)
      in max (max fuzzy_combined fuzzy_individual) fuzzy_via_variant)"

definition boundary_score :: "window \<Rightarrow> string \<Rightarrow> pyfloat \<Rightarrow> pyfloat option" where
  "boundary_score w phrase score =
     (let candidate_tokens = card (set (concat (map (\<lambda>(h_text, _). py_split (py_lower h_text)) w)));
          phrase_tokens = card (set (py_split (py_lower phrase)))
      in if candidate_tokens < phrase_tokens
         then (if REQUIRE_FULL_PHRASE then None
               else if \<not> ALLOW_PREFIX_MATCHING
                 then Some (min score (rat_of_nat candidate_tokens / rat_of_nat phrase_tokens))
                 else Some score)
         else Some score)"

definition score_phrase ::
  "(string \<Rightarrow> string \<Rightarrow> pyfloat) \<Rightarrow> string \<Rightarrow> window \<Rightarrow> string option \<Rightarrow> string \<Rightarrow> string \<Rightarrow> pyfloat option" where
  "score_phrase tsr combined w canonical_candidate matched_variant phrase =
     (let fuzzy = phrase_fuzzy tsr combined w canonical_candidate matched_variant phrase in
      if fuzzy < FUZZY_THRESHOLD / 100 then None
      else boundary_score w phrase
             (fuzzy * WEIGHT_MATCH + context_score combined phrase * WEIGHT_CONTEXT
                + stability_score w * WEIGHT_STABILITY))"

fun score_all :: "(string \<Rightarrow> pyfloat option) \<Rightarrow> string list \<Rightarrow> (pyfloat \<times> string) list" where
  "score_all f [] = []"
| "score_all f (p # ps) =
     (case f p of None \<Rightarrow> score_all f ps | Some s \<Rightarrow> (s, p) # score_all f ps)"

definition canonical_candidate :: "variant_index \<Rightarrow> string \<Rightarrow> string option" where
  "canonical_candidate ix matched_variant =
     (if matched_variant \<noteq> '''' then get_canonical ix matched_variant else Some '''')"

definition phrases_to_score :: "phrase_registry \<Rightarrow> string option \<Rightarrow> string list" where
  "phrases_to_score r canon =
     (case canon of
        None \<Rightarrow> get_active_phrases r
      | Some c \<Rightarrow> if c \<noteq> '''' \<and> c \<notin> set (get_active_phrases r) then get_active_phrases r @ [c]
                 else get_active_phrases r)"

definition best_match ::
  "(string \<Rightarrow> string \<Rightarrow> pyfloat) \<Rightarrow> (string \<Rightarrow> string \<Rightarrow> pyfloat) \<Rightarrow> phrase_registry \<Rightarrow> variant_index
     \<Rightarrow> window \<Rightarrow> pyfloat \<times> string \<times> string" where
  "best_match jw tsr r ix w =
     (if w = [] then (0, '''', '''')
      else if get_active_phrases r = [] then (0, '''', '''')
      else let combined = build_weighted_text w in
      if \<not> anchor_present jw ix combined then (0, '''', '''')
      else let matched_variant = find_matched_variant ix combined w;
               canon = canonical_candidate ix matched_variant;
               phrase_candidates =
                 score_all (score_phrase tsr combined w canon matched_variant) (phrases_to_score r canon)
           in (case phrase_candidates of [] \<Rightarrow> 0 | c # cs \<Rightarrow> py_max (fst c) (map fst cs),
               resolve_phrase_candidate phrase_candidates, matched_variant))"

section \<open>Lemmas\<close>

definition ratio_ok :: "(string \<Rightarrow> string \<Rightarrow> pyfloat) \<Rightarrow> bool" where
  "ratio_ok tsr \<longleftrightarrow> (\<forall>a b. 0 \<le> tsr a b \<and> tsr a b \<le> 100)"

lemma ratio_div: "ratio_ok tsr \<Longrightarrow> 0 \<le> tsr a b / 100 \<and> tsr a b / 100 \<le> 1"
  by (simp add: ratio_ok_def)

lemma filter_ratio_bounds:
  "0 \<le> rat_of_nat (length (filter P xs)) / rat_of_nat (length xs)"
  "rat_of_nat (length (filter P xs)) / rat_of_nat (length xs) \<le> 1"
  by (simp_all add: divide_le_eq_1)

lemma context_score_bounds: "0 \<le> context_score t p \<and> context_score t p \<le> 1"
  unfolding context_score_def Let_def by (simp add: filter_ratio_bounds)

lemma stability_score_bounds: "0 \<le> stability_score w \<and> stability_score w \<le> 1"
  unfolding stability_score_def by (simp add: filter_ratio_bounds)

lemma phrase_fuzzy_bounds:
  assumes "ratio_ok tsr"
  shows "0 \<le> phrase_fuzzy tsr c w k v p \<and> phrase_fuzzy tsr c w k v p \<le> 1"
proof -
  let ?ind = "py_max (tsr (fst (hd w)) (py_lower p) / 100) (map (\<lambda>(h, _). tsr h (py_lower p) / 100) (tl w))"
  have "0 \<le> ?ind \<and> ?ind \<le> 1"
    by (rule py_max_bounds) (use ratio_div [OF assms] in auto)
  moreover have "0 \<le> tsr c v / 100 * (85/100)" "tsr c v / 100 * (85/100) \<le> 1"
    using ratio_div [OF assms, of c v] by simp_all
  ultimately show ?thesis
    using ratio_div [OF assms, of c "py_lower p"]
    by (simp add: phrase_fuzzy_def Let_def le_max_iff_disj)
qed

lemma boundary_score_Some:
  "boundary_score w p s = Some t \<longleftrightarrow> t = s \<and>
     card (set (py_split (py_lower p))) \<le> card (\<Union>e\<in>set w. set (py_split (py_lower (fst e))))"
proof -
  have "set (concat (map (\<lambda>(h, _). py_split (py_lower h)) w)) = (\<Union>e\<in>set w. set (py_split (py_lower (fst e))))"
    by (auto simp: split_beta)
  then show ?thesis by (auto simp: boundary_score_def Let_def settings)
qed

lemma score_phrase_bounds:
  assumes "ratio_ok tsr" "score_phrase tsr c w k v p = Some s"
  shows "4225/10000 \<le> s \<and> s \<le> 1"
proof -
  let ?f = "phrase_fuzzy tsr c w k v p"
  have "65/100 \<le> ?f" "?f \<le> 1"
    using assms phrase_fuzzy_bounds [OF assms(1), of c w k v p]
    by (auto simp: score_phrase_def Let_def settings not_less split: if_splits)
  moreover have "s = ?f * WEIGHT_MATCH + context_score c p * WEIGHT_CONTEXT + stability_score w * WEIGHT_STABILITY"
    using assms by (auto simp: score_phrase_def Let_def boundary_score_Some split: if_splits)
  ultimately show ?thesis
    using context_score_bounds [of c p] stability_score_bounds [of w] by (simp add: settings)
qed

lemma score_phrase_tokens:
  "score_phrase tsr c w k v p = Some s \<Longrightarrow>
     card (set (py_split (py_lower p))) \<le> card (\<Union>e\<in>set w. set (py_split (py_lower (fst e))))"
  by (auto simp: score_phrase_def Let_def boundary_score_Some split: if_splits)

lemma score_all_set: "(s, p) \<in> set (score_all f ps) \<longleftrightarrow> p \<in> set ps \<and> f p = Some s"
  by (induction ps) (auto split: option.splits)

lemma sort_desc_hd:
  assumes "xs \<noteq> []"
  shows "hd (sort_desc key xs) \<in> set xs" "x \<in> set xs \<Longrightarrow> key x \<le> key (hd (sort_desc key xs))"
proof -
  let ?ys = "sort_key key (rev xs)"
  have ne: "?ys \<noteq> []" using assms by (metis length_sort length_rev length_0_conv)
  then have hd: "hd (sort_desc key xs) = last ?ys" by (simp add: sort_desc_def hd_rev)
  have set: "set ?ys = set xs" by simp
  show "hd (sort_desc key xs) \<in> set xs" using ne set by (metis hd last_in_set)
  have sorted: "sorted (map key ?ys)" by (rule sorted_sort_key)
  obtain zs z where zs: "?ys = zs @ [z]" using ne by (metis append_butlast_last_id)
  show "key x \<le> key (hd (sort_desc key xs))" if "x \<in> set xs"
    using that sorted set by (auto simp: hd zs sorted_append)
qed

lemma resolve_candidate:
  assumes "cs \<noteq> []"
  shows "\<exists>s. (s, resolve_phrase_candidate cs) \<in> set cs \<and> (\<forall>(t, q)\<in>set cs. t \<le> s)"
proof -
  let ?key = "\<lambda>item :: pyfloat \<times> string. (fst item, length (snd item), snd item)"
  let ?best = "hd (sort_desc ?key cs)"
  have r: "resolve_phrase_candidate cs = snd ?best"
    using assms by (cases cs) (simp_all add: resolve_phrase_candidate_def PHRASE_PRIORITY_MODE_def)
  have "?best \<in> set cs" using sort_desc_hd(1) [OF assms] .
  moreover have "t \<le> fst ?best" if "(t, q) \<in> set cs" for t q
    using sort_desc_hd(2) [OF assms that, of ?key] by (auto simp: less_eq_prod_def)
  ultimately show ?thesis by (intro exI [of _ "fst ?best"]) (auto simp: r)
qed

section \<open>Properties\<close>

text \<open>The scoring function of a window, as \<open>best_match\<close> sets it up.\<close>

definition window_score ::
  "(string \<Rightarrow> string \<Rightarrow> pyfloat) \<Rightarrow> variant_index \<Rightarrow> window \<Rightarrow> string \<Rightarrow> pyfloat option" where
  "window_score tsr ix w =
     (let combined = build_weighted_text w; v = find_matched_variant ix combined w
      in score_phrase tsr combined w (canonical_candidate ix v) v)"

lemma best_match_cases:
  assumes "best_match jw tsr r ix w = (score, phrase, variant)"
  obtains (none) "score = 0" "phrase = ''''"
      "w = [] \<or> get_active_phrases r = [] \<or> \<not> anchor_present jw ix (build_weighted_text w)
       \<or> score_all (window_score tsr ix w)
           (phrases_to_score r (canonical_candidate ix (find_matched_variant ix (build_weighted_text w) w))) = []"
  | (some) "w \<noteq> []" "anchor_present jw ix (build_weighted_text w)"
      "variant = find_matched_variant ix (build_weighted_text w) w"
      "phrase \<in> set (phrases_to_score r (canonical_candidate ix variant))"
      "window_score tsr ix w phrase = Some score"
      "\<And>p t. p \<in> set (phrases_to_score r (canonical_candidate ix variant)) \<Longrightarrow>
         window_score tsr ix w p = Some t \<Longrightarrow> t \<le> score"
proof (cases "w = [] \<or> get_active_phrases r = [] \<or> \<not> anchor_present jw ix (build_weighted_text w)")
  case True
  with assms none show thesis by (auto simp: best_match_def Let_def split: if_splits)
next
  case False
  define v where "v = find_matched_variant ix (build_weighted_text w) w"
  define ps where "ps = phrases_to_score r (canonical_candidate ix v)"
  define cs where "cs = score_all (window_score tsr ix w) ps"
  have ws: "window_score tsr ix w = score_phrase tsr (build_weighted_text w) w (canonical_candidate ix v) v"
    by (simp add: window_score_def Let_def v_def fun_eq_iff)
  have "best_match jw tsr r ix w =
      (case cs of [] \<Rightarrow> 0 | c # cs \<Rightarrow> py_max (fst c) (map fst cs), resolve_phrase_candidate cs, v)"
    using False by (simp add: best_match_def ws Let_def v_def ps_def cs_def)
  then have res: "variant = v" "phrase = resolve_phrase_candidate cs"
    "score = (case cs of [] \<Rightarrow> 0 | c # cs \<Rightarrow> py_max (fst c) (map fst cs))"
    using assms by simp_all
  show thesis
  proof (cases cs)
    case Nil
    with res none show thesis by (simp add: resolve_phrase_candidate_def cs_def ps_def v_def)
  next
    case (Cons c cs')
    then obtain s where s: "(s, phrase) \<in> set cs" "\<forall>(t, q)\<in>set cs. t \<le> s"
      using resolve_candidate [of cs] res by auto
    have upper: "t \<le> score" if "(t, q) \<in> set cs" for t q
      using that py_max_upper [of t "fst c" "map fst cs'"] by (force simp: res Cons)
    have "score \<in> fst ` set cs" using py_max_in [of "fst c" "map fst cs'"] by (auto simp: res Cons)
    then obtain q where "(score, q) \<in> set cs" by auto
    with s upper have "score = s" by (metis (mono_tags, lifting) case_prodD order_antisym)
    with s have ph: "phrase \<in> set ps" "window_score tsr ix w phrase = Some score"
      by (simp_all add: cs_def score_all_set)
    from upper have "\<And>p t. p \<in> set ps \<Longrightarrow> window_score tsr ix w p = Some t \<Longrightarrow> t \<le> score"
      by (simp add: cs_def score_all_set)
    with ph False some show thesis by (simp add: res ps_def v_def)
  qed
qed

lemma phrases_to_score_set:
  "p \<in> set (phrases_to_score r k) \<longleftrightarrow> p \<in> set (get_active_phrases r) \<or> (k = Some p \<and> p \<noteq> '''')"
  by (auto simp: phrases_to_score_def split: option.splits if_splits)


text \<open>A profile with an enabled and a disabled phrase, and the equality ratio.\<close>

definition demo_registry :: phrase_registry where
  "demo_registry =
     \<lparr>pr_phrases =
        [(''a'', \<lparr>pc_phrase_id = ''a'', pc_phrase = ''bob'', pc_variants = [''bob''],
                pc_threshold = 7/10, pc_cooldown_ms = 2000, pc_enabled = True, pc_weight = 1\<rparr>),
         (''b'', \<lparr>pc_phrase_id = ''b'', pc_phrase = ''ava'', pc_variants = [''ava''],
                pc_threshold = 7/10, pc_cooldown_ms = 2000, pc_enabled = False, pc_weight = 1\<rparr>)]\<rparr>"

definition demo_ratio :: "string \<Rightarrow> string \<Rightarrow> pyfloat" where
  "demo_ratio a b = (if a = b then 100 else 0)"

lemma demo_norms: "norm_text ''ava'' = ''ava''" "norm_text ''bob'' = ''bob''"
    "py_lower ''ava'' = ''ava''" "py_lower ''bob'' = ''bob''" "py_split ''ava'' = [''ava'']"
    "py_split ''bob'' = [''bob'']" "py_strip ''ava'' = ''ava''" "drop_blanks ''ava'' = ''ava''"
    "drop_blanks ''bob'' = ''bob''"
  by (simp_all add: norm_text_def py_lower_def py_strip_def lower_char_def is_space_def py_split_def
      drop_blanks_def)

definition demo_index :: variant_index where
  "demo_index = \<lparr>vi_all = [''bob'', ''ava''], vi_canon = [(''bob'', ''bob''), (''ava'', ''ava'')],
     vi_entry = map (\<lambda>(k, p). (pc_phrase p, p)) (pr_phrases demo_registry)\<rparr>"

lemma demo_index: "build_index_from_registry demo_registry = demo_index"
  by (simp add: build_index_from_registry_def demo_registry_def demo_index_def empty_index_def
      pr_get_all_def index_phrase_def index_variant_def demo_norms Let_def)

lemma demo_best_match:
  "best_match (\<lambda>_ _. 0) demo_ratio demo_registry demo_index [(''ava'', 0)] = (85/100, ''ava'', ''ava'')"
proof -
  have active: "get_active_phrases demo_registry = [''bob'']"
    by (simp add: get_active_phrases_def pr_get_active_def demo_registry_def)
  have comb: "build_weighted_text [(''ava'', 0)] = ''ava''"
    by (simp add: build_weighted_text_def demo_norms)
  have gate: "anchor_present (\<lambda>_ _. 0) demo_index ''ava''"
    by (simp add: anchor_present_def get_variants_def demo_index_def variant_hit_def token_hit_def
        near_def demo_norms)
  have variant: "find_matched_variant demo_index ''ava'' [(''ava'', 0)] = ''ava''"
    by (simp add: find_matched_variant_def get_variants_def demo_index_def demo_norms sublist_code)
  have canon: "canonical_candidate demo_index ''ava'' = Some ''ava''"
    by (simp add: canonical_candidate_def get_canonical_def demo_index_def demo_norms)
  show ?thesis
    by (simp add: best_match_def active comb gate variant canon phrases_to_score_def score_phrase_def
        phrase_fuzzy_def demo_ratio_def demo_norms settings boundary_score_def context_score_def
        derive_context_words_def py_max_def stability_score_def resolve_phrase_candidate_def sort_desc_def Let_def)
qed

lemma demo_best_match_stable:
  "best_match (\<lambda>_ _. 0) demo_ratio demo_registry demo_index [(''ava'', 2)] = (1, ''ava'', ''ava'')"
proof -
  have active: "get_active_phrases demo_registry = [''bob'']"
    by (simp add: get_active_phrases_def pr_get_active_def demo_registry_def)
  have twice: "py_lower ''ava ava'' = ''ava ava''" "py_split ''ava ava'' = [''ava'', ''ava'']"
    by (simp_all add: py_lower_def lower_char_def is_space_def py_split_def)
  have comb: "build_weighted_text [(''ava'', 2)] = ''ava ava''"
    by (simp add: build_weighted_text_def numeral_2_eq_2 twice)
  have gate: "anchor_present (\<lambda>_ _. 0) demo_index ''ava ava''"
    by (simp add: anchor_present_def get_variants_def demo_index_def variant_hit_def token_hit_def
        near_def demo_norms twice)
  have variant: "find_matched_variant demo_index ''ava ava'' [(''ava'', 2)] = ''ava''"
    by (simp add: find_matched_variant_def get_variants_def demo_index_def demo_norms twice sublist_code)
  have canon: "canonical_candidate demo_index ''ava'' = Some ''ava''"
    by (simp add: canonical_candidate_def get_canonical_def demo_index_def demo_norms)
  show ?thesis
    by (simp add: best_match_def active comb gate variant canon phrases_to_score_def score_phrase_def
        phrase_fuzzy_def demo_ratio_def demo_norms twice settings boundary_score_def context_score_def
        derive_context_words_def py_max_def stability_score_def resolve_phrase_candidate_def sort_desc_def Let_def)
qed



text \<open>The anchor gate. A window whose text has a token equal to a registered variant without its
  blanks always passes; and a text passes only if some variant is close in length to one of its
  tokens, or to the text without blanks, or occurs in it with a similar number of words - a text
  with no words never passes against non-blank variants.\<close>

theorem anchor_gate_exact:
  assumes "variant \<in> set (get_variants ix)"
  shows "(drop_blanks variant \<in> set (py_split (py_lower text)) \<longrightarrow> anchor_present jw ix text)
     \<and> (anchor_present jw ix text \<longrightarrow>
          (\<exists>v\<in>set (get_variants ix).
             (\<exists>tok\<in>set (py_split (py_lower text)). near 2 (length (drop_blanks tok)) (length (drop_blanks v))
                 \<or> near 2 (length tok) (length (drop_blanks v)))
           \<or> near 3 (length (concat (py_split (py_lower text)))) (length (drop_blanks v))
           \<or> (near 2 (length (py_split (py_lower text))) (length (py_split v)) \<and> sublist v (py_lower text))))"
proof (intro conjI impI)
  assume "drop_blanks variant \<in> set (py_split (py_lower text))"
  then have "list_ex (token_hit (drop_blanks variant)) (py_split (py_lower text))"
    by (auto simp: list_ex_iff token_hit_def near_def drop_blanks_def intro!: bexI)
  then show "anchor_present jw ix text"
    using assms by (auto simp: anchor_present_def list_ex_iff variant_hit_def Let_def)
next
  assume "anchor_present jw ix text"
  then obtain v where v: "v \<in> set (get_variants ix)" "variant_hit jw text v"
    by (auto simp: anchor_present_def list_ex_iff)
  then show "\<exists>v\<in>set (get_variants ix).
             (\<exists>tok\<in>set (py_split (py_lower text)). near 2 (length (drop_blanks tok)) (length (drop_blanks v))
                 \<or> near 2 (length tok) (length (drop_blanks v)))
           \<or> near 3 (length (concat (py_split (py_lower text)))) (length (drop_blanks v))
           \<or> (near 2 (length (py_split (py_lower text))) (length (py_split v)) \<and> sublist v (py_lower text))"
    by (intro bexI [of _ v])
      (auto simp: variant_hit_def list_ex_iff multi_token_hit_def token_hit_def fuzzy_token_hit_def Let_def)
qed

theorem anchor_gate_exact_witness:
  "''ava'' \<in> set (get_variants demo_index) \<and> anchor_present (\<lambda>_ _. 0) demo_index ''ava''"
proof -
  have v: "''ava'' \<in> set (get_variants demo_index)" by (simp add: demo_index_def get_variants_def)
  with anchor_gate_exact [OF v, of "''ava''" "\<lambda>_ _. 0"] show ?thesis by (simp add: demo_norms)
qed

end
