(* ===== verification/Telemetry_Collector.thy ===== *)
theory Telemetry_Collector
  imports Ava_Contracts
begin

text \<open>
  \<^verbatim>\<open>src/runtime/telemetry/collector.py\<close> and \<^verbatim>\<open>src/runtime/session/context.py\<close>: candidate sessions (the
  class is repeated with the same fields and methods in the collector, the session context and the
  orchestrator) and the metrics collector. Writing the metrics to disk is in
  \<open>Telemetry_Persistence\<close>.
\<close>

section \<open>Candidate sessions\<close>

datatype candidate_state = CANDIDATE_STARTED | CANDIDATE_UPDATED | CANDIDATE_CONFIRMED | CANDIDATE_DROPPED

record candidate_session =
  cs_phrase :: string
  cs_variant :: string
  cs_canonical :: string
  cs_start_time :: time_s
  cs_last_update :: time_s
  cs_peak_raw :: pyfloat
  cs_peak_smooth :: pyfloat
  cs_transcript_evolution :: "string list"
  cs_stabilization_frames :: nat
  cs_state :: candidate_state

definition cs_update :: "time_s \<Rightarrow> string \<Rightarrow> pyfloat \<Rightarrow> pyfloat \<Rightarrow> nat \<Rightarrow> candidate_session \<Rightarrow> candidate_session" where
  "cs_update now txt raw_conf smooth_conf frames c =
     c\<lparr>cs_last_update := now,
       cs_transcript_evolution := cs_transcript_evolution c @ [txt],
       cs_peak_raw := max (cs_peak_raw c) raw_conf,
       cs_peak_smooth := max (cs_peak_smooth c) smooth_conf,
       cs_stabilization_frames := max (cs_stabilization_frames c) frames,
       cs_state := CANDIDATE_UPDATED\<rparr>"

definition cs_confirm :: "candidate_session \<Rightarrow> candidate_session" where
  "cs_confirm c = c\<lparr>cs_state := CANDIDATE_CONFIRMED\<rparr>"

definition cs_drop :: "candidate_session \<Rightarrow> candidate_session" where
  "cs_drop c = c\<lparr>cs_state := CANDIDATE_DROPPED\<rparr>"

definition cs_duration_ms :: "candidate_session \<Rightarrow> pyfloat" where
  "cs_duration_ms c = (cs_last_update c - cs_start_time c) * 1000"

text \<open>The constructor call shared by the collector and the engine; it reads the clock twice.\<close>

definition cs_new ::
  "time_s \<Rightarrow> time_s \<Rightarrow> string \<Rightarrow> string \<Rightarrow> string \<Rightarrow> string \<Rightarrow> pyfloat \<Rightarrow> pyfloat \<Rightarrow> nat \<Rightarrow> candidate_session" where
  "cs_new now now' phrase variant canonical txt raw_conf smooth_conf frames =
     \<lparr>cs_phrase = phrase, cs_variant = variant, cs_canonical = canonical,
      cs_start_time = now, cs_last_update = now', cs_peak_raw = raw_conf, cs_peak_smooth = smooth_conf,
      cs_transcript_evolution = [txt], cs_stabilization_frames = frames, cs_state = CANDIDATE_STARTED\<rparr>"

section \<open>Session context\<close>

record session_context =
  sc_current :: "candidate_session option"

definition new_session_context :: session_context where
  "new_session_context = \<lparr>sc_current = None\<rparr>"

definition sc_add :: "candidate_session \<Rightarrow> session_context \<Rightarrow> session_context" where
  "sc_add s c = c\<lparr>sc_current := Some s\<rparr>"

definition sc_clear :: "session_context \<Rightarrow> session_context" where
  "sc_clear c = c\<lparr>sc_current := None\<rparr>"

definition sc_window :: "session_context \<Rightarrow> candidate_session option" where
  "sc_window c = sc_current c"

section \<open>The collector\<close>

record candidate_snapshot =
  sn_phrase :: string
  sn_variant :: string
  sn_canonical :: string
  sn_state :: candidate_state
  sn_duration_ms :: pyfloat
  sn_peak_raw :: pyfloat
  sn_peak_smooth :: pyfloat
  sn_stabilization_frames :: nat
  sn_transcript_evolution :: "string list"
  sn_last_update :: pyfloat
  sn_archived_reason :: "string option"

record stream_reset_entry =
  se_when :: time_s
  se_reason :: string
  se_lifetime_s :: pyfloat

record collector =
  tc_wake_count :: nat
  tc_false_wake_count :: nat
  tc_trigger_latency_ms :: "pyfloat list"
  tc_speech_durations_ms :: "pyfloat list"
  tc_silence_durations_ms :: "pyfloat list"
  tc_asr_latencies_ms :: "pyfloat list"
  tc_inference_latencies_ms :: "pyfloat list"
  tc_queue_depths :: "pyfloat list"
  tc_stream_resets :: "stream_reset_entry list"
  tc_candidate_sessions :: "candidate_snapshot list"
  tc_active_candidate :: "candidate_session option"

definition tc_reset :: collector where
  "tc_reset = \<lparr>tc_wake_count = 0, tc_false_wake_count = 0, tc_trigger_latency_ms = [],
     tc_speech_durations_ms = [], tc_silence_durations_ms = [], tc_asr_latencies_ms = [],
     tc_inference_latencies_ms = [], tc_queue_depths = [], tc_stream_resets = [],
     tc_candidate_sessions = [], tc_active_candidate = None\<rparr>"

definition tc_register_wake :: "pyfloat \<Rightarrow> collector \<Rightarrow> collector" where
  "tc_register_wake ms t =
     t\<lparr>tc_wake_count := tc_wake_count t + 1, tc_trigger_latency_ms := tc_trigger_latency_ms t @ [ms]\<rparr>"

definition tc_register_false_wake :: "collector \<Rightarrow> collector" where
  "tc_register_false_wake t = t\<lparr>tc_false_wake_count := tc_false_wake_count t + 1\<rparr>"

definition tc_register_speech_duration :: "pyfloat \<Rightarrow> collector \<Rightarrow> collector" where
  "tc_register_speech_duration ms t = t\<lparr>tc_speech_durations_ms := tc_speech_durations_ms t @ [ms]\<rparr>"

definition tc_register_silence_duration :: "pyfloat \<Rightarrow> collector \<Rightarrow> collector" where
  "tc_register_silence_duration ms t = t\<lparr>tc_silence_durations_ms := tc_silence_durations_ms t @ [ms]\<rparr>"

definition tc_register_asr_latency :: "pyfloat \<Rightarrow> collector \<Rightarrow> collector" where
  "tc_register_asr_latency ms t = t\<lparr>tc_asr_latencies_ms := tc_asr_latencies_ms t @ [ms]\<rparr>"

definition tc_register_inference_latency :: "pyfloat \<Rightarrow> collector \<Rightarrow> collector" where
  "tc_register_inference_latency ms t = t\<lparr>tc_inference_latencies_ms := tc_inference_latencies_ms t @ [ms]\<rparr>"

definition tc_register_queue_depth :: "nat \<Rightarrow> collector \<Rightarrow> collector" where
  "tc_register_queue_depth d t = t\<lparr>tc_queue_depths := tc_queue_depths t @ [of_nat d]\<rparr>"

definition tc_register_stream_reset :: "time_s \<Rightarrow> string \<Rightarrow> pyfloat \<Rightarrow> collector \<Rightarrow> collector" where
  "tc_register_stream_reset wall reason lifetime t =
     t\<lparr>tc_stream_resets := tc_stream_resets t @
         [\<lparr>se_when = wall, se_reason = reason, se_lifetime_s = py_round 2 lifetime\<rparr>]\<rparr>"

definition candidate_snapshot_of :: "candidate_session \<Rightarrow> candidate_snapshot" where
  "candidate_snapshot_of c =
     \<lparr>sn_phrase = cs_phrase c, sn_variant = cs_variant c, sn_canonical = cs_canonical c,
      sn_state = cs_state c, sn_duration_ms = py_round 1 (cs_duration_ms c),
      sn_peak_raw = py_round 3 (cs_peak_raw c), sn_peak_smooth = py_round 3 (cs_peak_smooth c),
      sn_stabilization_frames = cs_stabilization_frames c,
      sn_transcript_evolution = cs_transcript_evolution c,
      sn_last_update = py_round 3 (cs_last_update c), sn_archived_reason = None\<rparr>"

definition tc_archive_candidate :: "string \<Rightarrow> collector \<Rightarrow> collector" where
  "tc_archive_candidate reason t =
     (case tc_active_candidate t of
        None \<Rightarrow> t
      | Some c \<Rightarrow>
          let snapshot = (candidate_snapshot_of (cs_drop c))\<lparr>sn_archived_reason := Some reason\<rparr>
          in tc_register_false_wake
               (t\<lparr>tc_candidate_sessions := tc_candidate_sessions t @ [snapshot],
                  tc_active_candidate := None\<rparr>))"

definition tc_start_candidate ::
  "time_s \<Rightarrow> time_s \<Rightarrow> string \<Rightarrow> string \<Rightarrow> string \<Rightarrow> string \<Rightarrow> pyfloat \<Rightarrow> pyfloat \<Rightarrow> nat \<Rightarrow> collector \<Rightarrow> collector" where
  "tc_start_candidate now now' phrase variant canonical txt raw_conf smooth_conf frames t =
     (let t = (if tc_active_candidate t \<noteq> None then tc_archive_candidate ''replaced'' t else t)
      in t\<lparr>tc_active_candidate :=
             Some (cs_new now now' phrase variant canonical txt raw_conf smooth_conf frames)\<rparr>)"

definition tc_update_candidate ::
  "time_s \<Rightarrow> string \<Rightarrow> pyfloat \<Rightarrow> pyfloat \<Rightarrow> nat \<Rightarrow> collector \<Rightarrow> collector" where
  "tc_update_candidate now txt raw_conf smooth_conf frames t =
     (case tc_active_candidate t of
        None \<Rightarrow> t
      | Some c \<Rightarrow> t\<lparr>tc_active_candidate := Some (cs_update now txt raw_conf smooth_conf frames c)\<rparr>)"

definition tc_confirm_candidate :: "collector \<Rightarrow> collector" where
  "tc_confirm_candidate t =
     (case tc_active_candidate t of
        None \<Rightarrow> t
      | Some c \<Rightarrow> t\<lparr>tc_candidate_sessions := tc_candidate_sessions t @ [candidate_snapshot_of (cs_confirm c)],
                   tc_active_candidate := None\<rparr>)"

definition tc_drop_candidate :: "collector \<Rightarrow> collector" where
  "tc_drop_candidate t =
     (case tc_active_candidate t of
        None \<Rightarrow> t
      | Some c \<Rightarrow>
          tc_register_false_wake
            (t\<lparr>tc_candidate_sessions := tc_candidate_sessions t @ [candidate_snapshot_of (cs_drop c)],
               tc_active_candidate := None\<rparr>))"

record collector_metrics =
  mt_wake_count :: nat
  mt_false_wake_count :: nat
  mt_avg_trigger_latency_ms :: pyfloat
  mt_avg_asr_latency_ms :: pyfloat
  mt_avg_inference_latency_ms :: pyfloat
  mt_avg_queue_depth :: pyfloat
  mt_avg_speech_duration_ms :: pyfloat
  mt_avg_silence_duration_ms :: pyfloat
  mt_stream_resets :: "stream_reset_entry list"
  mt_candidate_sessions :: "candidate_snapshot list"

definition tc_get_metrics :: "collector \<Rightarrow> collector_metrics" where
  "tc_get_metrics t =
     \<lparr>mt_wake_count = tc_wake_count t, mt_false_wake_count = tc_false_wake_count t,
      mt_avg_trigger_latency_ms = py_round 2 (mean (tc_trigger_latency_ms t)),
      mt_avg_asr_latency_ms = py_round 2 (mean (tc_asr_latencies_ms t)),
      mt_avg_inference_latency_ms = py_round 2 (mean (tc_inference_latencies_ms t)),
      mt_avg_queue_depth = py_round 2 (mean (tc_queue_depths t)),
      mt_avg_speech_duration_ms = py_round 2 (mean (tc_speech_durations_ms t)),
      mt_avg_silence_duration_ms = py_round 2 (mean (tc_silence_durations_ms t)),
      mt_stream_resets = tc_stream_resets t, mt_candidate_sessions = tc_candidate_sessions t\<rparr>"

lemmas tc_candidate_defs = tc_start_candidate_def tc_update_candidate_def tc_confirm_candidate_def
  tc_drop_candidate_def tc_archive_candidate_def tc_register_false_wake_def candidate_snapshot_of_def
  cs_new_def cs_update_def cs_confirm_def cs_drop_def

lemmas tc_register_defs = tc_register_wake_def tc_register_speech_duration_def
  tc_register_silence_duration_def tc_register_asr_latency_def tc_register_inference_latency_def
  tc_register_queue_depth_def tc_register_stream_reset_def

section \<open>Accounting\<close>

datatype tc_op =
    Op_start time_s time_s string string string string pyfloat pyfloat nat
  | Op_update time_s string pyfloat pyfloat nat
  | Op_confirm
  | Op_drop
  | Op_wake pyfloat
  | Op_asr_latency pyfloat

fun tc_apply :: "tc_op \<Rightarrow> collector \<Rightarrow> collector" where
  "tc_apply (Op_start n n' p v c x r s f) t = tc_start_candidate n n' p v c x r s f t"
| "tc_apply (Op_update n x r s f) t = tc_update_candidate n x r s f t"
| "tc_apply Op_confirm t = tc_confirm_candidate t"
| "tc_apply Op_drop t = tc_drop_candidate t"
| "tc_apply (Op_wake ms) t = tc_register_wake ms t"
| "tc_apply (Op_asr_latency ms) t = tc_register_asr_latency ms t"

definition is_start :: "tc_op \<Rightarrow> bool" where
  "is_start op = (case op of Op_start _ _ _ _ _ _ _ _ _ \<Rightarrow> True | _ \<Rightarrow> False)"

definition is_wake :: "tc_op \<Rightarrow> bool" where
  "is_wake op = (case op of Op_wake _ \<Rightarrow> True | _ \<Rightarrow> False)"

definition active_open :: "candidate_session option \<Rightarrow> bool" where
  "active_open a \<longleftrightarrow> (case a of None \<Rightarrow> True | Some c \<Rightarrow> cs_state c \<in> {CANDIDATE_STARTED, CANDIDATE_UPDATED})"

text \<open>The accounting invariant relative to \<open>n\<close> started candidates and \<open>k\<close> wakes.\<close>

definition tc_wf :: "nat \<Rightarrow> nat \<Rightarrow> collector \<Rightarrow> bool" where
  "tc_wf n k t \<longleftrightarrow>
     length (tc_candidate_sessions t) + (if tc_active_candidate t = None then 0 else 1) = n
   \<and> tc_wake_count t = k \<and> length (tc_trigger_latency_ms t) = k
   \<and> tc_false_wake_count t = length (filter (\<lambda>s. sn_state s = CANDIDATE_DROPPED) (tc_candidate_sessions t))
   \<and> (\<forall>s\<in>set (tc_candidate_sessions t). sn_state s \<in> {CANDIDATE_CONFIRMED, CANDIDATE_DROPPED}
         \<and> (sn_archived_reason s \<noteq> None \<longrightarrow> sn_state s = CANDIDATE_DROPPED))
   \<and> active_open (tc_active_candidate t)"

lemma tc_wf_reset [ava_inv]: "tc_wf 0 0 tc_reset"
  by (simp add: tc_wf_def tc_reset_def active_open_def)

lemma tc_wf_apply:
  assumes "tc_wf n k t"
  shows "tc_wf (if is_start op then Suc n else n) (if is_wake op then Suc k else k) (tc_apply op t)"
  using assms
  by (cases op; cases "tc_active_candidate t")
    (auto simp: tc_wf_def tc_candidate_defs tc_register_defs is_start_def is_wake_def active_open_def Let_def)

lemma tc_wf_run:
  "tc_wf n k t \<Longrightarrow> tc_wf (n + length (filter is_start ops)) (k + length (filter is_wake ops)) (fold tc_apply ops t)"
proof (induction ops arbitrary: n k t)
  case (Cons op ops)
  show ?case using Cons.IH [OF tc_wf_apply [OF Cons.prems, of op]] by (simp split: if_splits)
qed simp

section \<open>Properties\<close>

text \<open>The candidate book-keeping never loses or invents a candidate: after any sequence of candidate
  operations and wakes, the candidates started are exactly those in the session list plus the active
  one, every closed session ended confirmed or dropped, the false-wake counter is the number of
  dropped sessions (a candidate replaced by another counts as one), and there is one latency per wake.\<close>

theorem collector_accounts_for_candidates:
  "(let t = fold tc_apply ops tc_reset in
      length (filter is_start ops) =
        length (tc_candidate_sessions t) + (if tc_active_candidate t = None then 0 else 1)
    \<and> tc_false_wake_count t =
        length (filter (\<lambda>s. sn_state s = CANDIDATE_DROPPED) (tc_candidate_sessions t))
    \<and> set (map sn_state (tc_candidate_sessions t)) \<subseteq> {CANDIDATE_CONFIRMED, CANDIDATE_DROPPED}
    \<and> tc_wake_count t = length (filter is_wake ops)
    \<and> length (tc_trigger_latency_ms t) = tc_wake_count t)"
  using tc_wf_run [OF tc_wf_reset, of ops] by (auto simp: tc_wf_def Let_def)

end
