(* ===== verification/Orchestrator.thy ===== *)
theory Orchestrator
  imports Streamer Hypothesis_Buffer Confidence Evaluator Telemetry_Collector
begin

text \<open>
  \<^verbatim>\<open>src/runtime/kernel/orchestrator.py\<close>: the wake engine. \<open>_on_hypothesis\<close> is one definition composed
  of its marked blocks: the pause gate, the periodic metrics, the buffer, matching and confidence, the
  candidate lifecycle, the moving average with its resets, and the two gates before a wake fires.
  The phrase registry and the variant index, module globals of the code, are arguments. The clock
  readings of one call are fields of its input record. The result is the wake event emitted, if any,
  the exception that ends the call, if any (only the stream reset after a wake can raise), and the
  new state.
\<close>

section \<open>State\<close>

record ('o, 's) engine =
  we_streamer :: "('o, 's) streamer"
  we_buffer :: hyp_buffer
  we_cooldown :: cooldown_gate
  we_hit_count :: nat
  we_last_trigger_generation :: int
  we_last_seen_generation :: int
  we_smooth_conf :: pyfloat
  we_last_matched_phrase :: string
  we_last_metrics_time :: time_s
  we_wake_count :: nat
  we_latency_sum :: pyfloat
  we_raw_sum :: pyfloat
  we_smooth_sum :: pyfloat
  we_telemetry :: collector
  we_state_machine :: runtime_state
  we_candidate :: "candidate_session option"
  we_detection_paused :: bool
  we_last_logged_suppressed_gen :: int

definition new_engine :: "('o, 's) streamer \<Rightarrow> time_s \<Rightarrow> ('o, 's) engine" where
  "new_engine s now = \<lparr>we_streamer = s, we_buffer = new_hyp_buffer, we_cooldown = new_cooldown,
     we_hit_count = 0, we_last_trigger_generation = -1, we_last_seen_generation = -1,
     we_smooth_conf = 0, we_last_matched_phrase = '''', we_last_metrics_time = now, we_wake_count = 0,
     we_latency_sum = 0, we_raw_sum = 0, we_smooth_sum = 0, we_telemetry = tc_reset,
     we_state_machine = RT_IDLE, we_candidate = None, we_detection_paused = False,
     we_last_logged_suppressed_gen = -1\<rparr>"

record 'o hyp_input =
  hi_text :: string
  hi_stability :: nat
  hi_peak :: string
  hi_generation_id :: nat
  hi_t0 :: time_s
  hi_now :: time_s
  hi_t_push :: time_s
  hi_t_purge :: time_s
  hi_t_push_peak :: time_s
  hi_t_purge_peak :: time_s
  hi_t_window :: time_s
  hi_t_asr :: time_s
  hi_t_cand :: time_s
  hi_t_cand' :: time_s
  hi_t_tele :: time_s
  hi_t_tele' :: time_s
  hi_t_gate :: time_s
  hi_t_latency :: time_s
  hi_t_mark :: time_s
  hi_t_reset :: time_s
  hi_t_state :: time_s
  hi_created :: "py_exc + 'o"

record wake_event =
  wk_phrase :: string
  wk_raw :: pyfloat
  wk_smooth :: pyfloat
  wk_latency_ms :: pyfloat

definition get_threshold :: "string \<Rightarrow> pyfloat" where
  "get_threshold phrase = DEFAULT_THRESHOLD"

section \<open>Candidate lifecycle\<close>

definition start_candidate ::
  "'o hyp_input \<Rightarrow> string \<Rightarrow> string \<Rightarrow> string \<Rightarrow> pyfloat \<Rightarrow> pyfloat \<Rightarrow> nat \<Rightarrow> ('o, 's) engine \<Rightarrow> ('o, 's) engine" where
  "start_candidate i phrase variant canonical raw_conf smooth_conf frames e =
     e\<lparr>we_candidate := Some (cs_new (hi_t_cand i) (hi_t_cand' i) phrase variant canonical (hi_text i)
                              raw_conf smooth_conf frames),
       we_telemetry := tc_start_candidate (hi_t_tele i) (hi_t_tele' i) phrase variant canonical (hi_text i)
                         raw_conf smooth_conf frames (we_telemetry e),
       we_state_machine := rt_transition ''candidate_started'' (we_state_machine e)\<rparr>"

definition update_candidate ::
  "'o hyp_input \<Rightarrow> pyfloat \<Rightarrow> pyfloat \<Rightarrow> nat \<Rightarrow> ('o, 's) engine \<Rightarrow> ('o, 's) engine" where
  "update_candidate i raw_conf smooth_conf frames e =
     (case we_candidate e of
        None \<Rightarrow> e
      | Some c \<Rightarrow>
          e\<lparr>we_candidate := Some (cs_update (hi_t_cand i) (hi_text i) raw_conf smooth_conf frames c),
            we_telemetry := tc_update_candidate (hi_t_tele i) (hi_text i) raw_conf smooth_conf frames (we_telemetry e),
            we_state_machine := rt_transition ''candidate_updated'' (we_state_machine e)\<rparr>)"

definition confirm_candidate :: "('o, 's) engine \<Rightarrow> ('o, 's) engine" where
  "confirm_candidate e =
     (case we_candidate e of
        None \<Rightarrow> e
      | Some c \<Rightarrow> e\<lparr>we_telemetry := tc_confirm_candidate (we_telemetry e),
                    we_state_machine := rt_transition ''candidate_confirmed'' (we_state_machine e),
                    we_candidate := None\<rparr>)"

definition drop_candidate :: "('o, 's) engine \<Rightarrow> ('o, 's) engine" where
  "drop_candidate e =
     (case we_candidate e of
        None \<Rightarrow> e
      | Some c \<Rightarrow> e\<lparr>we_telemetry := tc_drop_candidate (we_telemetry e),
                    we_state_machine := rt_transition ''candidate_dropped'' (we_state_machine e),
                    we_candidate := None\<rparr>)"

section \<open>The blocks of a hypothesis\<close>

text \<open>The periodic metrics log also empties the detector's list of Silero probabilities.\<close>

definition on_metrics :: "'o hyp_input \<Rightarrow> ('o, 's) engine \<Rightarrow> ('o, 's) engine" where
  "on_metrics i e =
     (if 30 \<le> hi_now i - we_last_metrics_time e
      then let s = we_streamer e; pipe = st_pipe s; v = pp_vad pipe
           in e\<lparr>we_last_metrics_time := hi_now i,
                we_streamer := s\<lparr>st_pipe := pipe\<lparr>pp_vad :=
                   v\<lparr>vd_stats := (vd_stats v)\<lparr>vs_silero_probs := []\<rparr>\<rparr>\<rparr>\<rparr>\<rparr>
      else e)"

definition eff_stability :: "'o hyp_input \<Rightarrow> nat" where
  "eff_stability i = min (hi_stability i) STABILITY_CAP"

definition on_buffer :: "'o hyp_input \<Rightarrow> ('o, 's) engine \<Rightarrow> window \<times> ('o, 's) engine" where
  "on_buffer i e =
     (let b = hb_push (hi_t_push i) (hi_t_purge i) (hi_text i) (eff_stability i) (we_buffer e);
          b = (if hi_peak i \<noteq> '''' \<and> hi_peak i \<noteq> hi_text i \<and> length (hi_text i) < length (hi_peak i)
               then hb_push (hi_t_push_peak i) (hi_t_purge_peak i) (hi_peak i) (eff_stability i + 2) b else b);
          (w, b) = hb_get_window (hi_t_window i) b
      in (w, e\<lparr>we_buffer := b\<rparr>))"

definition on_score :: "'o hyp_input \<Rightarrow> pyfloat \<Rightarrow> window \<Rightarrow> ('o, 's) engine \<Rightarrow> pyfloat \<times> ('o, 's) engine" where
  "on_score i score w e =
     (let e = e\<lparr>we_hit_count := (if 50/100 < score then we_hit_count e + 1 else we_hit_count e - 1)\<rparr>;
          raw_conf = compute_confidence score (length w) (we_hit_count e)
      in (raw_conf, e\<lparr>we_telemetry :=
                        tc_register_asr_latency ((hi_t_asr i - hi_t0 i) * 1000) (we_telemetry e)\<rparr>))"

text \<open>\<open>x or y\<close> on an optional string.\<close>

definition str_or :: "string option \<Rightarrow> string \<Rightarrow> string" where
  "str_or x y = (case x of None \<Rightarrow> y | Some s \<Rightarrow> if s = '''' then y else s)"

definition on_candidate ::
  "'o hyp_input \<Rightarrow> string \<Rightarrow> string \<Rightarrow> string option \<Rightarrow> pyfloat \<Rightarrow> ('o, 's) engine \<Rightarrow> ('o, 's) engine" where
  "on_candidate i phrase matched_variant canonical_from_variant raw_conf e =
     (if phrase \<noteq> '''' \<and> 50/100 \<le> raw_conf
      then (if we_candidate e = None \<or> map_option cs_phrase (we_candidate e) \<noteq> Some phrase
            then start_candidate i phrase matched_variant (str_or canonical_from_variant phrase)
                   raw_conf (we_smooth_conf e) (eff_stability i) e
            else update_candidate i raw_conf (we_smooth_conf e) (eff_stability i) e)
      else (case we_candidate e of
              None \<Rightarrow> e
            | Some c \<Rightarrow> if 1 < hi_now i - cs_last_update c then drop_candidate e else e))"

definition on_ema :: "'o hyp_input \<Rightarrow> string \<Rightarrow> pyfloat \<Rightarrow> ('o, 's) engine \<Rightarrow> ('o, 's) engine" where
  "on_ema i phrase raw_conf e =
     (let e = (if int (hi_generation_id i) \<noteq> we_last_seen_generation e
               then e\<lparr>we_smooth_conf := 0, we_hit_count := 0,
                      we_last_seen_generation := int (hi_generation_id i)\<rparr> else e);
          e = (if phrase \<noteq> '''' \<and> phrase \<noteq> we_last_matched_phrase e
               then e\<lparr>we_smooth_conf := 0, we_last_matched_phrase := phrase\<rparr> else e);
          alpha = (if we_smooth_conf e < raw_conf then EMA_RISE_ALPHA else EMA_DECAY_ALPHA)
      in e\<lparr>we_smooth_conf := alpha * raw_conf + (1 - alpha) * we_smooth_conf e\<rparr>)"

definition on_fire ::
  "'s vad_models \<Rightarrow> 'o hyp_input \<Rightarrow> string \<Rightarrow> pyfloat \<Rightarrow> ('o, 's) engine
     \<Rightarrow> wake_event option \<times> (py_exc + unit) \<times> ('o, 's) engine" where
  "on_fire m i phrase raw_conf e =
     (let latency_ms = (hi_t_latency i - hi_t0 i) * 1000;
          e = e\<lparr>we_last_trigger_generation := int (hi_generation_id i),
                we_cooldown := cg_mark_triggered (hi_t_mark i) (we_cooldown e),
                we_buffer := hb_clear (we_buffer e), we_hit_count := 0,
                we_wake_count := we_wake_count e + 1,
                we_latency_sum := we_latency_sum e + latency_ms,
                we_raw_sum := we_raw_sum e + raw_conf,
                we_smooth_sum := we_smooth_sum e + we_smooth_conf e,
                we_telemetry := tc_register_wake latency_ms (we_telemetry e)\<rparr>;
          e = confirm_candidate e;
          e = e\<lparr>we_state_machine := rt_transition ''cooldown'' (we_state_machine e)\<rparr>;
          wake = \<lparr>wk_phrase = phrase, wk_raw = raw_conf, wk_smooth = we_smooth_conf e, wk_latency_ms = latency_ms\<rparr>;
          e = e\<lparr>we_smooth_conf := 0\<rparr>;
          (r, s) = st_reset_stream m (''wake'', hi_t_reset i, hi_t_state i, hi_created i) (we_streamer e)
      in (Some wake, r, e\<lparr>we_streamer := s\<rparr>))"

definition on_gates ::
  "'s vad_models \<Rightarrow> 'o hyp_input \<Rightarrow> string \<Rightarrow> pyfloat \<Rightarrow> ('o, 's) engine
     \<Rightarrow> wake_event option \<times> (py_exc + unit) \<times> ('o, 's) engine" where
  "on_gates m i phrase raw_conf e =
     (let threshold = (if phrase \<noteq> '''' then get_threshold phrase else DEFAULT_THRESHOLD) in
      if \<not> (threshold + 8/100 \<le> raw_conf \<or> threshold \<le> we_smooth_conf e) then (None, Inr (), e)
      else if int (hi_generation_id i) = we_last_trigger_generation e
        then (None, Inr (), e\<lparr>we_last_logged_suppressed_gen := int (hi_generation_id i)\<rparr>)
      else if \<not> cg_can_trigger (hi_t_gate i) (we_cooldown e) then (None, Inr (), e)
      else on_fire m i phrase raw_conf e)"

definition on_hypothesis ::
  "(string \<Rightarrow> string \<Rightarrow> pyfloat) \<Rightarrow> (string \<Rightarrow> string \<Rightarrow> pyfloat) \<Rightarrow> 's vad_models
     \<Rightarrow> phrase_registry \<Rightarrow> variant_index \<Rightarrow> 'o hyp_input \<Rightarrow> ('o, 's) engine
     \<Rightarrow> wake_event option \<times> (py_exc + unit) \<times> ('o, 's) engine" where
  "on_hypothesis jw tsr m r ix i e =
     (if we_detection_paused e then (None, Inr (), e)
      else let e = on_metrics i e;
               (w, e) = on_buffer i e;
               (score, phrase, matched_variant) = best_match jw tsr r ix w;
               canonical_from_variant = (if matched_variant \<noteq> '''' then get_canonical ix matched_variant else Some '''');
               (raw_conf, e) = on_score i score w e;
               e = on_candidate i phrase matched_variant canonical_from_variant raw_conf e;
               e = on_ema i phrase raw_conf e
           in on_gates m i phrase raw_conf e)"

section \<open>Preparing the matcher\<close>

text \<open>The part of \<open>load_profile\<close> after the profile has been read: the phrases replace the registry's, then
  the index is rebuilt. A malformed entry raises before anything changes.\<close>

definition load_phrases ::
  "phrase_data list \<Rightarrow> phrase_registry \<times> variant_index \<Rightarrow> py_exc + phrase_registry \<times> variant_index" where
  "load_phrases ds g =
     sbind (pr_load ds (fst g)) (\<lambda>r. Inr (r, rebuild_index r (snd g)))"

text \<open>\<open>start\<close> up to the blocking microphone loop, without the watchdog thread and the bridge messages.\<close>

definition engine_start ::
  "time_s \<Rightarrow> (py_exc + 'o) \<Rightarrow> (py_exc + unit) \<Rightarrow> ('o, 's) engine \<Rightarrow> (py_exc + unit) \<times> ('o, 's) engine" where
  "engine_start now created mic e =
     (let e = e\<lparr>we_state_machine := rt_transition ''start'' (we_state_machine e)\<rparr>;
          (r, s) = st_start now created mic (we_streamer e)
      in (r, e\<lparr>we_streamer := s\<rparr>))"

section \<open>What a hypothesis keeps\<close>

text \<open>The engine's candidate and the collector's are created, updated, confirmed and dropped together:
  they agree on everything but their clock readings.\<close>

definition same_candidate :: "candidate_session option \<Rightarrow> candidate_session option \<Rightarrow> bool" where
  "same_candidate a b \<longleftrightarrow>
     (case (a, b) of
        (None, None) \<Rightarrow> True
      | (Some c, Some d) \<Rightarrow>
          cs_phrase c = cs_phrase d \<and> cs_variant c = cs_variant d \<and> cs_canonical c = cs_canonical d
        \<and> cs_peak_raw c = cs_peak_raw d \<and> cs_peak_smooth c = cs_peak_smooth d
        \<and> cs_transcript_evolution c = cs_transcript_evolution d
        \<and> cs_stabilization_frames c = cs_stabilization_frames d \<and> cs_state c = cs_state d
      | _ \<Rightarrow> False)"

lemmas candidate_defs = start_candidate_def update_candidate_def confirm_candidate_def drop_candidate_def

definition tc_ok :: "collector \<Rightarrow> bool" where
  "tc_ok t \<longleftrightarrow> (\<exists>n. tc_wf n (tc_wake_count t) t)"

definition engine_wf :: "('o, 's) engine \<Rightarrow> bool" where
  "engine_wf e \<longleftrightarrow>
     0 \<le> we_smooth_conf e \<and> we_smooth_conf e \<le> 1
   \<and> same_candidate (we_candidate e) (tc_active_candidate (we_telemetry e))
   \<and> we_wake_count e = tc_wake_count (we_telemetry e)
   \<and> tc_ok (we_telemetry e)"

lemma engine_wf_new [ava_inv]: "engine_wf (new_engine s now)"
  using tc_wf_reset by (auto simp: engine_wf_def new_engine_def same_candidate_def tc_ok_def tc_reset_def)

lemma tc_wake_counts [simp]:
  "tc_wake_count (tc_start_candidate a b p v c x rr ss f t) = tc_wake_count t"
  "tc_wake_count (tc_update_candidate a x rr ss f t) = tc_wake_count t"
  "tc_wake_count (tc_confirm_candidate t) = tc_wake_count t"
  "tc_wake_count (tc_drop_candidate t) = tc_wake_count t"
  "tc_wake_count (tc_register_asr_latency ms t) = tc_wake_count t"
  "tc_wake_count (tc_register_wake ms t) = Suc (tc_wake_count t)"
  by (simp_all add: tc_candidate_defs tc_register_defs Let_def split: option.splits)

lemma tc_ok_ops [ava_inv]:
  assumes "tc_ok t"
  shows "tc_ok (tc_register_asr_latency ms t)"
    and "tc_ok (tc_start_candidate a b p v c x rr ss f t)"
    and "tc_ok (tc_update_candidate a x rr ss f t)"
    and "tc_ok (tc_confirm_candidate t)"
    and "tc_ok (tc_drop_candidate t)"
    and "tc_ok (tc_register_wake ms t)"
proof -
  obtain n where n: "tc_wf n (tc_wake_count t) t" using assms by (auto simp: tc_ok_def)
  have step: "tc_ok (tc_apply op t)" for op
    using tc_wf_apply [OF n, of op] by (auto simp: tc_ok_def tc_wf_def)
  show "tc_ok (tc_register_asr_latency ms t)" "tc_ok (tc_start_candidate a b p v c x rr ss f t)"
    "tc_ok (tc_update_candidate a x rr ss f t)" "tc_ok (tc_confirm_candidate t)"
    "tc_ok (tc_drop_candidate t)" "tc_ok (tc_register_wake ms t)"
    using step [of "Op_asr_latency ms"] step [of "Op_start a b p v c x rr ss f"]
      step [of "Op_update a x rr ss f"] step [of Op_confirm] step [of Op_drop] step [of "Op_wake ms"]
    by simp_all
qed

lemma tc_actives [simp]:
  "tc_active_candidate (tc_start_candidate a b p v c x rr ss f t) = Some (cs_new a b p v c x rr ss f)"
  "tc_active_candidate (tc_update_candidate a x rr ss f t) =
     map_option (cs_update a x rr ss f) (tc_active_candidate t)"
  "tc_active_candidate (tc_confirm_candidate t) = None"
  "tc_active_candidate (tc_drop_candidate t) = None"
  "tc_active_candidate (tc_register_asr_latency ms t) = tc_active_candidate t"
  "tc_active_candidate (tc_register_wake ms t) = tc_active_candidate t"
  by (simp_all add: tc_start_candidate_def tc_update_candidate_def tc_confirm_candidate_def
      tc_drop_candidate_def tc_register_false_wake_def tc_register_defs split: option.splits)

lemma same_candidate_new: "same_candidate (Some (cs_new a b p v c x rr ss f)) (Some (cs_new a' b' p v c x rr ss f))"
  by (simp add: same_candidate_def cs_new_def)

lemma same_candidate_update:
  "same_candidate (Some c) d \<Longrightarrow> same_candidate (Some (cs_update a x rr ss f c)) (map_option (cs_update a' x rr ss f) d)"
  by (cases d) (auto simp: same_candidate_def cs_update_def)

lemma same_candidate_None [simp]: "same_candidate None d \<longleftrightarrow> d = None"
  by (cases d) (auto simp: same_candidate_def)

text \<open>The fields the gates read, which the earlier blocks leave alone.\<close>

definition same_gates :: "('o, 's) engine \<Rightarrow> ('o, 's) engine \<Rightarrow> bool" where
  "same_gates e e' \<longleftrightarrow> we_last_trigger_generation e' = we_last_trigger_generation e
     \<and> we_cooldown e' = we_cooldown e \<and> we_wake_count e' = we_wake_count e
     \<and> we_detection_paused e' = we_detection_paused e
     \<and> st_generation (we_streamer e') = st_generation (we_streamer e)"

lemma same_gates_trans: "same_gates e f \<Longrightarrow> same_gates f g \<Longrightarrow> same_gates e g"
  by (simp add: same_gates_def)

lemma on_metrics_keeps: "same_gates e (on_metrics i e) \<and> (engine_wf e \<longrightarrow> engine_wf (on_metrics i e))"
  by (simp add: on_metrics_def same_gates_def engine_wf_def st_generation_def Let_def)

lemma on_buffer_keeps:
  "on_buffer i e = (w, e') \<Longrightarrow> same_gates e e' \<and> (engine_wf e \<longrightarrow> engine_wf e')"
  by (auto simp: on_buffer_def same_gates_def engine_wf_def Let_def split: prod.splits)

lemma on_score_keeps:
  "on_score i score w e = (raw, e') \<Longrightarrow>
     same_gates e e' \<and> (engine_wf e \<longrightarrow> engine_wf e') \<and> (\<exists>h. raw = compute_confidence score (length w) h)"
  by (auto simp: on_score_def same_gates_def engine_wf_def Let_def intro: ava_inv)

lemma candidate_ops_keep:
  assumes "engine_wf e"
  shows "same_gates e (start_candidate i p v c raw sm f e)" "engine_wf (start_candidate i p v c raw sm f e)"
    and "same_gates e (update_candidate i raw sm f e)" "engine_wf (update_candidate i raw sm f e)"
    and "same_gates e (drop_candidate e)" "engine_wf (drop_candidate e)"
    and "same_gates e (confirm_candidate e)" "engine_wf (confirm_candidate e)"
proof -
  have ok: "tc_ok (we_telemetry e)" using assms by (simp add: engine_wf_def)
  note ops = tc_ok_ops [OF ok]
  show "engine_wf (start_candidate i p v c raw sm f e)"
    using assms ops by (simp add: candidate_defs engine_wf_def same_candidate_new)
  show "engine_wf (drop_candidate e)" "engine_wf (confirm_candidate e)"
    using assms ops by (cases "we_candidate e"; simp add: candidate_defs engine_wf_def)+
  show "engine_wf (update_candidate i raw sm f e)"
  proof (cases "we_candidate e")
    case (Some k)
    then have "same_candidate (Some k) (tc_active_candidate (we_telemetry e))"
      using assms by (simp add: engine_wf_def)
    from same_candidate_update [OF this] Some assms ops show ?thesis
      by (simp add: candidate_defs engine_wf_def)
  qed (use assms in \<open>simp add: candidate_defs\<close>)
qed (simp_all add: candidate_defs same_gates_def split: option.splits)

lemma on_candidate_keeps:
  "engine_wf e \<Longrightarrow> same_gates e (on_candidate i p v c raw e) \<and> engine_wf (on_candidate i p v c raw e)"
  using candidate_ops_keep [of e]
  by (simp add: on_candidate_def same_gates_def split: option.splits)

text \<open>The moving average stays between its old value (or 0) and the new raw confidence.\<close>

lemma ema_between:
  fixes a raw prev :: rat
  assumes "0 \<le> a" "a \<le> 1" "l \<le> raw" "raw \<le> u" "l \<le> prev" "prev \<le> u"
  shows "l \<le> a * raw + (1 - a) * prev \<and> a * raw + (1 - a) * prev \<le> u"
proof -
  have "l = a * l + (1 - a) * l" "u = a * u + (1 - a) * u" by (simp_all add: algebra_simps)
  moreover have "a * l \<le> a * raw" "a * raw \<le> a * u" "(1 - a) * l \<le> (1 - a) * prev" "(1 - a) * prev \<le> (1 - a) * u"
    using assms by (simp_all add: mult_left_mono)
  ultimately show ?thesis by linarith
qed

text \<open>The previous value the average starts from: 0 after a change of generation or phrase.\<close>

definition ema_base :: "'o hyp_input \<Rightarrow> string \<Rightarrow> ('o, 's) engine \<Rightarrow> pyfloat" where
  "ema_base i p e =
     (if int (hi_generation_id i) \<noteq> we_last_seen_generation e \<or> (p \<noteq> '''' \<and> p \<noteq> we_last_matched_phrase e)
      then 0 else we_smooth_conf e)"

definition ema_alpha :: "pyfloat \<Rightarrow> pyfloat \<Rightarrow> pyfloat" where
  "ema_alpha prev raw = (if prev < raw then EMA_RISE_ALPHA else EMA_DECAY_ALPHA)"

lemma on_ema_smooth:
  "we_smooth_conf (on_ema i p raw e) =
     ema_alpha (ema_base i p e) raw * raw + (1 - ema_alpha (ema_base i p e) raw) * ema_base i p e"
proof (cases "int (hi_generation_id i) \<noteq> we_last_seen_generation e")
  case True
  then show ?thesis
    by (cases "p \<noteq> '''' \<and> p \<noteq> we_last_matched_phrase e") (auto simp: on_ema_def ema_base_def ema_alpha_def Let_def)
next
  case False
  then show ?thesis
    by (cases "p \<noteq> '''' \<and> p \<noteq> we_last_matched_phrase e") (auto simp: on_ema_def ema_base_def ema_alpha_def Let_def)
qed

lemma ema_base_bounds: "engine_wf e \<Longrightarrow> 0 \<le> ema_base i p e \<and> ema_base i p e \<le> 1"
  by (simp add: ema_base_def engine_wf_def)

lemma on_ema_frame:
  "same_gates e (on_ema i p raw e)" "we_candidate (on_ema i p raw e) = we_candidate e"
  "we_telemetry (on_ema i p raw e) = we_telemetry e" "we_wake_count (on_ema i p raw e) = we_wake_count e"
  by (simp_all add: on_ema_def same_gates_def Let_def)

lemma on_ema_keeps:
  assumes "engine_wf e" "0 \<le> raw" "raw \<le> 1"
  shows "same_gates e (on_ema i p raw e) \<and> engine_wf (on_ema i p raw e)"
proof -
  have "0 \<le> we_smooth_conf (on_ema i p raw e) \<and> we_smooth_conf (on_ema i p raw e) \<le> 1"
    unfolding on_ema_smooth
    by (rule ema_between) (use assms ema_base_bounds [OF assms(1)] in \<open>auto simp: ema_alpha_def settings\<close>)
  then show ?thesis using assms by (simp add: engine_wf_def on_ema_frame)
qed

text \<open>With almost no raw confidence the average cannot reach the trigger threshold.\<close>

lemma on_ema_low:
  assumes "engine_wf e" "0 \<le> raw" "raw \<le> 20/100"
  shows "we_smooth_conf (on_ema i p raw e) \<le> 76/100"
  using assms ema_base_bounds [OF assms(1), of i p]
  by (cases "ema_base i p e < raw") (simp_all add: on_ema_smooth ema_alpha_def settings)

section \<open>One hypothesis\<close>

text \<open>The state in which the gates are reached, and the raw confidence that reached them.\<close>

lemma on_gates_cases:
  assumes "on_gates m i p raw e = (wake, r, e')"
  obtains (quiet) "wake = None" "r = Inr ()" "same_gates e e'" "engine_wf e \<Longrightarrow> engine_wf e'"
  | (fire) "on_fire m i p raw e = (wake, r, e')"
      "DEFAULT_THRESHOLD + 8/100 \<le> raw \<or> DEFAULT_THRESHOLD \<le> we_smooth_conf e"
      "int (hi_generation_id i) \<noteq> we_last_trigger_generation e"
      "cg_can_trigger (hi_t_gate i) (we_cooldown e)"
proof -
  let ?hot = "DEFAULT_THRESHOLD + 8/100 \<le> raw \<or> DEFAULT_THRESHOLD \<le> we_smooth_conf e"
  have t: "(if p \<noteq> '''' then get_threshold p else DEFAULT_THRESHOLD) = DEFAULT_THRESHOLD"
    by (simp add: get_threshold_def)
  consider "\<not> ?hot" | "?hot" "int (hi_generation_id i) = we_last_trigger_generation e"
    | "?hot" "int (hi_generation_id i) \<noteq> we_last_trigger_generation e" "\<not> cg_can_trigger (hi_t_gate i) (we_cooldown e)"
    | "?hot" "int (hi_generation_id i) \<noteq> we_last_trigger_generation e" "cg_can_trigger (hi_t_gate i) (we_cooldown e)"
    by blast
  then show thesis
  proof cases
    case 1
    then have "on_gates m i p raw e = (None, Inr (), e)" unfolding on_gates_def t Let_def by (rule if_P)
    with assms quiet show thesis by (simp add: same_gates_def)
  next
    case 2
    then have "on_gates m i p raw e =
        (None, Inr (), e\<lparr>we_last_logged_suppressed_gen := int (hi_generation_id i)\<rparr>)"
      unfolding on_gates_def t Let_def by (simp only: if_False if_True not_True_eq_False refl)
    with assms have o: "wake = None" "r = Inr ()"
      "e' = e\<lparr>we_last_logged_suppressed_gen := int (hi_generation_id i)\<rparr>" by simp_all
    show thesis by (rule quiet) (simp_all add: o same_gates_def engine_wf_def)
  next
    case 3
    then have "on_gates m i p raw e = (None, Inr (), e)"
      unfolding on_gates_def t Let_def by (simp only: if_False if_True not_True_eq_False not_False_eq_True)
    with assms quiet show thesis by (simp add: same_gates_def)
  next
    case 4
    then have "on_gates m i p raw e = on_fire m i p raw e"
      unfolding on_gates_def t Let_def by (simp only: if_False if_True not_True_eq_False not_False_eq_True)
    with assms 4 fire show thesis by simp
  qed
qed

lemma on_fire_outcome:
  assumes "on_fire m i p raw e = (wake, r, e')"
  shows "wake = Some \<lparr>wk_phrase = p, wk_raw = raw, wk_smooth = we_smooth_conf e,
           wk_latency_ms = (hi_t_latency i - hi_t0 i) * 1000\<rparr>
     \<and> we_last_trigger_generation e' = int (hi_generation_id i)
     \<and> cg_last_trigger (we_cooldown e') = hi_t_mark i
     \<and> we_wake_count e' = Suc (we_wake_count e) \<and> hb_buf (we_buffer e') = []
     \<and> we_smooth_conf e' = 0 \<and> we_candidate e' = None \<and> we_state_machine e' = RT_COOLDOWN
     \<and> we_detection_paused e' = we_detection_paused e
     \<and> st_generation (we_streamer e') = Suc (st_generation (we_streamer e))
     \<and> (\<forall>x. r = Inl x \<longleftrightarrow> hi_created i = Inl x)
     \<and> (engine_wf e \<longrightarrow> engine_wf e')"
proof -
  define lat where "lat = (hi_t_latency i - hi_t0 i) * 1000"
  define e1 where "e1 = e\<lparr>we_last_trigger_generation := int (hi_generation_id i),
      we_cooldown := cg_mark_triggered (hi_t_mark i) (we_cooldown e),
      we_buffer := hb_clear (we_buffer e), we_hit_count := 0, we_wake_count := we_wake_count e + 1,
      we_latency_sum := we_latency_sum e + lat, we_raw_sum := we_raw_sum e + raw,
      we_smooth_sum := we_smooth_sum e + we_smooth_conf e,
      we_telemetry := tc_register_wake lat (we_telemetry e)\<rparr>"
  define e2 where "e2 = confirm_candidate e1"
  have e2: "we_last_trigger_generation e2 = int (hi_generation_id i)"
    "cg_last_trigger (we_cooldown e2) = hi_t_mark i" "we_wake_count e2 = Suc (we_wake_count e)"
    "hb_buf (we_buffer e2) = []" "we_smooth_conf e2 = we_smooth_conf e" "we_candidate e2 = None"
    "we_detection_paused e2 = we_detection_paused e" "we_streamer e2 = we_streamer e"
    by (simp_all add: e2_def e1_def confirm_candidate_def cg_mark_triggered_def hb_clear_def split: option.splits)
  have wf2: "engine_wf e \<Longrightarrow> engine_wf e2"
  proof -
    assume w: "engine_wf e"
    then have "tc_ok (we_telemetry e)" by (simp add: engine_wf_def)
    with w tc_ok_ops have "engine_wf e1" by (simp add: e1_def engine_wf_def)
    then show "engine_wf e2" unfolding e2_def by (rule candidate_ops_keep)
  qed
  obtain rr s where s: "st_reset_stream m (''wake'', hi_t_reset i, hi_t_state i, hi_created i) (we_streamer e) = (rr, s)"
    by fastforce
  have rr: "rr = Inl x \<longleftrightarrow> hi_created i = Inl x" for x
  proof -
    have "fst (st_reset_stream m (''wake'', hi_t_reset i, hi_t_state i, hi_created i) (we_streamer e)) = Inl x
        \<longleftrightarrow> hi_created i = Inl x"
      by (simp add: st_reset_stream_eq Let_def split: sum.splits)
    with s show ?thesis by simp
  qed
  have gen: "st_generation s = Suc (st_generation (we_streamer e))"
    using stream.reset_generation [of m "(''wake'', hi_t_reset i, hi_t_state i, hi_created i)" "we_streamer e"] s
    by simp
  let ?e3 = "e2\<lparr>we_state_machine := rt_transition ''cooldown'' (we_state_machine e2)\<rparr>"
  have "on_fire m i p raw e =
      (case st_reset_stream m (''wake'', hi_t_reset i, hi_t_state i, hi_created i)
              (we_streamer (?e3\<lparr>we_smooth_conf := 0\<rparr>)) of
         (r, s) \<Rightarrow> (Some \<lparr>wk_phrase = p, wk_raw = raw, wk_smooth = we_smooth_conf ?e3, wk_latency_ms = lat\<rparr>,
                   r, ?e3\<lparr>we_smooth_conf := 0, we_streamer := s\<rparr>))"
    unfolding on_fire_def Let_def lat_def e1_def e2_def by (rule refl)
  then have "on_fire m i p raw e = (Some \<lparr>wk_phrase = p, wk_raw = raw, wk_smooth = we_smooth_conf e2, wk_latency_ms = lat\<rparr>,
      rr, e2\<lparr>we_state_machine := RT_COOLDOWN, we_smooth_conf := 0, we_streamer := s\<rparr>)"
    by (simp add: e2(8) s)
  with assms have o: "wake = Some \<lparr>wk_phrase = p, wk_raw = raw, wk_smooth = we_smooth_conf e2, wk_latency_ms = lat\<rparr>"
    "r = rr" "e' = e2\<lparr>we_state_machine := RT_COOLDOWN, we_smooth_conf := 0, we_streamer := s\<rparr>" by simp_all
  have "engine_wf e \<Longrightarrow> engine_wf e'" using wf2 by (simp add: o engine_wf_def)
  with e2 rr gen show ?thesis by (simp add: o lat_def)
qed

lemma on_hypothesis_cases:
  assumes "engine_wf e" "ratio_ok tsr" "on_hypothesis jw tsr m r ix i e = (wake, x, e')"
  obtains (quiet) "wake = None" "x = Inr ()" "same_gates e e'" "engine_wf e'"
  | (fire) w e1 score phrase variant raw h where
      "\<not> we_detection_paused e" "best_match jw tsr r ix w = (score, phrase, variant)"
      "raw = compute_confidence score (length w) h" "0 \<le> raw" "raw \<le> 1"
      "engine_wf e1" "same_gates e e1" "on_fire m i phrase raw e1 = (wake, x, e')"
      "DEFAULT_THRESHOLD + 8/100 \<le> raw \<or> DEFAULT_THRESHOLD \<le> we_smooth_conf e1"
      "int (hi_generation_id i) \<noteq> we_last_trigger_generation e"
      "cg_can_trigger (hi_t_gate i) (we_cooldown e)" "score \<noteq> 0"
proof (cases "we_detection_paused e")
  case True
  with assms quiet show thesis by (simp add: on_hypothesis_def same_gates_def)
next
  case False
  define e1 where "e1 = on_metrics i e"
  obtain w e2 where e2: "on_buffer i e1 = (w, e2)" by fastforce
  obtain score phrase variant where bm: "best_match jw tsr r ix w = (score, phrase, variant)"
    by (metis prod.exhaust)
  obtain raw e3 where e3: "on_score i score w e2 = (raw, e3)" by fastforce
  define c where "c = (if variant \<noteq> '''' then get_canonical ix variant else Some '''')"
  define e4 where "e4 = on_candidate i phrase variant c raw e3"
  define e5 where "e5 = on_ema i phrase raw e4"
  have eq: "on_gates m i phrase raw e5 = (wake, x, e')"
    using assms(3) False
    by (simp add: on_hypothesis_def e2 bm e3 Let_def e5_def e4_def c_def flip: e1_def)
  have k1: "same_gates e e1 \<and> engine_wf e1" using on_metrics_keeps [of e i] assms(1) by (simp add: e1_def)
  have k2: "same_gates e1 e2 \<and> engine_wf e2" using on_buffer_keeps [OF e2] k1 by simp
  obtain h where k3: "same_gates e2 e3" "engine_wf e3" "raw = compute_confidence score (length w) h"
    using on_score_keeps [OF e3] k2 by blast
  have k4: "same_gates e3 e4 \<and> engine_wf e4" using on_candidate_keeps [OF k3(2)] by (simp add: e4_def)
  have score: "0 \<le> score" "score = 0 \<Longrightarrow> raw \<le> 20/100"
  proof -
    show "0 \<le> score"
      using bm by (cases rule: best_match_cases)
        (use score_phrase_bounds [OF assms(2)] in \<open>force simp: window_score_def Let_def\<close>)+
    show "score = 0 \<Longrightarrow> raw \<le> 20/100" using confidence_zero_match k3(3) by simp
  qed
  have raw: "0 \<le> raw" "raw \<le> 1" using confidence_bounds [OF score(1)] k3(3) by simp_all
  have k5: "same_gates e4 e5 \<and> engine_wf e5" using on_ema_keeps [of e4 raw i phrase] k4 raw by (simp add: e5_def)
  have sg: "same_gates e e5" using k1 k2 k3(1) k4 k5 same_gates_trans by blast
  from eq show thesis
  proof (cases rule: on_gates_cases)
    case quiet
    then show thesis using that(1) sg k5 same_gates_trans by blast
  next
    case fire
    have "score \<noteq> 0"
    proof
      assume "score = 0"
      then have "raw \<le> 20/100" by (rule score)
      moreover from this have "we_smooth_conf e5 \<le> 76/100" unfolding e5_def
        using on_ema_low k4 raw(1) by blast
      ultimately show False using fire(2) by (simp add: settings)
    qed
    moreover have "int (hi_generation_id i) \<noteq> we_last_trigger_generation e"
      "cg_can_trigger (hi_t_gate i) (we_cooldown e)"
      using fire(3,4) sg by (simp_all add: same_gates_def)
    ultimately show thesis
      using that(2) [of w score phrase variant raw h e5] False bm k3(3) raw k5 sg fire(1,2) by blast
  qed
qed

section \<open>Runs of the engine\<close>

text \<open>
  A run interleaves hypotheses with anything the worker thread and the watchdog do to the streamer.
  The run records the wakes, newest first, with their generation and the time the cooldown was
  marked. Hypotheses carry generations that never go down (the provider only counts up), and the
  clock does not go back.
\<close>

record ('o, 's) engine_run =
  er_engine :: "('o, 's) engine"
  er_wakes :: "(nat \<times> time_s) list"
  er_gen :: nat
  er_clock :: time_s

inductive engine_step ::
  "(string \<Rightarrow> string \<Rightarrow> pyfloat) \<Rightarrow> (string \<Rightarrow> string \<Rightarrow> pyfloat) \<Rightarrow> 's vad_models
     \<Rightarrow> ('o, 's) engine_run \<Rightarrow> ('o, 's) engine_run \<Rightarrow> bool"
  for jw tsr m where
  hypothesis:
    "on_hypothesis jw tsr m r ix i (er_engine s) = (wake, x, e') \<Longrightarrow>
     er_gen s \<le> hi_generation_id i \<Longrightarrow> er_clock s \<le> hi_t_gate i \<Longrightarrow> hi_t_gate i \<le> hi_t_mark i \<Longrightarrow>
     engine_step jw tsr m s
       (s\<lparr>er_engine := e',
          er_wakes := (case wake of None \<Rightarrow> er_wakes s | Some _ \<Rightarrow> (hi_generation_id i, hi_t_mark i) # er_wakes s),
          er_gen := hi_generation_id i, er_clock := hi_t_mark i\<rparr>)"
| environment:
    "er_clock s \<le> t \<Longrightarrow>
     engine_step jw tsr m s (s\<lparr>er_engine := (er_engine s)\<lparr>we_streamer := st\<rparr>, er_clock := t\<rparr>)"

definition run_init :: "('o, 's) engine_run \<Rightarrow> bool" where
  "run_init s \<longleftrightarrow>
     (\<exists>st t. er_engine s = new_engine st t
        \<or> (\<exists>now created mic. er_engine s = snd (engine_start now created mic (new_engine st t))))
   \<and> er_wakes s = [] \<and> er_gen s = 0 \<and> 0 \<le> er_clock s"

definition run_wf :: "('o, 's) engine_run \<Rightarrow> bool" where
  "run_wf s \<longleftrightarrow> engine_wf (er_engine s)
     \<and> we_wake_count (er_engine s) = length (er_wakes s)
     \<and> sorted_wrt (\<lambda>a b. fst b < fst a \<and> snd b + COOLDOWN_SECONDS \<le> snd a) (er_wakes s)
     \<and> (\<forall>w\<in>set (er_wakes s). fst w \<le> er_gen s \<and> snd w \<le> er_clock s)
     \<and> (case er_wakes s of
          [] \<Rightarrow> we_last_trigger_generation (er_engine s) = -1
        | w # _ \<Rightarrow> we_last_trigger_generation (er_engine s) = int (fst w)
            \<and> cg_last_trigger (we_cooldown (er_engine s)) = snd w)"

lemma sorted_desc_distinct: "sorted_wrt (\<lambda>a b. b < a) xs \<Longrightarrow> distinct (xs :: nat list)"
  by (induction xs) auto

lemma engine_start_frame:
  "\<exists>f st. snd (engine_start now created mic e) = e\<lparr>we_state_machine := f, we_streamer := st\<rparr>"
  by (auto simp: engine_start_def Let_def case_prod_unfold intro!: exI)

lemma engine_wf_start [ava_inv]: "engine_wf e \<Longrightarrow> engine_wf (snd (engine_start now created mic e))"
  using engine_start_frame [of now created mic e] by (auto simp: engine_wf_def)

lemma run_wf_init:
  assumes "run_init s"
  shows "run_wf s"
proof -
  obtain st t where "er_engine s = new_engine st t
      \<or> (\<exists>now created mic. er_engine s = snd (engine_start now created mic (new_engine st t)))"
    using assms unfolding run_init_def by blast
  then have e: "engine_wf (er_engine s) \<and> we_wake_count (er_engine s) = 0
      \<and> we_last_trigger_generation (er_engine s) = -1"
  proof
    assume "er_engine s = new_engine st t"
    then show ?thesis using engine_wf_new [of st t] by (simp add: new_engine_def)
  next
    assume "\<exists>now created mic. er_engine s = snd (engine_start now created mic (new_engine st t))"
    then obtain now created mic where e: "er_engine s = snd (engine_start now created mic (new_engine st t))"
      by blast
    obtain f st' where "er_engine s = (new_engine st t)\<lparr>we_state_machine := f, we_streamer := st'\<rparr>"
      using engine_start_frame [of now created mic "new_engine st t"] e by auto
    moreover have "engine_wf (er_engine s)" unfolding e by (intro ava_inv)
    ultimately show ?thesis by (simp add: new_engine_def)
  qed
  with assms show ?thesis by (simp add: run_init_def run_wf_def)
qed

lemma same_gates_run:
  assumes "run_wf s" "same_gates (er_engine s) e'" "engine_wf e'" "er_gen s \<le> g" "er_clock s \<le> t"
  shows "run_wf (s\<lparr>er_engine := e', er_gen := g, er_clock := t\<rparr>)"
  using assms unfolding run_wf_def same_gates_def by (fastforce split: list.splits)

lemma run_wf_hypothesis:
  assumes ok: "ratio_ok tsr" and wf: "run_wf s"
    and h: "on_hypothesis jw tsr m r ix i (er_engine s) = (wake, x, e')"
    and mono: "er_gen s \<le> hi_generation_id i" "er_clock s \<le> hi_t_gate i" "hi_t_gate i \<le> hi_t_mark i"
  shows "run_wf (s\<lparr>er_engine := e',
          er_wakes := (case wake of None \<Rightarrow> er_wakes s | Some _ \<Rightarrow> (hi_generation_id i, hi_t_mark i) # er_wakes s),
          er_gen := hi_generation_id i, er_clock := hi_t_mark i\<rparr>)"
proof -
  have ew: "engine_wf (er_engine s)" using wf by (simp add: run_wf_def)
  from ew ok h show ?thesis
  proof (cases rule: on_hypothesis_cases)
    case quiet
    have "run_wf (s\<lparr>er_engine := e', er_gen := hi_generation_id i, er_clock := hi_t_mark i\<rparr>)"
      using same_gates_run [OF wf quiet(3,4) mono(1)] mono(2,3) by simp
    moreover have "s\<lparr>er_engine := e', er_wakes := er_wakes s, er_gen := hi_generation_id i, er_clock := hi_t_mark i\<rparr>
        = s\<lparr>er_engine := e', er_gen := hi_generation_id i, er_clock := hi_t_mark i\<rparr>" by (cases s) simp
    ultimately show ?thesis using quiet(1) by simp
  next
    case (fire w e1 score phrase variant raw k)
    note o = on_fire_outcome [OF fire(8)]
    have new: "fst p < hi_generation_id i \<and> snd p + COOLDOWN_SECONDS \<le> hi_t_mark i"
      if p: "p \<in> set (er_wakes s)" for p
    proof -
      obtain q qs where q: "er_wakes s = q # qs" using p by (cases "er_wakes s") auto
      have q1: "we_last_trigger_generation (er_engine s) = int (fst q)"
        "cg_last_trigger (we_cooldown (er_engine s)) = snd q" using wf q by (simp_all add: run_wf_def)
      have "fst q \<le> er_gen s" using wf q by (simp add: run_wf_def)
      then have a: "fst q < hi_generation_id i" using fire(10) q1 mono(1) by simp
      have b: "snd q + COOLDOWN_SECONDS \<le> hi_t_mark i"
        using fire(11) q1 mono(3) by (simp add: cg_can_trigger_def)
      have "p = q \<or> (fst p < fst q \<and> snd p + COOLDOWN_SECONDS \<le> snd q)"
        using wf p q by (auto simp: run_wf_def)
      with a b show ?thesis by (auto simp: settings)
    qed
    have cnt: "we_wake_count e' = Suc (length (er_wakes s))"
      using o fire(7) wf by (simp add: same_gates_def run_wf_def)
    have "sorted_wrt (\<lambda>a b. fst b < fst a \<and> snd b + COOLDOWN_SECONDS \<le> snd a)
        ((hi_generation_id i, hi_t_mark i) # er_wakes s)"
      using new wf by (simp add: run_wf_def)
    moreover have "\<forall>q\<in>set ((hi_generation_id i, hi_t_mark i) # er_wakes s).
        fst q \<le> hi_generation_id i \<and> snd q \<le> hi_t_mark i"
      using new by (fastforce simp: settings)
    moreover have "engine_wf e'" using o fire(6) by blast
    ultimately show ?thesis using o cnt by (simp add: run_wf_def)
  qed
qed

lemma run_wf_step:
  assumes "ratio_ok tsr" "run_wf s" "engine_step jw tsr m s s'"
  shows "run_wf s'"
  using assms(3)
proof cases
  case (hypothesis r ix i wake x e')
  then show ?thesis using run_wf_hypothesis [OF assms(1,2)] by blast
next
  case (environment t st)
  then show ?thesis
    using assms(2) by (fastforce simp: run_wf_def engine_wf_def split: list.splits)
qed

text \<open>The two similarity functions of a run, with the ratio in range.\<close>

interpretation engine_machine:
  invariant_machine run_init "\<lambda>s s'. ratio_ok tsr \<and> engine_step jw tsr m s s'" run_wf
  for jw tsr and m :: "'s vad_models"
  by unfold_locales (auto intro: run_wf_init run_wf_step)

section \<open>Properties\<close>

text \<open>C1: in every run of the engine, whatever the worker and the watchdog do in between, every utterance
  generation wakes at most once and any two wakes are at least \<open>COOLDOWN_SECONDS\<close> apart; the wake
  counter is the number of wakes and agrees with the collector's.\<close>

theorem wakes_once_per_generation:
  assumes "ratio_ok tsr" "run_init s" "(\<lambda>s s'. ratio_ok tsr \<and> engine_step jw tsr m s s')\<^sup>*\<^sup>* s s'"
  shows "distinct (map fst (er_wakes s'))
     \<and> (\<forall>i j. i < j \<and> j < length (er_wakes s') \<longrightarrow>
          snd (er_wakes s' ! j) + COOLDOWN_SECONDS \<le> snd (er_wakes s' ! i))
     \<and> we_wake_count (er_engine s') = length (er_wakes s')
     \<and> tc_wake_count (we_telemetry (er_engine s')) = length (er_wakes s')"
proof -
  have wf: "run_wf s'" using engine_machine.reachable_inv [OF assms(2,3)] .
  then have "sorted_wrt (\<lambda>a b. fst b < fst a \<and> snd b + COOLDOWN_SECONDS \<le> snd a) (er_wakes s')"
    by (simp add: run_wf_def)
  moreover from this have "sorted_wrt (\<lambda>a b. b < a) (map fst (er_wakes s'))"
    by (auto simp: sorted_wrt_map elim: sorted_wrt_mono_rel [rotated])
  then have "distinct (map fst (er_wakes s'))"
    by (rule sorted_desc_distinct)
  ultimately show ?thesis
    using wf by (auto simp: run_wf_def engine_wf_def sorted_wrt_iff_nth_less)
qed

text \<open>C2: a wake has a cause: a hypothesis emits one only if detection is not paused, its generation has not
  just woken, the cooldown has passed, and the raw confidence reached the threshold plus 0.08 or the
  moving average the threshold; some window of hypotheses then passed the anchor gate with a positive
  score for the phrase of the event, which is not empty and is active or the canonical phrase of the
  matched variant. The wake clears the window and the candidate, starts a new generation and a
  cooldown; the call raises only if creating the next stream fails, and then the event has been
  emitted all the same.\<close>

theorem wake_has_cause:
  assumes "engine_wf e" "ratio_ok tsr" "pr_wf r"
    and "on_hypothesis jw tsr m r ix i e = (Some wk, x, e')"
  shows "\<not> we_detection_paused e
     \<and> int (hi_generation_id i) \<noteq> we_last_trigger_generation e
     \<and> cg_last_trigger (we_cooldown e) + COOLDOWN_SECONDS \<le> hi_t_gate i
     \<and> (DEFAULT_THRESHOLD + 8/100 \<le> wk_raw wk \<or> DEFAULT_THRESHOLD \<le> wk_smooth wk)
     \<and> wk_raw wk \<le> 1 \<and> wk_smooth wk \<le> 1
     \<and> (\<exists>w score variant. best_match jw tsr r ix w = (score, wk_phrase wk, variant) \<and> 0 < score
          \<and> anchor_present jw ix (build_weighted_text w) \<and> wk_phrase wk \<noteq> ''''
          \<and> (wk_phrase wk \<in> set (get_active_phrases r) \<or> get_canonical ix variant = Some (wk_phrase wk)))
     \<and> hb_buf (we_buffer e') = [] \<and> we_candidate e' = None
     \<and> we_last_trigger_generation e' = int (hi_generation_id i)
     \<and> st_generation (we_streamer e') = Suc (st_generation (we_streamer e))
     \<and> (\<forall>y. x = Inl y \<longleftrightarrow> hi_created i = Inl y) \<and> engine_wf e'"
  using assms(1,2,4)
proof (cases rule: on_hypothesis_cases)
  case (fire w e1 score phrase variant raw h)
  note o = on_fire_outcome [OF fire(8)]
  from fire(2) have bm: "best_match jw tsr r ix w = (score, wk_phrase wk, variant) \<and> 0 < score
      \<and> anchor_present jw ix (build_weighted_text w) \<and> wk_phrase wk \<noteq> ''''
      \<and> (wk_phrase wk \<in> set (get_active_phrases r) \<or> get_canonical ix variant = Some (wk_phrase wk))"
  proof (cases rule: best_match_cases)
    case none
    with fire(12) show ?thesis by simp
  next
    case some
    have "phrase = wk_phrase wk" using o by auto
    moreover have "0 < score"
      using score_phrase_bounds [OF assms(2)] some(5) by (force simp: window_score_def Let_def)
    moreover have "p \<noteq> ''''" if "p \<in> set (get_active_phrases r)" for p
      using that assms(3) pr_all_valid [OF assms(3)]
      by (auto simp: get_active_phrases_def pr_get_active_def pr_get_all_def pc_valid_def)
    ultimately show ?thesis
      using some(2,4) fire(2) by (auto simp: phrases_to_score_set canonical_candidate_def split: if_splits)
  qed
  have e1: "we_smooth_conf e1 \<le> 1" "st_generation (we_streamer e1) = st_generation (we_streamer e)"
    using fire(6,7) by (simp_all add: engine_wf_def same_gates_def)
  have cool: "cg_last_trigger (we_cooldown e) + COOLDOWN_SECONDS \<le> hi_t_gate i"
    using fire(11) by (simp add: cg_can_trigger_def algebra_simps)
  have "engine_wf e'" using o fire(6) by blast
  with o fire(1,5,9,10) e1 cool bm show ?thesis by auto
qed simp

lemma demo_registry_wf: "pr_wf demo_registry"
  by (auto simp: pr_wf_def demo_registry_def pr_dict_wf_def dict_wf_def pr_get_by_id_def pc_valid_def
      demo_norms norm_variants_def split: if_splits)

definition demo_engine :: "((nat \<times> string), unit) engine" where
  "demo_engine = new_engine (new_streamer toy_vad_models True 0) 0"

definition demo_hyp :: "(nat \<times> string) hyp_input" where
  "demo_hyp = \<lparr>hi_text = ''ava'', hi_stability = 2, hi_peak = ''ava'', hi_generation_id = 1, hi_t0 = 3,
     hi_now = 3, hi_t_push = 3, hi_t_purge = 3, hi_t_push_peak = 3, hi_t_purge_peak = 3, hi_t_window = 3,
     hi_t_asr = 3, hi_t_cand = 3, hi_t_cand' = 3, hi_t_tele = 3, hi_t_tele' = 3, hi_t_gate = 3,
     hi_t_latency = 3, hi_t_mark = 3, hi_t_reset = 3, hi_t_state = 3, hi_created = Inr (0, '''')\<rparr>"

lemma demo_engine_wf: "engine_wf demo_engine"
  using engine_wf_new by (simp add: demo_engine_def engine_wf_def)

lemma demo_wakes:
  "\<exists>wk x e'. on_hypothesis (\<lambda>_ _. 0) demo_ratio toy_vad_models demo_registry demo_index demo_hyp demo_engine
     = (Some wk, x, e')"
proof -
  define e1 where "e1 = on_metrics demo_hyp demo_engine"
  have e1: "e1 = demo_engine"
    by (simp add: e1_def on_metrics_def demo_hyp_def demo_engine_def new_engine_def)
  obtain e2 where e2: "on_buffer demo_hyp e1 = ([(''ava'', 2)], e2)" "we_hit_count e2 = 0"
    "same_gates demo_engine e2" "engine_wf e2"
  proof -
    have "on_buffer demo_hyp e1 = ([(''ava'', 2)], snd (on_buffer demo_hyp e1))"
      "we_hit_count (snd (on_buffer demo_hyp e1)) = 0"
      by (simp_all add: e1 on_buffer_def demo_hyp_def demo_engine_def new_engine_def new_hyp_buffer_def
          hb_push_def hb_purge_def hb_get_window_def eff_stability_def settings Let_def)
    with on_buffer_keeps [OF this(1)] demo_engine_wf e1 that show thesis by blast
  qed
  obtain e3 where e3: "on_score demo_hyp 1 [(''ava'', 2)] e2 = (13/15, e3)"
    by (simp add: on_score_def e2(2) compute_confidence_def Let_def)
  have k3: "same_gates e2 e3" "engine_wf e3" using on_score_keeps [OF e3] e2(4) by blast+
  define e4 where "e4 = on_candidate demo_hyp ''ava'' ''ava'' (get_canonical demo_index ''ava'') (13/15) e3"
  have k4: "same_gates e3 e4" "engine_wf e4" using on_candidate_keeps [OF k3(2)] by (auto simp: e4_def)
  define e5 where "e5 = on_ema demo_hyp ''ava'' (13/15) e4"
  have "same_gates e4 e5" by (simp add: e5_def on_ema_frame)
  then have g: "same_gates demo_engine e5" using e2(3) k3(1) k4(1) same_gates_trans by blast
  have eq: "on_hypothesis (\<lambda>_ _. 0) demo_ratio toy_vad_models demo_registry demo_index demo_hyp demo_engine
      = on_gates toy_vad_models demo_hyp ''ava'' (13/15) e5"
    unfolding on_hypothesis_def Let_def e1_def [symmetric] e2(1) prod.case demo_best_match_stable e3 e4_def e5_def
    by (simp add: demo_engine_def new_engine_def)
  have "we_last_trigger_generation e5 = -1" "cg_can_trigger 3 (we_cooldown e5)"
    using g by (simp_all add: same_gates_def demo_engine_def new_engine_def cg_can_trigger_def new_cooldown_def settings)
  then have "on_gates toy_vad_models demo_hyp ''ava'' (13/15) e5 = on_fire toy_vad_models demo_hyp ''ava'' (13/15) e5"
    by (simp add: on_gates_def get_threshold_def settings demo_hyp_def)
  with eq on_fire_outcome [of toy_vad_models demo_hyp "''ava''" "13/15" e5] show ?thesis
    by (metis prod.exhaust)
qed

theorem wakes_once_per_generation_witness:
  "\<exists>s s'. (\<lambda>s s'. ratio_ok demo_ratio \<and> engine_step (\<lambda>_ _. 0) demo_ratio toy_vad_models s s')\<^sup>*\<^sup>* s s'
     \<and> er_engine s = demo_engine \<and> er_wakes s = [] \<and> er_wakes s' = [(1, 3)]
     \<and> distinct (map fst (er_wakes s')) \<and> we_wake_count (er_engine s') = 1"
proof -
  let ?s = "\<lparr>er_engine = demo_engine, er_wakes = [], er_gen = 0, er_clock = 0\<rparr>"
  obtain wk x e' where o: "on_hypothesis (\<lambda>_ _. 0) demo_ratio toy_vad_models demo_registry demo_index
      demo_hyp (er_engine ?s) = (Some wk, x, e')" using demo_wakes by auto
  let ?s' = "?s\<lparr>er_engine := e', er_wakes := [(1, 3)], er_gen := 1, er_clock := 3\<rparr>"
  have ok: "ratio_ok demo_ratio" by (simp add: ratio_ok_def demo_ratio_def)
  have init: "run_init ?s" by (auto simp: run_init_def demo_engine_def)
  have "engine_step (\<lambda>_ _. 0) demo_ratio toy_vad_models ?s ?s'"
    using engine_step.hypothesis [OF o] by (simp add: demo_hyp_def)
  with ok have run: "(\<lambda>s s'. ratio_ok demo_ratio \<and> engine_step (\<lambda>_ _. 0) demo_ratio toy_vad_models s s')\<^sup>*\<^sup>* ?s ?s'"
    by (intro r_into_rtranclp) simp
  from wakes_once_per_generation [OF ok init run] run show ?thesis
    by (intro exI [of _ ?s] exI [of _ ?s']) simp
qed

theorem wake_has_cause_witness:
  "\<exists>wk x e'. on_hypothesis (\<lambda>_ _. 0) demo_ratio toy_vad_models demo_registry demo_index demo_hyp demo_engine
       = (Some wk, x, e') \<and> wk_phrase wk \<noteq> '''' \<and> we_candidate e' = None"
proof -
  obtain wk x e' where o: "on_hypothesis (\<lambda>_ _. 0) demo_ratio toy_vad_models demo_registry demo_index
      demo_hyp demo_engine = (Some wk, x, e')" using demo_wakes by blast
  have ok: "ratio_ok demo_ratio" by (simp add: ratio_ok_def demo_ratio_def)
  from wake_has_cause [OF demo_engine_wf ok demo_registry_wf o] o show ?thesis by blast
qed

text \<open>C3: a hypothesis without a wake changes nothing the gates depend on, and every hypothesis keeps the
  engine's invariant: the moving average stays in [0, 1], and the engine's candidate and the
  collector's active candidate exist together and agree in phrase, peaks, transcript, stabilisation
  and state; while detection is paused a hypothesis changes nothing at all.\<close>

theorem hypothesis_keeps_engine:
  assumes "engine_wf e" "ratio_ok tsr" "on_hypothesis jw tsr m r ix i e = (wake, x, e')"
  shows "engine_wf e'
     \<and> (wake = None \<longrightarrow> x = Inr () \<and> same_gates e e')
     \<and> (we_detection_paused e \<longrightarrow> wake = None \<and> e' = e)
     \<and> same_candidate (we_candidate e') (tc_active_candidate (we_telemetry e'))
     \<and> 0 \<le> we_smooth_conf e' \<and> we_smooth_conf e' \<le> 1"
proof -
  have p: "we_detection_paused e \<longrightarrow> wake = None \<and> e' = e"
    using assms(3) by (auto simp: on_hypothesis_def)
  from assms show ?thesis
  proof (cases rule: on_hypothesis_cases)
    case quiet
    with p show ?thesis by (auto simp: engine_wf_def)
  next
    case (fire w e1 score phrase variant raw h)
    note o = on_fire_outcome [OF fire(8)]
    have "engine_wf e'" using o fire(6) by blast
    with p o fire(1) show ?thesis by (auto simp: engine_wf_def)
  qed
qed

theorem hypothesis_keeps_engine_witness:
  "\<exists>wake x e'. on_hypothesis (\<lambda>_ _. 0) demo_ratio toy_vad_models demo_registry demo_index demo_hyp demo_engine
       = (wake, x, e') \<and> engine_wf e'"
proof -
  obtain wake x e' where o: "on_hypothesis (\<lambda>_ _. 0) demo_ratio toy_vad_models demo_registry demo_index
      demo_hyp demo_engine = (wake, x, e')" by (metis prod.exhaust)
  have ok: "ratio_ok demo_ratio" by (simp add: ratio_ok_def demo_ratio_def)
  from hypothesis_keeps_engine [OF demo_engine_wf ok o] o show ?thesis by blast
qed

end
