(* ===== verification/Profiles.thy ===== *)
theory Profiles
  imports Json_Value
begin

text \<open>
  \<^verbatim>\<open>src/runtime/config/\<close>: profile files, their migration, inheritance (\<open>extends\<close>), deep merge and
  validation, the mutability table and the validation of the runtime configuration. The file system
  is an argument: for every absolute path, nothing or what opening and parsing the file gives. An
  absolute path is the list of its components.
\<close>

section \<open>Migrations\<close>

abbreviation "unsupported_version \<equiv> OtherException ''UnsupportedProfileVersionError''"
abbreviation "circular_profile \<equiv> OtherException ''CircularProfileError''"
abbreviation "missing_parent \<equiv> OtherException ''MissingParentProfileError''"

text \<open>One phrase: \<open>in\<close> is a key test on an object, a substring test on a string and a membership test on a
  list; only an object can be assigned to.\<close>

definition add_weight :: "json \<Rightarrow> py_exc + json" where
  "add_weight phrase =
     (case phrase of
        JObj d \<Rightarrow> Inr (JObj (if ''weight'' \<in> fst ` set d then d else AList.update ''weight'' (JNum 1) d))
      | JStr s \<Rightarrow> if sublist ''weight'' s then Inr phrase else Inl (TypeError ''item assignment'')
      | JArr xs \<Rightarrow> if JStr ''weight'' \<in> set xs then Inr phrase else Inl (TypeError ''list indices'')
      | _ \<Rightarrow> Inl (TypeError ''not iterable''))"

fun add_weights :: "json list \<Rightarrow> py_exc + json list" where
  "add_weights [] = Inr []"
| "add_weights (p # ps) = sbind (add_weight p) (\<lambda>p. sbind (add_weights ps) (\<lambda>ps. Inr (p # ps)))"

definition migrate_v1_to_v2 :: "(string, json) dict \<Rightarrow> py_exc + (string, json) dict" where
  "migrate_v1_to_v2 profile =
     sbind (case map_of profile ''wakePhrases'' of
              None \<Rightarrow> Inr profile
            | Some (JArr ps) \<Rightarrow> sbind (add_weights ps) (\<lambda>ps. Inr (AList.update ''wakePhrases'' (JArr ps) profile))
            | Some (JObj d) \<Rightarrow> sbind (add_weights (map (\<lambda>kv. JStr (fst kv)) d)) (\<lambda>_. Inr profile)
            | Some (JStr s) \<Rightarrow> sbind (add_weights (map (\<lambda>c. JStr [c]) s)) (\<lambda>_. Inr profile)
            | Some _ \<Rightarrow> Inl (TypeError ''not iterable''))
       (\<lambda>profile. Inr (AList.update ''profileVersion'' (JNum 2) profile))"

text \<open>Version numbers compare as numbers; a boolean is 0 or 1.\<close>

fun version_number :: "json \<Rightarrow> pyfloat option" where
  "version_number (JNum q) = Some q"
| "version_number (JBool b) = Some (if b then 1 else 0)"
| "version_number _ = None"

function migrate_loop :: "pyfloat \<Rightarrow> (string, json) dict \<Rightarrow> py_exc + (string, json) dict" where
  "migrate_loop version profile =
     (if version < 2
      then if version = 1
           then case migrate_v1_to_v2 profile of Inl e \<Rightarrow> Inl e | Inr p \<Rightarrow> migrate_loop (version + 1) p
           else Inl unsupported_version
      else Inr profile)"
  by pat_completeness auto
termination by (relation "measure (\<lambda>(v, p). nat \<lceil>2 - v\<rceil>)") auto

declare migrate_loop.simps [simp del]

definition apply_migrations :: "(string, json) dict \<Rightarrow> py_exc + (string, json) dict" where
  "apply_migrations profile =
     (case version_number (jget profile ''profileVersion'' (JNum 1)) of
        None \<Rightarrow> Inl (TypeError ''version'')
      | Some v \<Rightarrow> if 2 < v then Inl unsupported_version else migrate_loop v profile)"

section \<open>Paths and files\<close>

type_synonym path = "string list"
type_synonym files = "path \<Rightarrow> (py_exc + json) option"

fun split_slash :: "string \<Rightarrow> string \<Rightarrow> string list" where
  "split_slash w [] = [w]"
| "split_slash w (c # cs) = (if c = CHR ''/'' then w # split_slash [] cs else split_slash (w @ [c]) cs)"

text \<open>\<open>normpath\<close> on the components, \<open>abspath(join(dir, rel))\<close> and \<open>dirname\<close>.\<close>

definition norm_step :: "path \<Rightarrow> string \<Rightarrow> path" where
  "norm_step acc c = (if c = [] \<or> c = ''.'' then acc else if c = ''..'' then butlast acc else acc @ [c])"

definition abs_join :: "path \<Rightarrow> string \<Rightarrow> path" where
  "abs_join dir rel =
     (if take 1 rel = ''/'' then foldl norm_step [] (split_slash [] rel)
      else foldl norm_step dir (split_slash [] rel))"

definition dir_name :: "path \<Rightarrow> path" where
  "dir_name p = butlast p"

text \<open>A loaded profile must be an object: \<open>get\<close> of anything else raises.\<close>

definition as_profile :: "json \<Rightarrow> py_exc + (string, json) dict" where
  "as_profile j = (case j of JObj d \<Rightarrow> Inr d | _ \<Rightarrow> Inl (OtherException ''AttributeError: get''))"

definition open_profile :: "files \<Rightarrow> path \<Rightarrow> py_exc + (string, json) dict" where
  "open_profile fs p =
     (case fs p of
        None \<Rightarrow> Inl (FileNotFoundError ''open'')
      | Some (Inl e) \<Rightarrow> Inl e
      | Some (Inr j) \<Rightarrow> sbind (as_profile j) apply_migrations)"

section \<open>Inheritance\<close>

text \<open>The visited set of \<open>detect_cycle\<close> is a list. \<open>None\<close> would be a loop that does not end.\<close>

definition detect_cycle :: "path \<Rightarrow> path list \<Rightarrow> py_exc + path list" where
  "detect_cycle p visited = (if p \<in> set visited then Inl circular_profile else Inr (p # visited))"

partial_function (option) resolve_loop ::
  "files \<Rightarrow> (string, json) dict \<Rightarrow> path \<Rightarrow> path list \<Rightarrow> (string, json) dict list
     \<Rightarrow> (py_exc + (string, json) dict list) option" where
  "resolve_loop fs current dir visited chain =
     (case map_of current ''extends'' of
        None \<Rightarrow> Some (Inr chain)
      | Some (JStr rel) \<Rightarrow>
          (let parent_path = abs_join dir rel in
           case detect_cycle parent_path visited of
             Inl e \<Rightarrow> Some (Inl e)
           | Inr visited \<Rightarrow>
               if fs parent_path = None then Some (Inl missing_parent)
               else case open_profile fs parent_path of
                      Inl e \<Rightarrow> Some (Inl e)
                    | Inr parent \<Rightarrow> resolve_loop fs parent (dir_name parent_path) visited (parent # chain))
      | Some _ \<Rightarrow> Some (Inl (TypeError ''join'')))"

definition resolve_inheritance ::
  "files \<Rightarrow> (string, json) dict \<Rightarrow> path \<Rightarrow> path list \<Rightarrow> (py_exc + (string, json) dict list) option" where
  "resolve_inheritance fs profile base_dir visited = resolve_loop fs profile base_dir visited [profile]"

section \<open>Merging\<close>

fun deep_merge :: "(string, json) dict \<Rightarrow> (string, json) dict \<Rightarrow> (string, json) dict" where
  "deep_merge d1 [] = d1"
| "deep_merge d1 ((k, v) # d2) =
     deep_merge (AList.update k
       (if k = ''wakePhrases'' then v
        else case v of
          JObj e2 \<Rightarrow> (case map_of d1 k of Some (JObj e1) \<Rightarrow> JObj (deep_merge e1 e2) | _ \<Rightarrow> v)
        | _ \<Rightarrow> v) d1) d2"

definition merge_profiles :: "(string, json) dict list \<Rightarrow> (string, json) dict" where
  "merge_profiles ps = (case ps of [] \<Rightarrow> [] | p # ps \<Rightarrow> foldl deep_merge p ps)"

definition debug_overlay :: "(string, json) dict" where
  "debug_overlay = [(''transcription'', JObj [(''enableDebug'', JBool True)]),
                    (''diagnostics'', JObj [(''enableInternalTrace'', JBool True)])]"

definition load_profile :: "files \<Rightarrow> path \<Rightarrow> bool \<Rightarrow> (py_exc + (string, json) dict) option" where
  "load_profile fs p dbg =
     (case open_profile fs p of
        Inl e \<Rightarrow> Some (Inl e)
      | Inr base \<Rightarrow>
          (case resolve_inheritance fs base (dir_name p) [p] of
             None \<Rightarrow> None
           | Some (Inl e) \<Rightarrow> Some (Inl e)
           | Some (Inr chain) \<Rightarrow> Some (Inr (merge_profiles (if dbg then chain @ [debug_overlay] else chain)))))"

section \<open>Validation of profiles\<close>

datatype profile_issue =
    Load_error py_exc
  | Duplicate_phrase json
  | Low_threshold pyfloat json
  | Unknown_field string

record validation =
  vl_valid :: bool
  vl_warnings :: "profile_issue list"
  vl_errors :: "profile_issue list"

text \<open>Iterating a value as Python does.\<close>

definition iterate :: "json \<Rightarrow> py_exc + json list" where
  "iterate j =
     (case j of
        JArr xs \<Rightarrow> Inr xs
      | JObj d \<Rightarrow> Inr (map (\<lambda>kv. JStr (fst kv)) d)
      | JStr s \<Rightarrow> Inr (map (\<lambda>c. JStr [c]) s)
      | _ \<Rightarrow> Inl (TypeError ''not iterable''))"

fun scan_phrases :: "json list \<Rightarrow> json list \<times> profile_issue list \<times> profile_issue list
    \<Rightarrow> py_exc + json list \<times> profile_issue list \<times> profile_issue list" where
  "scan_phrases [] acc = Inr acc"
| "scan_phrases (p # ps) (seen, errors, warnings) =
     (case p of
        JObj d \<Rightarrow>
          (let i = jget d ''phraseId'' (jget d ''phrase'' (JStr [])) in
           if \<not> hashable i then Inl (TypeError ''unhashable type'')
           else case version_number (jget d ''threshold'' (JNum (1/2))) of
                  None \<Rightarrow> Inl (TypeError ''threshold'')
                | Some t \<Rightarrow> scan_phrases ps
                    (if i \<in> set seen then seen else seen @ [i],
                     errors @ (if i \<in> set seen then [Duplicate_phrase i] else []),
                     warnings @ (if t < 4/10 then [Low_threshold t i] else [])))
      | _ \<Rightarrow> Inl (OtherException ''AttributeError: get''))"

fun scan_chain :: "(string, json) dict list \<Rightarrow> json list \<times> profile_issue list \<times> profile_issue list
    \<Rightarrow> py_exc + json list \<times> profile_issue list \<times> profile_issue list" where
  "scan_chain [] acc = Inr acc"
| "scan_chain (p # ps) acc =
     sbind (iterate (jget p ''wakePhrases'' (JArr []))) (\<lambda>phrases.
     sbind (scan_phrases phrases acc) (scan_chain ps))"

definition known_fields :: "string set" where
  "known_fields = {''extends'', ''profileVersion'', ''name'', ''description'', ''wakePhrases'', ''vad'', ''asr'',
     ''audio'', ''confidence'', ''transcription''}"

definition invalid_with :: "py_exc \<Rightarrow> validation" where
  "invalid_with e = \<lparr>vl_valid = False, vl_warnings = [], vl_errors = [Load_error e]\<rparr>"

definition validate_profile :: "files \<Rightarrow> path \<Rightarrow> (py_exc + validation) option" where
  "validate_profile fs p =
     (case (case fs p of None \<Rightarrow> Inl (FileNotFoundError ''open'') | Some r \<Rightarrow> r) of
        Inl e \<Rightarrow> Some (Inr (invalid_with e))
      | Inr j \<Rightarrow>
          (case sbind (as_profile j) apply_migrations of
             Inl e \<Rightarrow> Some (if e = unsupported_version then Inr (invalid_with e) else Inl e)
           | Inr base \<Rightarrow>
               (case resolve_inheritance fs base (dir_name p) [p] of
                  None \<Rightarrow> None
                | Some (Inl e) \<Rightarrow> Some (Inr (invalid_with e))
                | Some (Inr chain) \<Rightarrow>
                    Some (sbind (scan_chain chain ([], [], [])) (\<lambda>(seen, errors, warnings).
                      Inr \<lparr>vl_valid = (errors = []),
                           vl_warnings = warnings @ map Unknown_field (filter (\<lambda>k. k \<notin> known_fields) (map fst base)),
                           vl_errors = errors\<rparr>)))))"

text \<open>The module run as a program: the exit code, and the problems it prints. \<open>None\<close>: the check of the
  inheritance chain does not end.\<close>

definition validator_main :: "files \<Rightarrow> path list \<Rightarrow> (py_exc + nat \<times> validation option) option" where
  "validator_main fs argv =
     (case argv of
        [] \<Rightarrow> Some (Inr (1, None))
      | [_] \<Rightarrow> Some (Inr (1, None))
      | _ # p # _ \<Rightarrow>
          map_option (\<lambda>r. sbind r (\<lambda>res. Inr (if vl_valid res then 0 else 1, Some res))) (validate_profile fs p))"

section \<open>Mutability and runtime configuration\<close>

definition HOT_RELOAD_FIELDS :: "string set" where
  "HOT_RELOAD_FIELDS = {''vad.sileroThreshold'', ''vad.aggressiveness'', ''confidence.defaultThreshold'',
     ''confidence.emaRiseAlpha'', ''confidence.emaDecayAlpha'', ''confidence.cooldownSeconds'',
     ''transcription.enableDebug''}"

definition RESTART_REQUIRED_FIELDS :: "string set" where
  "RESTART_REQUIRED_FIELDS = {''asr.provider'', ''asr.modelPath'', ''asr.numThreads'', ''audio.sampleRate'',
     ''audio.blockSize''}"

definition check_mutability :: "string \<Rightarrow> bool \<Rightarrow> py_exc + unit" where
  "check_mutability field_path runtime_active =
     (if \<not> runtime_active then Inr ()
      else if field_path \<in> HOT_RELOAD_FIELDS then Inr ()
      else Inl (OtherException ''RestartRequiredError''))"

definition SCHEMA_VERSION :: string where
  "SCHEMA_VERSION = ''1.0''"

definition LOG_LEVELS :: "string list" where
  "LOG_LEVELS = [''silent'', ''error'', ''warn'', ''info'', ''debug'', ''trace'']"

definition PHRASE_PRIORITY_MODES :: "string list" where
  "PHRASE_PRIORITY_MODES = [''longest'', ''score'', ''canonical'']"

definition DEBUG_SUBSYSTEMS :: "string list" where
  "DEBUG_SUBSYSTEMS = [''vad'', ''asr'', ''matcher'', ''transport'', ''telemetry'']"

definition DEFAULT_CONFIG :: "(string, json) dict" where
  "DEFAULT_CONFIG =
     [(''schema_version'', JStr SCHEMA_VERSION), (''log_level'', JStr ''info''),
      (''debug'', JObj [(''vad'', JBool False), (''asr'', JBool False), (''matcher'', JBool False),
                       (''transport'', JBool False), (''telemetry'', JBool False)]),
      (''metrics_to_disk'', JBool False), (''metrics_file_path'', JStr ''runtime_metrics.json'')]"

fun check_debug :: "(string, json) dict \<Rightarrow> string list \<Rightarrow> py_exc + unit" where
  "check_debug dbg [] = Inr ()"
| "check_debug dbg (k # ks) =
     (case map_of dbg k of
        None \<Rightarrow> Inl (ValueError ''Missing debug subsystem toggle'')
      | Some (JBool b) \<Rightarrow> check_debug dbg ks
      | Some _ \<Rightarrow> Inl (ValueError ''debug toggle must be a boolean''))"

definition validate_config :: "json \<Rightarrow> py_exc + unit" where
  "validate_config config =
     (case config of
        JObj c \<Rightarrow>
          if jget c ''schema_version'' JNull \<noteq> JStr SCHEMA_VERSION then Inl (ValueError ''Unsupported schema_version'')
          else if jget c ''log_level'' JNull \<notin> JStr ` set LOG_LEVELS then Inl (ValueError ''Invalid log_level'')
          else (case jget c ''debug'' JNull of
             JObj dbg \<Rightarrow>
               sbind (check_debug dbg DEBUG_SUBSYSTEMS) (\<lambda>_.
               case jget c ''metrics_to_disk'' JNull of
                 JBool b \<Rightarrow>
                   (case jget c ''metrics_file_path'' JNull of
                      JStr f \<Rightarrow>
                        if py_strip f = [] then Inl (ValueError ''metrics_file_path must be a non-empty string'')
                        else if jget c ''phrase_priority_mode'' JNull \<noteq> JNull
                                \<and> jget c ''phrase_priority_mode'' JNull \<notin> JStr ` set PHRASE_PRIORITY_MODES
                          then Inl (ValueError ''Invalid phrase_priority_mode'')
                        else Inr ()
                    | _ \<Rightarrow> Inl (ValueError ''metrics_file_path must be a non-empty string''))
               | _ \<Rightarrow> Inl (ValueError ''metrics_to_disk must be a boolean''))
           | _ \<Rightarrow> Inl (ValueError ''debug must be a mapping of subsystem booleans''))
      | _ \<Rightarrow> Inl (ValueError ''Config must be a dictionary''))"

section \<open>Resolution ends\<close>

definition existing :: "files \<Rightarrow> path set" where
  "existing fs = {p. fs p \<noteq> None}"

text \<open>Every round visits a file that exists and was not visited before.\<close>

lemma resolve_loop_total:
  assumes "finite (existing fs)"
  shows "\<exists>r. resolve_loop fs current dir visited chain = Some r
       \<and> (\<forall>c. r = Inr c \<longrightarrow> length c \<le> length chain + card (existing fs - set visited))"
proof (induction "card (existing fs - set visited)" arbitrary: current dir visited chain rule: less_induct)
  case less
  show ?case
  proof (cases "map_of current ''extends''")
    case None
    then show ?thesis by (subst resolve_loop.simps) simp
  next
    case (Some j)
    show ?thesis
    proof (cases "\<exists>rel. j = JStr rel")
      case False
      with Some show ?thesis by (subst resolve_loop.simps) (auto split: json.splits)
    next
      case True
      then obtain rel where j: "j = JStr rel" by blast
      let ?p = "abs_join dir rel"
      show ?thesis
      proof (cases "?p \<in> set visited \<or> fs ?p = None \<or> (\<exists>e. open_profile fs ?p = Inl e)")
        case True
        with Some j show ?thesis
          by (subst resolve_loop.simps) (auto simp: detect_cycle_def Let_def split: sum.splits)
      next
        case False
        then obtain parent where parent: "open_profile fs ?p = Inr parent" by (metis sum.exhaust)
        have p: "?p \<in> existing fs - set visited" using False by (simp add: existing_def)
        then have step: "existing fs - set (?p # visited) = (existing fs - set visited) - {?p}" by auto
        have pos: "0 < card (existing fs - set visited)" using p assms by (auto simp: card_gt_0_iff)
        have card: "card (existing fs - set (?p # visited)) = card (existing fs - set visited) - 1"
          unfolding step using p assms by (simp add: card_Diff_singleton)
        then have less': "card (existing fs - set (?p # visited)) < card (existing fs - set visited)" using pos by simp
        obtain r where r: "resolve_loop fs parent (dir_name ?p) (?p # visited) (parent # chain) = Some r"
          "\<And>c. r = Inr c \<Longrightarrow> length c \<le> Suc (length chain) + card (existing fs - set (?p # visited))"
          using less [OF less', of parent "dir_name ?p" "parent # chain"] by auto
        have "resolve_loop fs current dir visited chain = Some r"
          using Some j False parent r(1) by (subst resolve_loop.simps) (auto simp: detect_cycle_def Let_def)
        moreover have "length c \<le> length chain + card (existing fs - set visited)" if "r = Inr c" for c
          using r(2) [OF that] card pos by simp
        ultimately show ?thesis by blast
      qed
    qed
  qed
qed

section \<open>What merging keeps\<close>

definition merge_value :: "string \<Rightarrow> json option \<Rightarrow> json \<Rightarrow> json" where
  "merge_value k old v =
     (if k = ''wakePhrases'' then v
      else case v of JObj e2 \<Rightarrow> (case old of Some (JObj e1) \<Rightarrow> JObj (deep_merge e1 e2) | _ \<Rightarrow> v) | _ \<Rightarrow> v)"

lemma deep_merge_Cons: "deep_merge d1 ((k, v) # d2) = deep_merge (AList.update k (merge_value k (map_of d1 k) v) d1) d2"
  by (simp add: merge_value_def)

lemma map_of_deep_merge:
  "dict_wf d2 \<Longrightarrow> map_of (deep_merge d1 d2) k =
     (case map_of d2 k of None \<Rightarrow> map_of d1 k | Some v \<Rightarrow> Some (merge_value k (map_of d1 k) v))"
proof (induction d2 arbitrary: d1)
  case (Cons kv d2)
  obtain k' v where kv: "kv = (k', v)" by fastforce
  have wf: "dict_wf d2" and new: "map_of d2 k' = None"
    using Cons.prems by (auto simp: dict_wf_def kv map_of_eq_None_iff)
  show ?case
    unfolding kv deep_merge_Cons Cons.IH [OF wf] using new by (auto split: option.splits)
qed simp

lemma dict_wf_deep_merge: "dict_wf d1 \<Longrightarrow> dict_wf (deep_merge d1 d2)"
proof (induction d2 arbitrary: d1)
  case (Cons kv d2)
  then show ?case by (cases kv) (simp add: deep_merge_Cons dict_wf_update del: deep_merge.simps)
qed simp

fun jpath :: "string list \<Rightarrow> json \<Rightarrow> json option" where
  "jpath [] j = Some j"
| "jpath (k # ks) (JObj d) = (case map_of d k of None \<Rightarrow> None | Some v \<Rightarrow> jpath ks v)"
| "jpath (k # ks) _ = None"

text \<open>The profile says nothing about the path: it leaves it at an object that has no such member, and the path
  does not go through \<open>wakePhrases\<close>.\<close>

fun silent :: "string list \<Rightarrow> json \<Rightarrow> bool" where
  "silent (k # ks) (JObj d) = (case map_of d k of None \<Rightarrow> True | Some v \<Rightarrow> k \<noteq> ''wakePhrases'' \<and> silent ks v)"
| "silent _ _ = False"

lemma json_wf_member: "json_wf (JObj d) \<Longrightarrow> map_of d k = Some v \<Longrightarrow> json_wf v"
  by (metis json_wf.simps(1) map_of_SomeD snd_conv)

lemma silent_jpath: "silent ks j \<Longrightarrow> jpath ks j = None"
  by (induction ks j rule: silent.induct) (auto split: option.splits)

lemma merge_child_wins:
  "json_wf (JObj child) \<Longrightarrow> jpath ks (JObj child) = Some v \<Longrightarrow> (\<forall>d. v \<noteq> JObj d) \<Longrightarrow>
     jpath ks (JObj (deep_merge parent child)) = Some v"
proof (induction ks arbitrary: child parent)
  case (Cons k ks)
  then obtain w where w: "map_of child k = Some w" "jpath ks w = Some v" by (auto split: option.splits)
  have "map_of (deep_merge parent child) k = Some (merge_value k (map_of parent k) w)"
    using Cons.prems(1) w(1) by (simp add: map_of_deep_merge)
  moreover have "jpath ks (merge_value k (map_of parent k) w) = Some v"
    using w Cons.IH json_wf_member [OF Cons.prems(1) w(1)] Cons.prems(3)
    by (auto simp: merge_value_def split: json.splits option.splits)
  ultimately show ?case by simp
qed auto

lemma merge_silent:
  "json_wf (JObj child) \<Longrightarrow> silent ks (JObj child) \<Longrightarrow>
     jpath ks (JObj (deep_merge parent child)) = jpath ks (JObj parent)"
proof (induction ks arbitrary: child parent)
  case (Cons k ks)
  show ?case
  proof (cases "map_of child k")
    case None
    with Cons.prems(1) show ?thesis by (simp add: map_of_deep_merge)
  next
    case (Some w)
    then have k: "k \<noteq> ''wakePhrases''" "silent ks w" using Cons.prems(2) by simp_all
    then obtain e where w: "w = JObj e" by (cases ks; cases w) auto
    have "jpath ks (merge_value k (map_of parent k) w) = (case map_of parent k of None \<Rightarrow> None | Some u \<Rightarrow> jpath ks u)"
    proof (cases "\<exists>f. map_of parent k = Some (JObj f)")
      case True
      then show ?thesis
        using k w Cons.IH json_wf_member [OF Cons.prems(1) Some] by (auto simp: merge_value_def)
    next
      case False
      then have "merge_value k (map_of parent k) w = w"
        by (auto simp: merge_value_def split: json.splits option.splits)
      moreover have "jpath ks u = None" if "\<forall>f. u \<noteq> JObj f" for u
        using that k(2) by (cases ks; cases u) auto
      ultimately show ?thesis
        using False silent_jpath [OF k(2)] by (auto split: option.splits)
    qed
    with Cons.prems(1) Some show ?thesis by (simp add: map_of_deep_merge split: option.splits)
  qed
qed simp

section \<open>What migration does\<close>

text \<open>The migrated phrase is an object with a weight and has every member the old one had.\<close>

definition keeps_and_weighs :: "json \<Rightarrow> json \<Rightarrow> bool" where
  "keeps_and_weighs p q \<longleftrightarrow> (\<forall>d. p = JObj d \<longrightarrow>
     (\<exists>e. q = JObj e \<and> map_of e ''weight'' \<noteq> None \<and> (\<forall>k v. map_of d k = Some v \<longrightarrow> map_of e k = Some v)))"

lemma add_weight_keeps: "add_weight p = Inr q \<Longrightarrow> keeps_and_weighs p q"
proof (cases p)
  case (JObj d)
  assume "add_weight p = Inr q"
  with JObj have q: "q = JObj (if ''weight'' \<in> fst ` set d then d else AList.update ''weight'' (JNum 1) d)"
    by (simp add: add_weight_def)
  show ?thesis
  proof (cases "map_of d ''weight''")
    case None
    then have "''weight'' \<notin> fst ` set d" by (simp add: map_of_eq_None_iff)
    with None q JObj show ?thesis by (auto simp: keeps_and_weighs_def)
  next
    case (Some w)
    then have "''weight'' \<in> fst ` set d" by (metis map_of_eq_None_iff option.distinct(1))
    with q JObj Some show ?thesis by (auto simp: keeps_and_weighs_def)
  qed
qed (simp_all add: keeps_and_weighs_def)

lemma add_weights_keeps: "add_weights ps = Inr qs \<Longrightarrow> list_all2 keeps_and_weighs ps qs"
  by (induction ps arbitrary: qs) (auto simp: sbind_eq_Inr add_weight_keeps)

lemma migrate_loop_2: "migrate_loop 2 p = Inr p"
  by (subst migrate_loop.simps) simp

lemma migrate_loop_cases:
  assumes "migrate_loop v p = Inr q"
  shows "(\<not> v < 2 \<and> q = p) \<or> (v = 1 \<and> migrate_v1_to_v2 p = Inr q)"
  using assms by (subst (asm) migrate_loop.simps) (auto simp: migrate_loop_2 split: if_splits sum.splits)

lemma migrate_v2: "migrate_v1_to_v2 p = Inr q \<Longrightarrow> map_of q ''profileVersion'' = Some (JNum 2)"
  by (auto simp: migrate_v1_to_v2_def sbind_eq_Inr)

lemma apply_migrations_cases:
  assumes "apply_migrations p = Inr q"
  shows "version_number (jget p ''profileVersion'' (JNum 1)) = Some 2 \<and> q = p
       \<or> version_number (jget p ''profileVersion'' (JNum 1)) = Some 1 \<and> migrate_v1_to_v2 p = Inr q"
proof -
  obtain v where v: "version_number (jget p ''profileVersion'' (JNum 1)) = Some v" "\<not> 2 < v" "migrate_loop v p = Inr q"
    using assms by (auto simp: apply_migrations_def split: option.splits if_splits)
  then show ?thesis using migrate_loop_cases [OF v(3)] by auto
qed

section \<open>Profiles stay well formed\<close>

definition files_wf :: "files \<Rightarrow> bool" where
  "files_wf fs \<longleftrightarrow> (\<forall>p j. fs p = Some (Inr j) \<longrightarrow> json_wf j)"

lemma set_update: "set (AList.update k v d) \<subseteq> insert (k, v) (set d)"
  by (induction d) auto

lemma json_wf_update: "json_wf (JObj d) \<Longrightarrow> json_wf v \<Longrightarrow> json_wf (JObj (AList.update k v d))"
  using set_update [of k v d] by auto

lemma json_wf_add_weights: "add_weights ps = Inr qs \<Longrightarrow> \<forall>p\<in>set ps. json_wf p \<Longrightarrow> \<forall>q\<in>set qs. json_wf q"
proof (induction ps arbitrary: qs)
  case (Cons p ps)
  then obtain q qs' where q: "add_weight p = Inr q" and qs: "add_weights ps = Inr qs'" "qs = q # qs'"
    by (auto simp: sbind_eq_Inr)
  have "json_wf q"
  proof (cases p)
    case (JObj d)
    with q Cons.prems(2) show ?thesis
      using json_wf_update [of d "JNum 1" "''weight''"] by (auto simp: add_weight_def simp del: json_wf.simps(1))
  qed (use q Cons.prems(2) in \<open>auto simp: add_weight_def split: if_splits\<close>)
  with Cons.IH [OF qs(1)] Cons.prems(2) qs(2) show ?case by simp
qed simp

lemma json_wf_migrate:
  assumes "migrate_v1_to_v2 p = Inr q" "json_wf (JObj p)"
  shows "json_wf (JObj q)"
proof -
  have "json_wf (JObj (AList.update ''profileVersion'' (JNum 2) p))" using assms(2) by (intro json_wf_update) simp_all
  moreover have "json_wf (JObj (AList.update ''profileVersion'' (JNum 2) (AList.update ''wakePhrases'' (JArr qs) p)))"
    if "add_weights ps = Inr qs" "map_of p ''wakePhrases'' = Some (JArr ps)" for ps qs
    using json_wf_add_weights [OF that(1)] json_wf_member [OF assms(2) that(2)] assms(2)
    by (intro json_wf_update) simp_all
  ultimately show ?thesis
    using assms(1) by (auto simp: migrate_v1_to_v2_def sbind_eq_Inr split: option.splits json.splits simp del: json_wf.simps(1))
qed

lemma json_wf_open:
  assumes "files_wf fs" "open_profile fs p = Inr d"
  shows "json_wf (JObj d)"
proof -
  obtain j where j: "fs p = Some (Inr j)" "sbind (as_profile j) apply_migrations = Inr d"
    using assms(2) by (auto simp: open_profile_def split: option.splits sum.splits)
  then obtain d0 where d0: "j = JObj d0" "apply_migrations d0 = Inr d"
    by (auto simp: as_profile_def split: json.splits)
  have "json_wf (JObj d0)" using assms(1) j(1) d0(1) unfolding files_wf_def by blast
  with apply_migrations_cases [OF d0(2)] show ?thesis using json_wf_migrate by metis
qed

lemma json_wf_merge_value:
  assumes "\<And>e1 e2. v = JObj e2 \<Longrightarrow> json_wf (JObj e1) \<Longrightarrow> json_wf (JObj (deep_merge e1 e2))"
    and "json_wf v" "\<forall>j. old = Some j \<longrightarrow> json_wf j"
  shows "json_wf (merge_value k old v)"
  using assms by (auto simp: merge_value_def simp del: json_wf.simps(1) split: json.splits option.splits)

lemma json_wf_deep_merge: "json_wf (JObj d1) \<Longrightarrow> json_wf (JObj d2) \<Longrightarrow> json_wf (JObj (deep_merge d1 d2))"
proof (induction "size (JObj d2)" arbitrary: d1 d2 rule: less_induct)
  case less
  show ?case
  proof (cases d2)
    case (Cons kv d)
    obtain k v where kv: "kv = (k, v)" by fastforce
    have v: "json_wf v" and d: "json_wf (JObj d)" using less.prems(2) by (auto simp: Cons kv dict_wf_def)
    have "json_wf (merge_value k (map_of d1 k) v)"
    proof (rule json_wf_merge_value)
      fix e1 e2
      assume "v = JObj e2" "json_wf (JObj e1)"
      then show "json_wf (JObj (deep_merge e1 e2))" using less.hyps [of e2 e1] v by (simp add: Cons kv)
    qed (use v json_wf_member [OF less.prems(1)] in auto)
    then have "json_wf (JObj (AList.update k (merge_value k (map_of d1 k) v) d1))"
      using less.prems(1) by (rule json_wf_update [rotated])
    then show ?thesis
      using less.hyps [of d] d by (simp add: Cons kv deep_merge_Cons del: deep_merge.simps json_wf.simps(1))
  qed (use less.prems in simp)
qed

definition chain_wf :: "(string, json) dict list \<Rightarrow> bool" where
  "chain_wf ds \<longleftrightarrow> (\<forall>d\<in>set ds. json_wf (JObj d))"

lemma chain_wf_resolve_loop:
  "resolve_loop fs current dir visited chain = Some r \<Longrightarrow>
     files_wf fs \<longrightarrow> chain_wf chain \<longrightarrow> (\<forall>ps. r = Inr ps \<longrightarrow> chain_wf ps)"
proof (induction rule: resolve_loop.raw_induct [rotated, consumes 1, case_names step])
  case (step loop fs current dir visited chain r)
  have parent: "chain_wf (d # chain)" if "files_wf fs" "chain_wf chain" "open_profile fs p = Inr d" for d p
    using json_wf_open [OF that(1,3)] that(2) by (simp add: chain_wf_def)
  show ?case
  proof (intro impI allI)
    fix ps
    assume wf: "files_wf fs" "chain_wf chain" and r: "r = Inr ps"
    from step.hyps r parent [OF wf] wf show "chain_wf ps"
      using step.IH by (fastforce simp: Let_def split: option.splits json.splits sum.splits if_splits)
  qed
qed

lemma json_wf_merge_profiles: "chain_wf ps \<Longrightarrow> json_wf (JObj (merge_profiles ps))"
proof (cases ps)
  case (Cons p ps')
  have "json_wf (JObj p) \<Longrightarrow> chain_wf ps' \<Longrightarrow> json_wf (JObj (foldl deep_merge p ps'))"
    by (induction ps' arbitrary: p) (simp_all add: chain_wf_def json_wf_deep_merge del: json_wf.simps(1))
  moreover assume "chain_wf ps"
  ultimately show ?thesis using Cons by (simp add: chain_wf_def merge_profiles_def del: json_wf.simps(1))
qed (simp add: merge_profiles_def)

lemma json_wf_debug_overlay: "json_wf (JObj debug_overlay)"
  by (simp add: debug_overlay_def dict_wf_def)

lemma json_wf_load_profile:
  assumes "files_wf fs" "load_profile fs p dbg = Some (Inr m)"
  shows "json_wf (JObj m)"
proof -
  obtain base chain where base: "open_profile fs p = Inr base"
    and chain: "resolve_inheritance fs base (dir_name p) [p] = Some (Inr chain)"
    and m: "m = merge_profiles (if dbg then chain @ [debug_overlay] else chain)"
    using assms(2) by (auto simp: load_profile_def split: sum.splits option.splits)
  have "chain_wf [base]" using json_wf_open [OF assms(1) base] by (simp add: chain_wf_def)
  then have "chain_wf chain"
    using chain_wf_resolve_loop [OF chain [unfolded resolve_inheritance_def]] assms(1) by blast
  then have "chain_wf (if dbg then chain @ [debug_overlay] else chain)"
    using json_wf_debug_overlay by (simp add: chain_wf_def)
  then show ?thesis unfolding m by (rule json_wf_merge_profiles)
qed

section \<open>The default configuration\<close>

lemma default_config_valid: "validate_config (JObj DEFAULT_CONFIG) = Inr ()"
  by (simp add: validate_config_def DEFAULT_CONFIG_def jget_def LOG_LEVELS_def DEBUG_SUBSYSTEMS_def
      SCHEMA_VERSION_def PHRASE_PRIORITY_MODES_def py_strip_def is_space_def Let_def)

text \<open>A field outside the hot-reload table can only be changed while the runtime is stopped, whether or not the
  table of restart-required fields names it.\<close>

lemma mutability_by_hot_table:
  "check_mutability f active = Inr () \<longleftrightarrow> \<not> active \<or> f \<in> HOT_RELOAD_FIELDS"
  "f \<in> RESTART_REQUIRED_FIELDS \<Longrightarrow> check_mutability f True = Inl (OtherException ''RestartRequiredError'')"
  by (auto simp: check_mutability_def HOT_RELOAD_FIELDS_def RESTART_REQUIRED_FIELDS_def)

section \<open>Properties\<close>

text \<open>C31: loading a profile always ends, with an error or a merged profile, however the files refer to each other,
  provided only finitely many exist: inheritance cycles are cut by the visited set. So does validating
  one.\<close>

theorem profile_loading_terminates:
  assumes "finite (existing fs)"
  shows "(\<exists>r. load_profile fs p dbg = Some r) \<and> (\<exists>r. validate_profile fs p = Some r)"
proof
  have res: "\<exists>r. resolve_inheritance fs d (dir_name p) [p] = Some r" for d
    unfolding resolve_inheritance_def using resolve_loop_total [OF assms] by blast
  show "\<exists>r. load_profile fs p dbg = Some r"
  proof (cases "open_profile fs p")
    case (Inr d)
    with res [of d] show ?thesis by (auto simp: load_profile_def split: sum.splits)
  qed (simp add: load_profile_def)
  show "\<exists>r. validate_profile fs p = Some r"
  proof (cases "case fs p of None \<Rightarrow> Inl (FileNotFoundError ''open'') | Some r \<Rightarrow> r")
    case (Inr j)
    show ?thesis
    proof (cases "sbind (as_profile j) apply_migrations")
      case migrated: (Inr d)
      with Inr res [of d] show ?thesis by (auto simp: validate_profile_def split: sum.splits)
    qed (simp add: validate_profile_def Inr)
  qed (simp add: validate_profile_def)
qed

text \<open>A file that extends itself, and one that overrides a phrase of its parent.\<close>

definition toy_base :: "(string, json) dict" where
  "toy_base = [(''profileVersion'', JNum 2), (''wakePhrases'', JArr [JObj [(''phraseId'', JStr ''a'')]])]"

definition toy_child :: "(string, json) dict" where
  "toy_child = [(''profileVersion'', JNum 2), (''extends'', JStr ''base.json''),
     (''wakePhrases'', JArr [JObj [(''phraseId'', JStr ''a''), (''threshold'', JNum (7/10))]])]"

definition toy_files :: files where
  "toy_files p =
     (if p = [''loop.json''] then Some (Inr (JObj [(''extends'', JStr ''loop.json'')]))
      else if p = [''base.json''] then Some (Inr (JObj toy_base))
      else if p = [''child.json''] then Some (Inr (JObj toy_child))
      else None)"

lemma toy_files_finite: "finite (existing toy_files)"
proof -
  have "existing toy_files \<subseteq> {[''loop.json''], [''base.json''], [''child.json'']}"
    by (auto simp: existing_def toy_files_def split: if_splits)
  then show ?thesis by (rule finite_subset) simp
qed

theorem profile_loading_terminates_witness:
  "\<exists>r. load_profile toy_files [''loop.json''] False = Some r"
  using profile_loading_terminates [OF toy_files_finite] by blast

text \<open>C32: merging a child profile into its parent gives every value the child sets that is no object, at every
  depth, and keeps the parent's value at every path the child says nothing about; the list of wake
  phrases is the child's as a whole.\<close>

theorem merge_respects_child:
  assumes "json_wf (JObj child)"
  shows "(\<forall>ks v. jpath ks (JObj child) = Some v \<and> (\<forall>d. v \<noteq> JObj d) \<longrightarrow>
            jpath ks (JObj (deep_merge parent child)) = Some v)
       \<and> (\<forall>ks. silent ks (JObj child) \<longrightarrow>
            jpath ks (JObj (deep_merge parent child)) = jpath ks (JObj parent))
       \<and> (\<forall>v. map_of child ''wakePhrases'' = Some v \<longrightarrow> map_of (deep_merge parent child) ''wakePhrases'' = Some v)"
  using assms merge_child_wins merge_silent by (auto simp: map_of_deep_merge merge_value_def)

theorem merge_respects_child_witness:
  "jpath [''vad'', ''mode''] (JObj (deep_merge [(''vad'', JObj [(''mode'', JNum 1), (''rate'', JNum 2)])]
       [(''vad'', JObj [(''mode'', JNum 3)])])) = Some (JNum 3)
   \<and> jpath [''vad'', ''rate''] (JObj (deep_merge [(''vad'', JObj [(''mode'', JNum 1), (''rate'', JNum 2)])]
       [(''vad'', JObj [(''mode'', JNum 3)])])) = Some (JNum 2)"
proof -
  have "json_wf (JObj [(''vad'', JObj [(''mode'', JNum 3)])])" by (simp add: dict_wf_def)
  from merge_respects_child [OF this, of "[(''vad'', JObj [(''mode'', JNum 1), (''rate'', JNum 2)])]"]
  show ?thesis by force
qed

text \<open>Migration brings a profile to version 2 and is idempotent; from version 1 it keeps every member of every
  phrase object and gives each a weight.\<close>

theorem migration_idempotent:
  assumes "apply_migrations p = Inr q"
  shows "apply_migrations q = Inr q
       \<and> version_number (jget q ''profileVersion'' (JNum 1)) = Some 2
       \<and> (\<forall>ps. version_number (jget p ''profileVersion'' (JNum 1)) = Some 1
              \<and> map_of p ''wakePhrases'' = Some (JArr ps) \<longrightarrow>
            (\<exists>qs. map_of q ''wakePhrases'' = Some (JArr qs) \<and> list_all2 keeps_and_weighs ps qs))"
proof -
  have v: "version_number (jget q ''profileVersion'' (JNum 1)) = Some 2"
    using apply_migrations_cases [OF assms] migrate_v2 [of p q] by (auto simp: jget_def)
  then have again: "apply_migrations q = Inr q" by (simp add: apply_migrations_def migrate_loop_2)
  have "\<exists>qs. map_of q ''wakePhrases'' = Some (JArr qs) \<and> list_all2 keeps_and_weighs ps qs"
    if "version_number (jget p ''profileVersion'' (JNum 1)) = Some 1" "map_of p ''wakePhrases'' = Some (JArr ps)" for ps
  proof -
    have "migrate_v1_to_v2 p = Inr q" using apply_migrations_cases [OF assms] that(1) by auto
    then show ?thesis using that(2) by (auto simp: migrate_v1_to_v2_def sbind_eq_Inr add_weights_keeps)
  qed
  with v again show ?thesis by blast
qed

theorem migration_idempotent_witness:
  "apply_migrations [(''wakePhrases'', JArr [JObj [(''weight'', JNum 1)]]), (''profileVersion'', JNum 2)]
     = Inr [(''wakePhrases'', JArr [JObj [(''weight'', JNum 1)]]), (''profileVersion'', JNum 2)]"
proof -
  have "apply_migrations [(''wakePhrases'', JArr [JObj []])]
      = Inr [(''wakePhrases'', JArr [JObj [(''weight'', JNum 1)]]), (''profileVersion'', JNum 2)]"
    by (simp add: apply_migrations_def jget_def migrate_loop.simps [of 1] migrate_loop_2 migrate_v1_to_v2_def add_weight_def)
  from migration_idempotent [OF this] show ?thesis by simp
qed

lemma toy_profiles:
  "apply_migrations toy_base = Inr toy_base" "apply_migrations toy_child = Inr toy_child"
  "open_profile toy_files [''base.json''] = Inr toy_base" "open_profile toy_files [''child.json''] = Inr toy_child"
  by (simp_all add: open_profile_def toy_files_def as_profile_def apply_migrations_def toy_base_def toy_child_def
      jget_def migrate_loop_2)

lemma toy_chains:
  "resolve_inheritance toy_files toy_base [] [[''base.json'']] = Some (Inr [toy_base])"
  "resolve_inheritance toy_files toy_child [] [[''child.json'']] = Some (Inr [toy_base, toy_child])"
proof -
  have ext: "map_of toy_base ''extends'' = None" "map_of toy_child ''extends'' = Some (JStr ''base.json'')"
    by (simp_all add: toy_base_def toy_child_def)
  have path: "abs_join [] ''base.json'' = [''base.json'']" "toy_files [''base.json''] \<noteq> None"
    by (simp_all add: abs_join_def norm_step_def toy_files_def)
  show base: "resolve_inheritance toy_files toy_base [] [[''base.json'']] = Some (Inr [toy_base])"
    unfolding resolve_inheritance_def by (subst resolve_loop.simps) (simp add: ext)
  have "resolve_loop toy_files toy_base (dir_name [''base.json'']) [[''base.json''], [''child.json'']] [toy_base, toy_child]
      = Some (Inr [toy_base, toy_child])"
    by (subst resolve_loop.simps) (simp add: ext)
  then show "resolve_inheritance toy_files toy_child [] [[''child.json'']] = Some (Inr [toy_base, toy_child])"
    unfolding resolve_inheritance_def
    by (subst resolve_loop.simps) (simp add: ext path detect_cycle_def toy_profiles)
qed

lemma toy_validations:
  "validate_profile toy_files [''base.json''] = Some (Inr \<lparr>vl_valid = True, vl_warnings = [], vl_errors = []\<rparr>)"
  "validate_profile toy_files [''child.json'']
     = Some (Inr \<lparr>vl_valid = False, vl_warnings = [], vl_errors = [Duplicate_phrase (JStr ''a'')]\<rparr>)"
proof -
  have scan: "scan_chain [toy_base] ([], [], []) = Inr ([JStr ''a''], [], [])"
    "scan_chain [toy_base, toy_child] ([], [], []) = Inr ([JStr ''a''], [Duplicate_phrase (JStr ''a'')], [])"
    by (simp_all add: toy_base_def toy_child_def iterate_def jget_def Let_def)
  have fields: "filter (\<lambda>k. k \<notin> known_fields) (map fst toy_base) = []"
    "filter (\<lambda>k. k \<notin> known_fields) (map fst toy_child) = []"
    by (simp_all add: toy_base_def toy_child_def known_fields_def)
  have files: "toy_files [''base.json''] = Some (Inr (JObj toy_base))" "toy_files [''child.json''] = Some (Inr (JObj toy_child))"
    by (simp_all add: toy_files_def)
  show "validate_profile toy_files [''base.json''] = Some (Inr \<lparr>vl_valid = True, vl_warnings = [], vl_errors = []\<rparr>)"
    "validate_profile toy_files [''child.json'']
     = Some (Inr \<lparr>vl_valid = False, vl_warnings = [], vl_errors = [Duplicate_phrase (JStr ''a'')]\<rparr>)"
    by (simp_all add: validate_profile_def files as_profile_def toy_profiles dir_name_def toy_chains scan fields
        del: scan_chain.simps)
qed

lemma toy_child_loads:
  "\<exists>m. load_profile toy_files [''child.json''] dbg = Some (Inr m)
     \<and> map_of m ''wakePhrases'' = Some (JArr [JObj [(''phraseId'', JStr ''a''), (''threshold'', JNum (7/10))]])"
proof -
  have "load_profile toy_files [''child.json''] dbg
      = Some (Inr (merge_profiles (if dbg then [toy_base, toy_child, debug_overlay] else [toy_base, toy_child])))"
    by (simp add: load_profile_def toy_profiles dir_name_def toy_chains)
  then show ?thesis
    by (simp add: merge_profiles_def toy_base_def toy_child_def debug_overlay_def)
qed

text \<open>C34: a profile the validator calls valid can be loaded, with and without the debug overlay; but not
  conversely: a child that overrides a phrase of its parent, as the merge is meant for, is reported
  as a duplicate.\<close>

theorem valid_profiles_load:
  "(validate_profile fs p = Some (Inr v) \<and> vl_valid v \<longrightarrow> (\<exists>m. load_profile fs p dbg = Some (Inr m)))
   \<and> (\<exists>u. validate_profile toy_files [''child.json''] = Some (Inr u) \<and> \<not> vl_valid u
        \<and> vl_errors u = [Duplicate_phrase (JStr ''a'')])
   \<and> (\<exists>m. load_profile toy_files [''child.json''] dbg = Some (Inr m)
        \<and> map_of m ''wakePhrases'' = Some (JArr [JObj [(''phraseId'', JStr ''a''), (''threshold'', JNum (7/10))]]))"
proof (intro conjI impI)
  assume "validate_profile fs p = Some (Inr v) \<and> vl_valid v"
  then show "\<exists>m. load_profile fs p dbg = Some (Inr m)"
    by (auto simp: validate_profile_def load_profile_def open_profile_def invalid_with_def
        split: option.splits sum.splits if_splits)
qed (simp_all add: toy_validations toy_child_loads)

theorem valid_profiles_load_witness:
  "\<exists>m. load_profile toy_files [''base.json''] False = Some (Inr m)"
  using valid_profiles_load [of toy_files "[''base.json'']" "\<lparr>vl_valid = True, vl_warnings = [], vl_errors = []\<rparr>" False]
    toy_validations by simp

end
