(* ===== verification/Engine_Config.thy ===== *)
theory Engine_Config
  imports Orchestrator Profiles Supervisor
begin

text \<open>
  The configuration side of \<^verbatim>\<open>src/runtime/kernel/orchestrator.py\<close>: loading a profile into the engine and
  the phrase registry, the effective configuration it reports, and live updates. The entries of
  \<open>wakePhrases\<close> are decoded to the typed entries the registry parses; an entry with a member of another
  type, which Python would convert or reject, is outside the model.
\<close>

section \<open>The effective configuration\<close>

text \<open>The loop of \<open>flatten\<close> over the members, with the result built so far.\<close>

fun engine_flatten_loop :: "string \<Rightarrow> (string, json) dict \<Rightarrow> (string, json) dict \<Rightarrow> (string, json) dict" where
  "engine_flatten_loop pre res [] = res"
| "engine_flatten_loop pre res ((k, v) # d) =
     (case v of
        JObj e \<Rightarrow> engine_flatten_loop pre (jmerge res (engine_flatten_loop (pre @ k @ ''.'') [] e)) d
      | JArr xs \<Rightarrow> engine_flatten_loop pre res d
      | _ \<Rightarrow> engine_flatten_loop pre (AList.update (pre @ k) v res) d)"

definition engine_flatten :: "string \<Rightarrow> (string, json) dict \<Rightarrow> (string, json) dict" where
  "engine_flatten pre d = engine_flatten_loop pre [] d"

record engine_config =
  ec_active_profile :: "(string, json) dict"
  ec_runtime_params :: "(string, json) dict"

definition new_engine_config :: engine_config where
  "new_engine_config = \<lparr>ec_active_profile = [], ec_runtime_params = []\<rparr>"

definition get_effective_config :: "engine_config \<Rightarrow> (string, json) dict" where
  "get_effective_config c = [(''values'', JObj (engine_flatten [] (ec_active_profile c)))]"

section \<open>Live updates\<close>

text \<open>\<open>_state_machine\<close> is set by the constructor, so the engine always counts as active.\<close>

fun check_all :: "string list \<Rightarrow> py_exc + unit" where
  "check_all [] = Inr ()"
| "check_all (k # ks) = sbind (check_mutability k True) (\<lambda>_. check_all ks)"

definition apply_param :: "string \<times> json \<Rightarrow> (string, json) dict \<Rightarrow> (string, json) dict" where
  "apply_param kv p =
     (if fst kv = ''vad.sileroThreshold'' then AList.update ''vad_threshold'' (snd kv) p
      else if fst kv = ''confidence.defaultThreshold'' then AList.update ''wake_threshold'' (snd kv) p
      else p)"

definition update_config :: "(string, json) dict \<Rightarrow> engine_config \<Rightarrow> (py_exc + unit) \<times> engine_config" where
  "update_config params c =
     (case check_all (map fst params) of
        Inl e \<Rightarrow> (Inl e, c)
      | Inr _ \<Rightarrow> (Inr (), c\<lparr>ec_runtime_params := fold apply_param params (ec_runtime_params c)\<rparr>))"

section \<open>Loading a profile\<close>

text \<open>A member of an entry, if it is there: \<open>None\<close> outside the model, \<open>Some None\<close> when it is missing.\<close>

definition entry_member :: "(json \<Rightarrow> 'a option) \<Rightarrow> (string, json) dict \<Rightarrow> string \<Rightarrow> 'a option option" where
  "entry_member f d k = (case map_of d k of None \<Rightarrow> Some None | Some j \<Rightarrow> map_option Some (f j))"

fun as_str :: "json \<Rightarrow> string option" where
  "as_str (JStr s) = Some s"
| "as_str _ = None"

fun as_num :: "json \<Rightarrow> pyfloat option" where
  "as_num (JNum q) = Some q"
| "as_num _ = None"

fun as_bool :: "json \<Rightarrow> bool option" where
  "as_bool (JBool b) = Some b"
| "as_bool _ = None"

fun as_strs :: "json \<Rightarrow> string list option" where
  "as_strs (JArr xs) = those (map as_str xs)"
| "as_strs _ = None"

definition decode_phrase :: "json \<Rightarrow> phrase_data option" where
  "decode_phrase j =
     (case j of
        JObj d \<Rightarrow>
          (case (entry_member as_str d ''phraseId'', entry_member as_str d ''phrase'', entry_member as_strs d ''variants'',
                 entry_member as_num d ''threshold'', entry_member as_num d ''cooldownMs'', entry_member as_bool d ''enabled'',
                 entry_member as_num d ''weight'') of
             (Some i, Some p, Some vs, Some t, Some c, Some en, Some w) \<Rightarrow>
               Some \<lparr>pd_phraseId = i, pd_phrase = p, pd_variants = vs, pd_threshold = t, pd_cooldownMs = c,
                     pd_enabled = en, pd_weight = w\<rparr>
           | _ \<Rightarrow> None)
      | _ \<Rightarrow> None)"

definition decode_phrases :: "(string, json) dict \<Rightarrow> phrase_data list option" where
  "decode_phrases profile =
     (case jget profile ''wakePhrases'' (JArr []) of
        JArr xs \<Rightarrow> those (map decode_phrase xs)
      | _ \<Rightarrow> None)"

text \<open>The whole of \<open>load_profile\<close>: the profile is stored first; parsing all entries precedes the change of the
  registry and of the index. \<open>None\<close>: a profile outside the model.\<close>

definition engine_load_profile ::
  "files \<Rightarrow> path \<Rightarrow> bool \<Rightarrow> engine_config \<times> phrase_registry \<times> variant_index
     \<Rightarrow> ((py_exc + unit) \<times> engine_config \<times> phrase_registry \<times> variant_index) option" where
  "engine_load_profile fs p dbg s =
     (case load_profile fs p dbg of
        None \<Rightarrow> None
      | Some (Inl e) \<Rightarrow> Some (Inl e, s)
      | Some (Inr profile) \<Rightarrow>
          let c = (fst s)\<lparr>ec_active_profile := profile\<rparr> in
          map_option (\<lambda>ds. case load_phrases ds (snd s) of
              Inl e \<Rightarrow> (Inl e, c, snd s)
            | Inr g \<Rightarrow> (Inr (), c, g)) (decode_phrases profile))"

section \<open>The flattened profile\<close>

lemma update_twice: "AList.update k v (AList.update k w r) = AList.update k v r"
  by (induction r) auto

lemma update_commute:
  "k \<noteq> k' \<Longrightarrow> k \<in> fst ` set r \<Longrightarrow> AList.update k v (AList.update k' w r) = AList.update k' w (AList.update k v r)"
  by (induction r) auto

lemma jmerge_Cons: "jmerge r ((k, v) # b) = jmerge (AList.update k v r) b"
  by (simp add: jmerge_def)

lemma jmerge_update_old:
  "k \<notin> fst ` set b \<Longrightarrow> k \<in> fst ` set r \<Longrightarrow> jmerge (AList.update k v r) b = AList.update k v (jmerge r b)"
proof (induction b arbitrary: r)
  case (Cons kv b)
  obtain k' w where kv: "kv = (k', w)" by fastforce
  have "k \<in> fst ` set (AList.update k' w r)" using Cons.prems(2) by (simp add: dom_update)
  with Cons show ?case by (simp add: kv jmerge_Cons flip: update_commute)
qed simp

lemma jmerge_update: "dict_wf b \<Longrightarrow> jmerge r (AList.update k v b) = AList.update k v (jmerge r b)"
proof (induction b arbitrary: r)
  case Nil
  then show ?case by (simp add: jmerge_Cons)
next
  case (Cons kv b)
  obtain k' w where kv: "kv = (k', w)" by fastforce
  have b: "dict_wf b" "k' \<notin> fst ` set b" using Cons.prems by (auto simp: dict_wf_def kv)
  show ?case
  proof (cases "k' = k")
    case True
    have "k \<in> fst ` set (AList.update k w r)" by (simp add: dom_update)
    from jmerge_update_old [OF _ this, of b v] b(2) True show ?thesis by (simp add: kv jmerge_Cons update_twice)
  next
    case False
    with Cons.IH [OF b(1)] show ?thesis by (simp add: kv jmerge_Cons)
  qed
qed

lemma jmerge_assoc: "dict_wf b \<Longrightarrow> jmerge r (jmerge b c) = jmerge (jmerge r b) c"
proof (induction c arbitrary: b)
  case (Cons kv c)
  obtain k w where kv: "kv = (k, w)" by fastforce
  have "jmerge r (jmerge b (kv # c)) = jmerge (jmerge r (AList.update k w b)) c"
    using Cons.IH [of "AList.update k w b"] Cons.prems by (simp add: kv jmerge_Cons)
  then show ?case using Cons.prems by (simp add: kv jmerge_Cons jmerge_update)
qed simp

lemma map_of_rev_wf: "dict_wf b \<Longrightarrow> map_of (rev b) = map_of b"
proof
  fix k
  assume b: "dict_wf b"
  then have "dict_wf (rev b)" by (simp add: dict_wf_def rev_map [symmetric])
  with b have "map_of (rev b) k = Some v \<longleftrightarrow> map_of b k = Some v" for v by (simp add: map_of_in_set)
  then show "map_of (rev b) k = map_of b k" by (metis not_Some_eq)
qed

lemma jmerge_left_Nil: "dict_wf b \<Longrightarrow> jmerge [] b = b"
proof (induction b rule: rev_induct)
  case (snoc kv b)
  then have "dict_wf b" "fst kv \<notin> fst ` set b" by (auto simp: dict_wf_def)
  with snoc.IH show ?case by (cases kv) (simp add: jmerge_def update_fresh)
qed simp

text \<open>What one member contributes.\<close>

definition flat_member :: "string \<Rightarrow> string \<Rightarrow> json \<Rightarrow> (string, json) dict" where
  "flat_member pre k u =
     (case u of JObj e \<Rightarrow> flatten_json (pre @ k @ ''.'') e | JArr xs \<Rightarrow> [] | _ \<Rightarrow> [(pre @ k, u)])"

lemma dict_wf_single: "dict_wf [kv]"
  by (simp add: dict_wf_def)

lemma flatten_wf: "dict_wf (flatten_json pre d)"
  by (induction pre d rule: flatten_json.induct) (auto split: json.splits intro!: dict_wf_jmerge dict_wf_single)

lemma flat_member_wf: "dict_wf (flat_member pre k u)"
  by (auto simp: flat_member_def flatten_wf dict_wf_single split: json.splits)

lemma flatten_Cons: "flatten_json pre ((k, u) # d) = jmerge (flat_member pre k u) (flatten_json pre d)"
  by (auto simp: flat_member_def jmerge_left_Nil flatten_wf split: json.splits)

declare flatten_json.simps(2) [simp del]

text \<open>The engine's loop and the supervisor's copy of the function give the same dictionary.\<close>

lemma engine_flatten_loop: "engine_flatten_loop pre res d = jmerge res (flatten_json pre d)"
proof (induction pre res d rule: engine_flatten_loop.induct)
  case (2 pre res k u d)
  have "engine_flatten_loop pre res ((k, u) # d) = jmerge (jmerge res (flat_member pre k u)) (flatten_json pre d)"
    using 2 by (cases u) (simp_all add: flat_member_def jmerge_Cons jmerge_left_Nil flatten_wf)
  then show ?case by (simp add: flatten_Cons jmerge_assoc flat_member_wf)
qed simp

lemma engine_flatten_eq: "engine_flatten pre d = flatten_json pre d"
  by (simp add: engine_flatten_def engine_flatten_loop jmerge_left_Nil flatten_wf)

definition leaf :: "json \<Rightarrow> bool" where
  "leaf v \<longleftrightarrow> (\<forall>d. v \<noteq> JObj d) \<and> (\<forall>xs. v \<noteq> JArr xs)"

text \<open>No key of an object, at any depth below objects, has a dot in it.\<close>

fun plain_keys :: "json \<Rightarrow> bool" where
  "plain_keys (JObj d) \<longleftrightarrow> (\<forall>kv\<in>set d. CHR ''.'' \<notin> set (fst kv) \<and> plain_keys (snd kv))"
| "plain_keys _ \<longleftrightarrow> True"

lemma join_head: "CHR ''.'' \<notin> set k \<Longrightarrow> takeWhile (\<lambda>c. c \<noteq> CHR ''.'') (py_join ''.'' (k # ks)) = k"
  by (cases ks) (auto simp: takeWhile_append takeWhile_eq_all_conv)

lemma join_Cons: "ks \<noteq> [] \<Longrightarrow> py_join ''.'' (k # ks) = k @ ''.'' @ py_join ''.'' ks"
  by (cases ks) auto

lemma jpath_leaf: "leaf v \<Longrightarrow> jpath ks v = Some w \<longleftrightarrow> ks = [] \<and> w = v"
  by (cases ks; cases v) (auto simp: leaf_def)

definition path_in :: "string \<Rightarrow> (string, json) dict \<Rightarrow> string \<Rightarrow> json \<Rightarrow> bool" where
  "path_in pre d key v \<longleftrightarrow> (\<exists>ks. ks \<noteq> [] \<and> jpath ks (JObj d) = Some v \<and> leaf v \<and> key = pre @ py_join ''.'' ks)"

lemma path_in_Cons:
  assumes "k \<notin> fst ` set d"
  shows "path_in pre ((k, u) # d) key v \<longleftrightarrow>
     (\<exists>ks. jpath ks u = Some v \<and> leaf v \<and> key = pre @ py_join ''.'' (k # ks)) \<or> path_in pre d key v"
proof -
  have tail: "jpath (k' # ks) (JObj ((k, u) # d)) = (if k' = k then jpath ks u else jpath (k' # ks) (JObj d))" for k' ks
    by simp
  have none: "jpath (k # ks) (JObj d) = None" for ks
  proof -
    have "map_of d k = None" using assms by (simp add: map_of_eq_None_iff)
    then show ?thesis by simp
  qed
  show ?thesis
    unfolding path_in_def
  proof (intro iffI; elim exE disjE conjE)
    fix ks
    assume a: "ks \<noteq> []" "jpath ks (JObj ((k, u) # d)) = Some v" "leaf v" "key = pre @ py_join ''.'' ks"
    then obtain k' ks' where ks: "ks = k' # ks'" by (cases ks) auto
    show "(\<exists>ks. jpath ks u = Some v \<and> leaf v \<and> key = pre @ py_join ''.'' (k # ks))
        \<or> (\<exists>ks. ks \<noteq> [] \<and> jpath ks (JObj d) = Some v \<and> leaf v \<and> key = pre @ py_join ''.'' ks)"
    proof (cases "k' = k")
      case True
      with a show ?thesis unfolding ks tail by (intro disjI1 exI [of _ ks']) simp
    next
      case False
      with a show ?thesis unfolding ks tail by (intro disjI2 exI [of _ "k' # ks'"]) simp
    qed
  next
    fix ks
    assume "jpath ks u = Some v" "leaf v" "key = pre @ py_join ''.'' (k # ks)"
    then show "\<exists>ks. ks \<noteq> [] \<and> jpath ks (JObj ((k, u) # d)) = Some v \<and> leaf v \<and> key = pre @ py_join ''.'' ks"
      by (intro exI [of _ "k # ks"]) simp
  next
    fix ks
    assume a: "ks \<noteq> []" "jpath ks (JObj d) = Some v" "leaf v" "key = pre @ py_join ''.'' ks"
    then obtain k' ks' where ks: "ks = k' # ks'" by (cases ks) auto
    then have "k' \<noteq> k" using a(2) none by auto
    with a ks show "\<exists>ks. ks \<noteq> [] \<and> jpath ks (JObj ((k, u) # d)) = Some v \<and> leaf v \<and> key = pre @ py_join ''.'' ks"
      by (intro exI [of _ ks]) simp
  qed
qed

lemma path_in_head:
  assumes "path_in pre d key v" "plain_keys (JObj d)"
  shows "takeWhile (\<lambda>c. c \<noteq> CHR ''.'') (drop (length pre) key) \<in> fst ` set d"
proof -
  obtain ks where ks: "ks \<noteq> []" "jpath ks (JObj d) = Some v" "key = pre @ py_join ''.'' ks"
    using assms(1) by (auto simp: path_in_def)
  then obtain k ks' where k: "ks = k # ks'" by (cases ks) auto
  with ks(2) have "k \<in> fst ` set d" by (auto split: option.splits dest!: map_of_SomeD intro: rev_image_eqI)
  moreover from this assms(2) have "CHR ''.'' \<notin> set k" by auto
  ultimately show ?thesis using ks(3) k join_head [of k ks'] by simp
qed

lemma flatten_paths:
  "json_wf (JObj d) \<Longrightarrow> plain_keys (JObj d) \<Longrightarrow> map_of (flatten_json pre d) key = Some v \<longleftrightarrow> path_in pre d key v"
proof (induction "size (JObj d)" arbitrary: pre d v rule: less_induct)
  case less
  show ?case
  proof (cases d)
    case Nil
    then show ?thesis by (auto simp: path_in_def neq_Nil_conv)
  next
    case (Cons ku d')
    obtain k u where ku: "ku = (k, u)" by fastforce
    note d = Cons ku
    have fresh: "k \<notin> fst ` set d'" and d': "json_wf (JObj d')" "plain_keys (JObj d')"
      and k: "CHR ''.'' \<notin> set k" and u: "json_wf u" "plain_keys u"
      using less.prems by (auto simp: dict_wf_def d)
    have b: "map_of (flatten_json pre d') key = Some w \<longleftrightarrow> path_in pre d' key w" for w
      using less.hyps [of d' pre w] d' by (simp add: d)
    have m: "map_of (flat_member pre k u) key = Some v \<longleftrightarrow>
        (\<exists>ks. jpath ks u = Some v \<and> leaf v \<and> key = pre @ py_join ''.'' (k # ks))"
    proof (cases "\<exists>e. u = JObj e")
      case True
      then obtain e where e: "u = JObj e" by blast
      have "map_of (flatten_json (pre @ k @ ''.'') e) key = Some v \<longleftrightarrow> path_in (pre @ k @ ''.'') e key v"
        using less.hyps [of e "pre @ k @ ''.''" v] u by (simp add: d e)
      moreover have "path_in (pre @ k @ ''.'') e key v \<longleftrightarrow>
          (\<exists>ks. jpath ks u = Some v \<and> leaf v \<and> key = pre @ py_join ''.'' (k # ks))"
        unfolding path_in_def e
      proof (intro iffI; elim exE conjE)
        fix ks
        assume "jpath ks (JObj e) = Some v" "leaf v" "key = pre @ py_join ''.'' (k # ks)"
        moreover from this have "ks \<noteq> []" by (auto simp: leaf_def)
        ultimately show "\<exists>ks. ks \<noteq> [] \<and> jpath ks (JObj e) = Some v \<and> leaf v \<and> key = (pre @ k @ ''.'') @ py_join ''.'' ks"
          by (intro exI [of _ ks]) (simp add: join_Cons)
      qed (auto simp: join_Cons)
      ultimately show ?thesis by (simp add: flat_member_def e)
    next
      case False
      then have "leaf u \<or> (\<exists>xs. u = JArr xs)" by (auto simp: leaf_def)
      then show ?thesis
      proof
        assume leaf: "leaf u"
        then have "flat_member pre k u = [(pre @ k, u)]" by (auto simp: flat_member_def leaf_def split: json.splits)
        then show ?thesis using leaf by (auto simp: jpath_leaf)
      next
        assume "\<exists>xs. u = JArr xs"
        then obtain xs where xs: "u = JArr xs" by blast
        have "\<not> (jpath ks u = Some v \<and> leaf v)" for ks by (cases ks) (auto simp: xs leaf_def)
        then show ?thesis by (auto simp: flat_member_def xs)
      qed
    qed
    have apart: "\<not> path_in pre d' key w" if "key = pre @ py_join ''.'' (k # ks)" for ks w
      using path_in_head [OF _ d'(2), of pre key w] fresh join_head [OF k, of ks] that by auto
    have flat: "map_of (flatten_json pre d) key = (case map_of (flatten_json pre d') key of
        Some w \<Rightarrow> Some w | None \<Rightarrow> map_of (flat_member pre k u) key)"
      by (simp add: d flatten_Cons map_of_jmerge map_of_rev_wf flatten_wf map_add_def)
    have split: "path_in pre d key v \<longleftrightarrow>
        (\<exists>ks. jpath ks u = Some v \<and> leaf v \<and> key = pre @ py_join ''.'' (k # ks)) \<or> path_in pre d' key v"
      unfolding d by (rule path_in_Cons [OF fresh])
    show ?thesis
    proof (cases "map_of (flatten_json pre d') key")
      case None
      then have "\<not> path_in pre d' key v" using b [of v] by simp
      with None flat m split show ?thesis by simp
    next
      case (Some w)
      then have "path_in pre d' key w" using b [of w] by simp
      then have "key \<noteq> pre @ py_join ''.'' (k # ks)" for ks using apart by blast
      moreover have "path_in pre d' key v \<longleftrightarrow> w = v" using Some b [of v] by simp
      ultimately show ?thesis using Some flat split by simp
    qed
  qed
qed

section \<open>Updates\<close>

lemma check_all_eq:
  "check_all ks = (if set ks \<subseteq> HOT_RELOAD_FIELDS then Inr () else Inl (OtherException ''RestartRequiredError''))"
  by (induction ks) (auto simp: check_mutability_def)

lemma jmerge_is_fold: "fold apply_param params p = jmerge p (concat (map (\<lambda>kv. apply_param kv []) params))"
proof (induction params arbitrary: p)
  case (Cons kv params)
  have "apply_param kv p = jmerge p (apply_param kv [])" by (simp add: apply_param_def jmerge_Cons)
  with Cons show ?case by (simp add: jmerge_def)
qed simp

lemma map_of_applied:
  "map_of (fold apply_param params p) ''vad_threshold'' =
     (case map_of (rev params) ''vad.sileroThreshold'' of None \<Rightarrow> map_of p ''vad_threshold'' | Some v \<Rightarrow> Some v)"
  "map_of (fold apply_param params p) ''wake_threshold'' =
     (case map_of (rev params) ''confidence.defaultThreshold'' of None \<Rightarrow> map_of p ''wake_threshold'' | Some v \<Rightarrow> Some v)"
  by (induction params arbitrary: p) (auto simp: apply_param_def map_add_def split: option.splits)

lemma map_of_unapplied:
  "k \<noteq> ''vad_threshold'' \<Longrightarrow> k \<noteq> ''wake_threshold'' \<Longrightarrow> map_of (fold apply_param params p) k = map_of p k"
  by (induction params arbitrary: p) (auto simp: apply_param_def)

section \<open>Properties\<close>


definition nested_config :: engine_config where
  "nested_config = new_engine_config\<lparr>ec_active_profile :=
     [(''name'', JStr ''a''), (''vad'', JObj [(''mode'', JNum 1), (''bands'', JArr [])])]\<rparr>"


text \<open>A live update is all or nothing: if some field is not reloadable it raises and changes nothing; otherwise
  it sets the two thresholds the update mentions, with the last value for each, and no other
  parameter, whatever else it mentions.\<close>

theorem update_config_exact:
  "update_config params c =
     (if fst ` set params \<subseteq> HOT_RELOAD_FIELDS
      then (Inr (), c\<lparr>ec_runtime_params := fold apply_param params (ec_runtime_params c)\<rparr>)
      else (Inl (OtherException ''RestartRequiredError''), c))
   \<and> map_of (fold apply_param params (ec_runtime_params c)) =
       (map_of (ec_runtime_params c))
         (''vad_threshold'' := (case map_of (rev params) ''vad.sileroThreshold'' of
            None \<Rightarrow> map_of (ec_runtime_params c) ''vad_threshold'' | Some v \<Rightarrow> Some v),
          ''wake_threshold'' := (case map_of (rev params) ''confidence.defaultThreshold'' of
            None \<Rightarrow> map_of (ec_runtime_params c) ''wake_threshold'' | Some v \<Rightarrow> Some v))"
  by (auto simp: update_config_def check_all_eq map_of_applied map_of_unapplied fun_eq_iff)

text \<open>C24: what loading a profile leaves behind, from files that parse to well-formed values: the stored profile is well
  formed; after success the registry is well formed with valid descriptors and the index is its own;
  after an error registry and index are the old ones. But a profile whose entries are rejected has
  already replaced the stored one, so the reported configuration is not the one in force.\<close>

theorem loaded_engine_typed:
  assumes "files_wf fs" "json_wf (JObj (ec_active_profile c))"
    and "engine_load_profile fs p dbg (c, r, ix) = Some (res, c', r', ix')"
  shows "json_wf (JObj (ec_active_profile c'))
     \<and> (res = Inr () \<longrightarrow> pr_wf r' \<and> (\<forall>q\<in>set (pr_get_all r'). pc_valid q) \<and> ix' = rebuild_index r' ix)
     \<and> (\<forall>e. res = Inl e \<longrightarrow> r' = r \<and> ix' = ix)
     \<and> (\<forall>m. load_profile fs p dbg = Some (Inr m) \<longrightarrow> ec_active_profile c' = m)"
proof (cases "load_profile fs p dbg")
  case (Some l)
  show ?thesis
  proof (cases l)
    case (Inl e)
    with assms Some show ?thesis by (auto simp: engine_load_profile_def simp del: json_wf.simps(1))
  next
    case (Inr m)
    have m: "json_wf (JObj m)" using json_wf_load_profile [OF assms(1)] Some Inr by blast
    obtain ds where "decode_phrases m = Some ds" using assms(3) Some Inr by (auto simp: engine_load_profile_def Let_def)
    with assms(3) Some Inr m show ?thesis
      by (auto simp: engine_load_profile_def load_phrases_def Let_def sbind_eq_Inr simp del: json_wf.simps(1)
          split: sum.splits dest: pr_load_wf pr_all_valid)
  qed
qed (use assms in \<open>simp add: engine_load_profile_def\<close>)

lemma toy_base_rejected:
  "engine_load_profile toy_files [''base.json''] False (new_engine_config, new_registry, empty_index)
     = Some (Inl (KeyError ''phrase''), new_engine_config\<lparr>ec_active_profile := toy_base\<rparr>, new_registry, empty_index)"
proof -
  have load: "load_profile toy_files [''base.json''] False = Some (Inr toy_base)"
    by (simp add: load_profile_def toy_profiles dir_name_def toy_chains merge_profiles_def)
  have decode: "decode_phrases toy_base = Some [\<lparr>pd_phraseId = Some ''a'', pd_phrase = None, pd_variants = None,
      pd_threshold = None, pd_cooldownMs = None, pd_enabled = None, pd_weight = None\<rparr>]" (is "_ = Some [?d]")
    by (simp add: decode_phrases_def toy_base_def jget_def decode_phrase_def entry_member_def)
  have "load_phrases [?d] (new_registry, empty_index) = Inl (KeyError ''phrase'')"
    by (simp add: load_phrases_def pr_load_def pc_from_dict_def require_key_def)
  then show ?thesis by (simp add: engine_load_profile_def load decode Let_def)
qed

theorem loaded_engine_typed_witness:
  "\<exists>c' r' ix'. engine_load_profile toy_files [''base.json''] False (new_engine_config, new_registry, empty_index)
       = Some (Inl (KeyError ''phrase''), c', r', ix')
     \<and> r' = new_registry \<and> ix' = empty_index \<and> json_wf (JObj (ec_active_profile c'))"
proof -
  have "files_wf toy_files"
    by (auto simp: files_wf_def toy_files_def toy_base_def toy_child_def dict_wf_def split: if_splits)
  moreover have "json_wf (JObj (ec_active_profile new_engine_config))" by (simp add: new_engine_config_def)
  ultimately show ?thesis
    using loaded_engine_typed [OF _ _ toy_base_rejected] toy_base_rejected by blast
qed

end
