(* ===== verification/Watchdog.thy ===== *)
theory Watchdog
  imports Streamer Recovery_Policy Fault_Classifier
begin

text \<open>
  \<^verbatim>\<open>src/runtime/supervisor/watchdog.py\<close>: the monitor thread that resets the speech stream when the
  worker thread is dead or hangs, the queue overflows or the detector drops too much, with the
  retry policy of \<open>Recovery_Policy\<close> as a brake. The streamer it watches is the model of
  \<open>Streamer\<close>: a recovery really resets that stream. The worker thread's liveness, the clock readings
  and the outcome of \<open>create_stream\<close> are inputs of a pass of the loop.
\<close>

section \<open>State and operations\<close>

record watchdog =
  wd_worker_timeout :: pyfloat
  wd_queue_threshold :: nat
  wd_resets_total :: nat
  wd_resets_by_reason :: "(string, nat) dict"
  wd_recovery_policy :: recovery_policy
  wd_escalated :: bool
  wd_next_allowed_reset :: time_s

definition new_watchdog :: watchdog where
  "new_watchdog = \<lparr>wd_worker_timeout = 4, wd_queue_threshold = 18, wd_resets_total = 0,
     wd_resets_by_reason = [(''worker_dead'', 0), (''worker_hang'', 0), (''queue_overflow'', 0), (''vad_failure'', 0)],
     wd_recovery_policy = new_policy 8 100 8000 4, wd_escalated = False, wd_next_allowed_reset = 0\<rparr>"

text \<open>What \<open>except Exception\<close> catches.\<close>

definition is_exception :: "py_exc \<Rightarrow> bool" where
  "is_exception e \<longleftrightarrow> e \<noteq> SystemExit \<and> e \<noteq> KeyboardInterrupt"

text \<open>The readings of one recovery: the watchdog's clock, the provider's and the worker's clock in the
  stream reset, and the outcome of \<open>create_stream\<close>.\<close>

type_synonym 'o recovery_input = "time_s \<times> time_s \<times> time_s \<times> (py_exc + 'o)"

text \<open>The gates of a recovery, up to the decision to reset.\<close>

definition wd_admit :: "time_s \<Rightarrow> watchdog \<Rightarrow> bool \<times> watchdog" where
  "wd_admit now w =
     (if wd_escalated w then (False, w)
      else if now < wd_next_allowed_reset w then (False, w)
      else
        let (delay_ms, p) = rp_next_backoff (rp_record_failure now (wd_recovery_policy w));
            w = w\<lparr>wd_recovery_policy := p, wd_next_allowed_reset := now + delay_ms / 1000\<rparr>
        in if rp_should_escalate p then (False, w\<lparr>wd_escalated := True\<rparr>) else (True, w))"

definition wd_count_reset :: "string \<Rightarrow> watchdog \<Rightarrow> watchdog" where
  "wd_count_reset reason w =
     w\<lparr>wd_resets_total := wd_resets_total w + 1,
       wd_resets_by_reason := AList.update reason
         (case map_of (wd_resets_by_reason w) reason of Some n \<Rightarrow> n + 1 | None \<Rightarrow> 1) (wd_resets_by_reason w)\<rparr>"

definition wd_recover_stream ::
  "'s vad_models \<Rightarrow> 'o recovery_input \<Rightarrow> string \<Rightarrow> watchdog \<times> ('o, 's) streamer
     \<Rightarrow> (py_exc + unit) \<times> watchdog \<times> ('o, 's) streamer" where
  "wd_recover_stream m i reason ws =
     (let (now, t_reset, t_state, created) = i; (w, s) = ws; (go, w) = wd_admit now w in
      if \<not> go then (Inr (), w, s)
      else
        let w = wd_count_reset reason w;
            (r, s) = st_reset_stream m (reason, t_reset, t_state, created) s
        in case r of
             Inr _ \<Rightarrow> (Inr (),
               (if classify_watchdog_trigger reason \<noteq> CRITICAL
                then w\<lparr>wd_recovery_policy := rp_reset (wd_recovery_policy w), wd_escalated := False\<rparr> else w), s)
           | Inl e \<Rightarrow> (if is_exception e then Inr () else Inl e, w, s))"

definition wd_reset_recovery_state :: "watchdog \<Rightarrow> watchdog" where
  "wd_reset_recovery_state w =
     w\<lparr>wd_recovery_policy := rp_reset (wd_recovery_policy w), wd_escalated := False, wd_next_allowed_reset := 0\<rparr>"

text \<open>The three checks. The worker thread is \<open>None\<close> before it is started, then alive or not.\<close>

definition wd_check_worker ::
  "'s vad_models \<Rightarrow> bool option \<Rightarrow> time_s \<Rightarrow> 'o recovery_input \<Rightarrow> watchdog \<times> ('o, 's) streamer
     \<Rightarrow> (py_exc + unit) \<times> watchdog \<times> ('o, 's) streamer" where
  "wd_check_worker m thread now i ws =
     (let wk = pp_worker (st_pipe (snd ws)) in
      case thread of
        None \<Rightarrow> (Inr (), ws)
      | Some alive \<Rightarrow>
          if \<not> alive then wd_recover_stream m i ''worker_dead'' ws
          else if aw_processing_active wk \<and> wd_worker_timeout (fst ws) < now - aw_heartbeat wk
            then wd_recover_stream m i ''worker_hang'' ws
          else (Inr (), ws))"

definition wd_check_queue ::
  "'s vad_models \<Rightarrow> 'o recovery_input \<Rightarrow> watchdog \<times> ('o, 's) streamer
     \<Rightarrow> (py_exc + unit) \<times> watchdog \<times> ('o, 's) streamer" where
  "wd_check_queue m i ws =
     (if wd_queue_threshold (fst ws) < aq_depth (pp_queue (st_pipe (snd ws)))
      then wd_recover_stream m i ''queue_overflow'' ws else (Inr (), ws))"

definition wd_check_vad ::
  "'s vad_models \<Rightarrow> 'o recovery_input \<Rightarrow> watchdog \<times> ('o, 's) streamer
     \<Rightarrow> (py_exc + unit) \<times> watchdog \<times> ('o, 's) streamer" where
  "wd_check_vad m i ws =
     (let v = pp_vad (st_pipe (snd ws)) in
      if \<not> vd_silero_sess v \<and> 100 < vs_silero_dropped (vd_stats v)
      then wd_recover_stream m i ''vad_failure'' ws else (Inr (), ws))"

text \<open>One pass of the loop: the checks in order, with what \<open>except Exception\<close> swallows; a left result ends
  the thread.\<close>

record 'o watch_pass =
  wp_thread :: "bool option"
  wp_now :: time_s
  wp_worker :: "'o recovery_input"
  wp_queue :: "'o recovery_input"
  wp_vad :: "'o recovery_input"

definition wd_monitor_pass ::
  "'s vad_models \<Rightarrow> 'o watch_pass \<Rightarrow> watchdog \<times> ('o, 's) streamer
     \<Rightarrow> (py_exc + unit) \<times> watchdog \<times> ('o, 's) streamer" where
  "wd_monitor_pass m x ws =
     (let (r, ws) = eseq (wd_check_worker m (wp_thread x) (wp_now x) (wp_worker x) ws) (\<lambda>_ ws.
                    eseq (wd_check_queue m (wp_queue x) ws) (\<lambda>_ ws.
                    wd_check_vad m (wp_vad x) ws))
      in (case r of Inl e \<Rightarrow> if is_exception e then Inr () else Inl e | Inr _ \<Rightarrow> Inr (), ws))"

text \<open>\<open>watchdog_metrics\<close>, less the two averages of the streamer.\<close>

definition watchdog_metrics :: "watchdog \<Rightarrow> nat \<times> (string, nat) dict \<times> nat \<times> bool" where
  "watchdog_metrics w = (wd_resets_total w, wd_resets_by_reason w, rp_retries (wd_recovery_policy w), wd_escalated w)"

section \<open>Invariant\<close>

definition reason_sum :: "(string, nat) dict \<Rightarrow> nat" where
  "reason_sum d = sum_list (map snd d)"

lemma reason_sum_update:
  "reason_sum (AList.update k (case map_of d k of Some n \<Rightarrow> n + 1 | None \<Rightarrow> 1) d) = reason_sum d + 1"
  unfolding reason_sum_def by (induction d) auto

text \<open>The policy is the one the constructor made, with fewer than 8 failures counted and never at its
  ceiling, until the watchdog has escalated with exactly 8.\<close>

definition wd_inv :: "watchdog \<Rightarrow> bool" where
  "wd_inv w \<longleftrightarrow>
     reason_sum (wd_resets_by_reason w) = wd_resets_total w
   \<and> (let p = wd_recovery_policy w in
        rp_max_retries p = 8 \<and> rp_initial_ms p = 100 \<and> rp_max_ms p = 8000 \<and> rp_threshold p = 4
      \<and> (if wd_escalated w then rp_retries p = 8 else rp_retries p < 8 \<and> rp_at_max p = 0))"

lemma wd_inv_new [ava_inv]: "wd_inv new_watchdog"
  by (simp add: wd_inv_def new_watchdog_def reason_sum_def new_policy_def)

lemma pow2_ceiling: "r < 7 \<Longrightarrow> \<not> 8000 \<le> 100 * (2::rat) ^ r"
proof -
  assume "r < 7"
  then have "(2::rat) ^ r \<le> 2 ^ 6" by (intro power_increasing) auto
  then show ?thesis by simp
qed

text \<open>The gate under the invariant: the eighth failure in a row escalates and no earlier one does.\<close>

lemma wd_admit_eq:
  assumes "wd_inv w"
  shows "wd_admit now w =
    (if wd_escalated w \<or> now < wd_next_allowed_reset w then (False, w)
     else (rp_retries (wd_recovery_policy w) < 7,
           w\<lparr>wd_recovery_policy := rpol.attempt now (wd_recovery_policy w),
             wd_next_allowed_reset := now + min (100 * 2 ^ rp_retries (wd_recovery_policy w)) 8000 / 1000,
             wd_escalated := \<not> rp_retries (wd_recovery_policy w) < 7\<rparr>))"
proof (cases "wd_escalated w \<or> now < wd_next_allowed_reset w")
  case False
  let ?p = "wd_recovery_policy w"
  have p: "rp_max_retries ?p = 8" "rp_initial_ms ?p = 100" "rp_max_ms ?p = 8000" "rp_threshold ?p = 4"
    "rp_retries ?p < 8" "rp_at_max ?p = 0"
    using assms False by (auto simp: wd_inv_def Let_def)
  have snd: "snd (rp_next_backoff (rp_record_failure now ?p)) = rpol.attempt now ?p"
    by (simp add: rpol.attempt_def)
  have fst: "fst (rp_next_backoff (rp_record_failure now ?p)) = min (100 * 2 ^ rp_retries ?p) 8000"
    using p by (simp add: rp_attempt_delay rp_delay_at_def)
  have esc: "rp_should_escalate (rpol.attempt now ?p) \<longleftrightarrow> \<not> rp_retries ?p < 7"
    using p pow2_ceiling [of "rp_retries ?p"]
    by (auto simp: rp_should_escalate_def rp_attempt_at_max)
  show ?thesis
    using False by (simp add: wd_admit_def snd fst esc case_prod_unfold Let_def)
qed (auto simp: wd_admit_def)

lemma wd_inv_admit:
  assumes "wd_inv w" "wd_admit now w = (go, w')"
  shows "wd_inv w'" "go \<Longrightarrow> \<not> wd_escalated w' \<and> \<not> wd_escalated w"
    "wd_resets_total w' = wd_resets_total w"
  using assms pow2_ceiling [of "rp_retries (wd_recovery_policy w)"]
  by (auto simp: wd_admit_eq wd_inv_def rp_attempt_at_max Let_def split: if_splits)

lemma wd_inv_count_reset [ava_inv]: "wd_inv w \<Longrightarrow> wd_inv (wd_count_reset r w)"
  by (simp add: wd_inv_def wd_count_reset_def reason_sum_update)

lemma wd_inv_clear:
  "wd_inv w \<Longrightarrow> wd_inv (w\<lparr>wd_recovery_policy := rp_reset (wd_recovery_policy w), wd_escalated := False\<rparr>)"
  "wd_inv w \<Longrightarrow> wd_inv (wd_reset_recovery_state w)"
  by (simp_all add: wd_inv_def rp_reset_def wd_reset_recovery_state_def Let_def)

text \<open>What one recovery does, case by case.\<close>

lemma wd_recover_closed:
  "wd_escalated w \<or> now < wd_next_allowed_reset w \<Longrightarrow>
     wd_recover_stream m (now, tr, ts, created) reason (w, s) = (Inr (), w, s)"
  by (auto simp: wd_recover_stream_def wd_admit_def)

lemma wd_recover_inv:
  assumes "wd_inv w"
  shows "wd_inv (fst (snd (wd_recover_stream m i reason (w, s))))"
proof -
  obtain now tr ts created where i: "i = (now, tr, ts, created)" by (metis prod.exhaust)
  obtain go w' where a: "wd_admit now w = (go, w')" by fastforce
  obtain r s' where r: "st_reset_stream m (reason, tr, ts, created) s = (r, s')" by fastforce
  have "wd_inv w'" using wd_inv_admit(1) [OF assms a] .
  then show ?thesis
    by (simp add: wd_recover_stream_def i a r wd_inv_count_reset wd_inv_clear Let_def split: sum.splits)
qed

lemma wd_recover_generation:
  "st_generation (snd (snd (wd_recover_stream m i reason (w, s)))) + wd_resets_total w =
   st_generation s + wd_resets_total (fst (snd (wd_recover_stream m i reason (w, s))))"
proof -
  obtain now tr ts created where i: "i = (now, tr, ts, created)" by (metis prod.exhaust)
  obtain go w' where a: "wd_admit now w = (go, w')" by fastforce
  then have total: "wd_resets_total w' = wd_resets_total w"
    by (auto simp: wd_admit_def Let_def split: if_splits prod.splits)
  obtain r s' where r: "st_reset_stream m (reason, tr, ts, created) s = (r, s')" by fastforce
  have "st_generation s' = Suc (st_generation s)"
    using st_reset_generation [of m "(reason, tr, ts, created)" s] r by simp
  with total show ?thesis
    by (simp add: wd_recover_stream_def i a r wd_count_reset_def Let_def split: sum.splits)
qed

text \<open>A predicate every recovery preserves is preserved by a pass.\<close>

definition watchdog_reasons :: "string set" where
  "watchdog_reasons = {''worker_dead'', ''worker_hang'', ''queue_overflow'', ''vad_failure''}"

lemma watchdog_reasons_not_critical: "r \<in> watchdog_reasons \<Longrightarrow> classify_watchdog_trigger r \<noteq> CRITICAL"
  by (auto simp: watchdog_reasons_def classify_watchdog_trigger_def)

definition pass_inputs :: "'o watch_pass \<Rightarrow> 'o recovery_input set" where
  "pass_inputs x = {wp_worker x, wp_queue x, wp_vad x}"

lemma wd_pass_preserves:
  assumes rec: "\<And>i reason ws. i \<in> pass_inputs x \<Longrightarrow> reason \<in> watchdog_reasons \<Longrightarrow> P ws \<Longrightarrow> P (snd (wd_recover_stream m i reason ws))"
    and P: "P ws"
  shows "P (snd (wd_monitor_pass m x ws))"
proof -
  have checks: "P ws \<Longrightarrow> P (snd (wd_check_worker m (wp_thread x) (wp_now x) (wp_worker x) ws))"
    "P ws \<Longrightarrow> P (snd (wd_check_queue m (wp_queue x) ws))"
    "P ws \<Longrightarrow> P (snd (wd_check_vad m (wp_vad x) ws))" for ws
    by (auto simp: wd_check_worker_def wd_check_queue_def wd_check_vad_def Let_def pass_inputs_def watchdog_reasons_def
        intro!: rec split: option.splits)
  have eseqP: "(\<And>a ws. P ws \<Longrightarrow> P (snd (f a ws))) \<Longrightarrow> P (snd y) \<Longrightarrow> P (snd (eseq y f))"
    for y :: "(py_exc + unit) \<times> watchdog \<times> ('a, 'b) streamer" and f
    by (auto simp: eseq_def split: prod.splits sum.splits)
  show ?thesis
    by (auto simp: wd_monitor_pass_def case_prod_unfold Let_def intro!: eseqP checks P)
qed

definition wd_run :: "'s vad_models \<Rightarrow> 'o watch_pass list \<Rightarrow> watchdog \<times> ('o, 's) streamer \<Rightarrow> watchdog \<times> ('o, 's) streamer" where
  "wd_run m xs ws = fold (\<lambda>x ws. snd (wd_monitor_pass m x ws)) xs ws"

lemma wd_run_preserves:
  assumes "\<And>x i reason ws. x \<in> set xs \<Longrightarrow> i \<in> pass_inputs x \<Longrightarrow> reason \<in> watchdog_reasons \<Longrightarrow> P ws \<Longrightarrow> P (snd (wd_recover_stream m i reason ws))"
    and "P ws"
  shows "P (wd_run m xs ws)"
  using assms unfolding wd_run_def
proof (induction xs arbitrary: ws)
  case (Cons x xs)
  have "P (snd (wd_monitor_pass m x ws))"
    by (rule wd_pass_preserves) (auto intro: Cons.prems)
  then have "P (fold (\<lambda>x ws. snd (wd_monitor_pass m x ws)) xs (snd (wd_monitor_pass m x ws)))"
    by (intro Cons.IH) (auto intro: Cons.prems)
  then show ?case by simp
qed simp

section \<open>Runs in which every reset fails, or none does\<close>

definition reset_fails :: "'o recovery_input \<Rightarrow> bool" where
  "reset_fails i \<longleftrightarrow> (case i of (now, tr, ts, created) \<Rightarrow> (case created of Inl e \<Rightarrow> is_exception e | Inr _ \<Rightarrow> False))"

definition reset_works :: "'o recovery_input \<Rightarrow> bool" where
  "reset_works i \<longleftrightarrow> (case i of (now, tr, ts, created) \<Rightarrow> (case created of Inl e \<Rightarrow> False | Inr _ \<Rightarrow> True))"

definition failing_inv :: "watchdog \<Rightarrow> bool" where
  "failing_inv w \<longleftrightarrow> wd_inv w \<and> wd_resets_total w = min 7 (rp_retries (wd_recovery_policy w))"

definition working_inv :: "watchdog \<Rightarrow> bool" where
  "working_inv w \<longleftrightarrow> wd_inv w \<and> \<not> wd_escalated w \<and> rp_retries (wd_recovery_policy w) = 0"

lemma new_watchdog_invs: "failing_inv new_watchdog" "working_inv new_watchdog"
  using wd_inv_new by (simp_all add: failing_inv_def working_inv_def new_watchdog_def new_policy_def)

lemma wd_recover_failing:
  assumes "reset_fails i" "failing_inv (fst ws)"
  shows "failing_inv (fst (snd (wd_recover_stream m i reason ws)))"
proof -
  obtain now tr ts e where i: "i = (now, tr, ts, Inl e)"
    using assms(1) by (auto simp: reset_fails_def split: prod.splits sum.splits)
  obtain w s where ws: "ws = (w, s)" by fastforce
  have "wd_inv w" "wd_inv (fst (snd (wd_recover_stream m i reason ws)))"
    using assms(2) by (simp_all add: wd_recover_inv failing_inv_def ws)
  then show ?thesis
    using assms(2)
    by (auto simp: failing_inv_def ws wd_recover_stream_def i wd_admit_eq wd_count_reset_def st_reset_stream_eq
        Let_def split: if_splits)
qed

lemma wd_recover_working:
  assumes "reset_works i" "reason \<in> watchdog_reasons" "working_inv (fst ws)"
  shows "working_inv (fst (snd (wd_recover_stream m i reason ws)))"
proof -
  obtain now tr ts x where i: "i = (now, tr, ts, Inr x)"
    using assms(1) by (auto simp: reset_works_def split: prod.splits sum.splits)
  obtain w s where ws: "ws = (w, s)" by fastforce
  have "wd_inv w" "wd_inv (fst (snd (wd_recover_stream m i reason ws)))"
    using assms(3) by (simp_all add: wd_recover_inv working_inv_def ws)
  then show ?thesis
    using assms(2,3) watchdog_reasons_not_critical
    by (auto simp: working_inv_def ws wd_recover_stream_def i wd_admit_eq wd_count_reset_def st_reset_stream_eq
        rp_reset_def Let_def split: if_splits)
qed

lemma wd_escalated_pass:
  assumes "wd_escalated w"
  shows "wd_monitor_pass m x (w, s) = (Inr (), w, s)"
proof -
  have "wd_recover_stream m i reason (w, s) = (Inr (), w, s)" for i reason
    using assms by (cases i) (simp add: wd_recover_closed)
  then show ?thesis
    by (auto simp: wd_monitor_pass_def wd_check_worker_def wd_check_queue_def wd_check_vad_def Let_def
        split: option.splits)
qed

section \<open>The detector the watchdog looks at\<close>

text \<open>The detectors that can come into being: built, then fed, reset and moved by their lifecycle. A chunk
  that raises leaves the detector as it was.\<close>

inductive vad_lifetime :: "'s vad_models \<Rightarrow> 's vad \<Rightarrow> bool" for m where
  built: "vad_lifetime m (new_vad m session)"
| fed: "vad_lifetime m v \<Longrightarrow> process_chunk m c v = Inr (r, v') \<Longrightarrow> vad_lifetime m v'"
| reset: "vad_lifetime m v \<Longrightarrow> vad_lifetime m (vad_reset_state m v)"
| moved: "vad_lifetime m v \<Longrightarrow> vad_lifetime m (v\<lparr>vd_fsm := l\<rparr>)"

definition no_silero_drops :: "'s vad \<Rightarrow> bool" where
  "no_silero_drops v \<longleftrightarrow> vd_silero_sess v \<or> vs_silero_dropped (vd_stats v) = 0"

lemma no_silero_drops_chunk:
  assumes "process_chunk m c v = Inr (r, v')" "no_silero_drops v"
  shows "no_silero_drops v'"
proof (cases "vd_silero_sess v")
  case False
  with assms show ?thesis
    by (auto simp: process_chunk_def no_silero_drops_def vad_count_defs vad_prefilter_drop_def
        push_noise_def Let_def split: list.splits option.splits if_splits)
next
  case True
  have seg: "vd_silero_sess (snd (silero_segments m b ps u)) = vd_silero_sess u" for b ps u
    using silero_segments_frame [of m b ps u] by simp
  from True have "vd_silero_sess v'"
    using assms(1)
    by (auto simp: seg process_chunk_def vad_count_defs vad_prefilter_drop_def vad_verify_def case_prod_unfold
        push_noise_def vad_reset_state_def Let_def split: list.splits option.splits if_splits)
  then show ?thesis by (simp add: no_silero_drops_def)
qed

lemma vad_lifetime_drops: "vad_lifetime m v \<Longrightarrow> no_silero_drops v"
  by (induction rule: vad_lifetime.induct)
    (auto simp: no_silero_drops_chunk,
     auto simp: no_silero_drops_def new_vad_def vad_reset_state_def Let_def)

section \<open>Properties\<close>

text \<open>A recovery the gates let through resets the stream exactly when fewer than 7 resets in a row have
  failed before, and then forbids another one for 0.1 s doubled per failure, at most 8 s; the next
  one escalates instead, and touches nothing but the policy. When a gate is closed nothing changes.\<close>

theorem watchdog_recovery_exact:
  assumes "wd_inv w" "reason \<in> watchdog_reasons"
  shows "let out = snd (wd_recover_stream m (now, tr, ts, created) reason (w, s));
             k = rp_retries (wd_recovery_policy w); w' = fst out
    in (if wd_escalated w \<or> now < wd_next_allowed_reset w then out = (w, s)
        else
          wd_next_allowed_reset w' = now + min (100 * 2 ^ k) 8000 / 1000
        \<and> (if k < 7
           then snd out = snd (st_reset_stream m (reason, tr, ts, created) s)
              \<and> wd_resets_total w' = wd_resets_total w + 1 \<and> \<not> wd_escalated w'
              \<and> rp_retries (wd_recovery_policy w') = (case created of Inr _ \<Rightarrow> 0 | Inl _ \<Rightarrow> k + 1)
           else snd out = s \<and> wd_escalated w' \<and> wd_resets_total w' = wd_resets_total w))"
  using assms watchdog_reasons_not_critical [of reason]
  by (auto simp: wd_recover_stream_def wd_admit_eq wd_count_reset_def st_reset_stream_eq rp_reset_def Let_def
      split: sum.splits)

theorem watchdog_recovery_exact_witness:
  "let s = \<lparr>st_pipe = toy_pipe, st_audio_fsm = new_subsystem ''Audio'', st_stop = False, st_callback_count = 0\<rparr>;
       out = snd (wd_recover_stream toy_vad_models (10, 10, 10, Inr (0, '''')) ''worker_hang'' (new_watchdog, s))
   in wd_resets_total (fst out) = 1 \<and> wd_next_allowed_reset (fst out) = 101/10"
  using watchdog_recovery_exact [of new_watchdog "''worker_hang''" toy_vad_models 10 10 10 "Inr (0, '''')"
      "\<lparr>st_pipe = toy_pipe, st_audio_fsm = new_subsystem ''Audio'', st_stop = False, st_callback_count = 0\<rparr>"]
  by (simp add: wd_inv_new watchdog_reasons_def) (simp add: new_watchdog_def new_policy_def Let_def)

text \<open>The watchdog's books are exact: after any passes of its loop, whatever the resets did, the resets it
  counted by reason add up to their total, and the stream's generation has advanced by exactly that
  number.\<close>

theorem watchdog_accounts_for_resets:
  fixes s :: "('o, 's) streamer"
  shows "let (w, s') = wd_run m xs (new_watchdog, s) in
     sum_list (map snd (wd_resets_by_reason w)) = wd_resets_total w
   \<and> st_generation s' = st_generation s + wd_resets_total w"
proof -
  have "wd_inv (fst (wd_run m xs (new_watchdog, s)))
     \<and> st_generation (snd (wd_run m xs (new_watchdog, s)))
         = st_generation s + wd_resets_total (fst (wd_run m xs (new_watchdog, s)))"
  proof (rule wd_run_preserves)
    fix i reason and ws :: "watchdog \<times> ('o, 's) streamer"
    assume "wd_inv (fst ws) \<and> st_generation (snd ws) = st_generation s + wd_resets_total (fst ws)"
    then show "wd_inv (fst (snd (wd_recover_stream m i reason ws)))
       \<and> st_generation (snd (snd (wd_recover_stream m i reason ws)))
           = st_generation s + wd_resets_total (fst (snd (wd_recover_stream m i reason ws)))"
      using wd_recover_inv [of "fst ws" m i reason "snd ws"]
        wd_recover_generation [of m i reason "fst ws" "snd ws"] by simp
  next
    show "wd_inv (fst (new_watchdog, s)) \<and>
        st_generation (snd (new_watchdog, s)) = st_generation s + wd_resets_total (fst (new_watchdog, s))"
      using wd_inv_new by (simp add: new_watchdog_def)
  qed
  then show ?thesis by (simp add: wd_inv_def reason_sum_def case_prod_unfold Let_def)
qed

text \<open>C25: when no reset of the stream succeeds, the watchdog resets it at most 7 times and then escalates for
  good: no later pass changes it or the stream. When every reset succeeds it never escalates.\<close>

theorem watchdog_gives_up_exactly:
  fixes s :: "('o, 's) streamer"
  shows "((\<forall>x\<in>set xs. \<forall>i\<in>pass_inputs x. reset_fails i) \<longrightarrow>
      (let (w, s') = wd_run m xs (new_watchdog, s) in
         wd_resets_total w \<le> 7
       \<and> (wd_escalated w \<longrightarrow> wd_resets_total w = 7 \<and> (\<forall>ys. wd_run m ys (w, s') = (w, s')))))
   \<and> ((\<forall>x\<in>set xs. \<forall>i\<in>pass_inputs x. reset_works i) \<longrightarrow>
        \<not> wd_escalated (fst (wd_run m xs (new_watchdog, s))))"
proof (intro conjI impI)
  assume fails: "\<forall>x\<in>set xs. \<forall>i\<in>pass_inputs x. reset_fails i"
  let ?w = "fst (wd_run m xs (new_watchdog, s))"
  have "failing_inv ?w"
    by (rule wd_run_preserves) (use fails in \<open>simp_all add: new_watchdog_invs wd_recover_failing\<close>)
  moreover have "wd_escalated w \<Longrightarrow> wd_run m ys (w, s') = (w, s')" for w s' ys
    by (induction ys) (auto simp: wd_run_def wd_escalated_pass)
  ultimately show "let (w, s') = wd_run m xs (new_watchdog, s) in wd_resets_total w \<le> 7
       \<and> (wd_escalated w \<longrightarrow> wd_resets_total w = 7 \<and> (\<forall>ys. wd_run m ys (w, s') = (w, s')))"
    by (auto simp: failing_inv_def wd_inv_def Let_def split: prod.splits if_splits)
next
  assume works: "\<forall>x\<in>set xs. \<forall>i\<in>pass_inputs x. reset_works i"
  let ?w = "fst (wd_run m xs (new_watchdog, s))"
  have "working_inv ?w"
    by (rule wd_run_preserves) (use works in \<open>simp_all add: new_watchdog_invs wd_recover_working\<close>)
  then show "\<not> wd_escalated ?w" by (simp add: working_inv_def)
qed

definition broken_recognizer :: "(nat \<times> string) recovery_input" where
  "broken_recognizer = (10, 10, 10, Inl (RuntimeError ''onnx''))"

definition dead_worker_pass :: "(nat \<times> string) watch_pass" where
  "dead_worker_pass = \<lparr>wp_thread = Some False, wp_now = 10, wp_worker = broken_recognizer,
     wp_queue = broken_recognizer, wp_vad = broken_recognizer\<rparr>"

theorem watchdog_gives_up_exactly_witness:
  "wd_resets_total (fst (wd_run toy_vad_models (replicate 20 dead_worker_pass)
     (new_watchdog, new_streamer toy_vad_models True 0))) \<le> 7"
  using watchdog_gives_up_exactly [of "replicate 20 dead_worker_pass" toy_vad_models
      "new_streamer toy_vad_models True 0"]
  by (auto simp: dead_worker_pass_def broken_recognizer_def pass_inputs_def reset_fails_def is_exception_def Let_def
      split: prod.splits)

text \<open>The watchdog's fourth check never fires: a detector without the Silero model cannot count a frame
  dropped by Silero, whatever it is fed and however often it is reset, and the check wants both.\<close>

theorem vad_failure_unreachable:
  assumes "vad_lifetime m (pp_vad (st_pipe s))"
  shows "wd_check_vad m i (w, s) = (Inr (), w, s)"
  using vad_lifetime_drops [OF assms] by (auto simp: wd_check_vad_def no_silero_drops_def Let_def)

theorem vad_failure_unreachable_witness:
  "wd_check_vad toy_vad_models broken_recognizer
     (new_watchdog, new_streamer toy_vad_models False 0) = (Inr (), new_watchdog, new_streamer toy_vad_models False 0)"
  by (rule vad_failure_unreachable) (simp add: new_streamer_def vad_lifetime.built)

end
