(* ===== verification/Diagnostics.thy ===== *)
theory Diagnostics
  imports Engine_Config Watchdog
begin

text \<open>
  What the runtime reports about itself: the debug state the streamer and the detector export
  (\<^verbatim>\<open>src/runtime/asr/streaming.py\<close>, \<^verbatim>\<open>src/runtime/vad/pipeline.py\<close>), the diagnostics snapshot
  (\<^verbatim>\<open>src/runtime/telemetry/diagnostics.py\<close>), the crash snapshot (\<^verbatim>\<open>src/runtime/debug/crash_snapshot.py\<close>) and the replay
  capture (\<^verbatim>\<open>src/runtime/telemetry/replay_capture.py\<close>). An attribute a snapshot reads may be missing from the
  object it is given. Reading clocks, memory and the disk are inputs.
\<close>

section \<open>Exported debug state\<close>

fun runtime_value :: "runtime_state \<Rightarrow> string" where
  "runtime_value RT_IDLE = ''IDLE''"
| "runtime_value RT_LISTENING = ''LISTENING''"
| "runtime_value RT_SPEECH_DETECTED = ''SPEECH_DETECTED''"
| "runtime_value RT_CANDIDATE_TRACKING = ''CANDIDATE_TRACKING''"
| "runtime_value RT_WAKE_CONFIRMED = ''WAKE_CONFIRMED''"
| "runtime_value RT_COOLDOWN = ''COOLDOWN''"
| "runtime_value RT_RECOVERING = ''RECOVERING''"
| "runtime_value RT_ERROR = ''ERROR''"

definition jstate :: "subsystem_lifecycle \<Rightarrow> json" where
  "jstate l = JStr (subsystem_value (sl_state l))"

text \<open>\<open>_frame_count\<close> and \<open>_last_speech_pass\<close> have the values of the defaults until the first state reset.\<close>

definition vad_export_debug_state :: "'s vad \<Rightarrow> (string, json) dict" where
  "vad_export_debug_state v =
     [(''fsm_state'', jstate (vd_fsm v)), (''silero_available'', JBool (vd_silero_sess v)),
      (''stats'', JObj
        [(''webrtc_dropped'', JNum (of_nat (vs_webrtc_dropped (vd_stats v)))),
         (''silero_dropped'', JNum (of_nat (vs_silero_dropped (vd_stats v)))),
         (''speech_passed'', JNum (of_nat (vs_speech_passed (vd_stats v)))),
         (''silero_probs'', JArr (map JNum (vs_silero_probs (vd_stats v))))]),
      (''frame_count'', JNum (of_nat (vd_frame_count v))), (''last_speech_pass'', JBool (vd_last_speech_pass v))]"

definition st_export_debug_state :: "('o, 's) streamer \<Rightarrow> (string, json) dict" where
  "st_export_debug_state s =
     (let p = st_pipe s; w = pp_worker p in
      [(''asr_fsm_state'', jstate (pp_asr_fsm p)), (''audio_fsm_state'', jstate (st_audio_fsm s)),
       (''audio_queue_depth'', JNum (of_nat (aq_depth (pp_queue p)))),
       (''generation_id'', JNum (of_nat (sp_generation_id (pp_provider p)))),
       (''correlation_id'', JStr (aw_correlation_id w)), (''last_hypothesis'', JStr (aw_last_hypothesis w)),
       (''stable_frames'', JNum (of_nat (aw_stable_frames w))),
       (''reset_count'', JNum (of_nat (sp_reset_count (pp_provider p)))),
       (''is_speaking'', JBool (aw_is_speaking w)), (''processing_active'', JBool (aw_processing_active w)),
       (''vad_state'', JObj (vad_export_debug_state (pp_vad p)))])"

section \<open>Snapshots\<close>

text \<open>The object a snapshot is given: the attributes of the wake engine, and those it may have besides.\<close>

record ('o, 's) engine_object =
  eo_engine :: "('o, 's) engine"
  eo_runtime_params :: "(string, json) dict"
  eo_matcher_fsm :: "subsystem_lifecycle option"
  eo_transport_fsm :: "subsystem_lifecycle option"
  eo_metrics :: "(string, json) dict option"
  eo_candidate_scores :: "json list option"

text \<open>What the constructor of \<open>WakeEngine\<close> creates.\<close>

definition wake_engine_object :: "(string, json) dict \<Rightarrow> ('o, 's) engine \<Rightarrow> ('o, 's) engine_object" where
  "wake_engine_object params e =
     \<lparr>eo_engine = e, eo_runtime_params = params, eo_matcher_fsm = None, eo_transport_fsm = None,
      eo_metrics = None, eo_candidate_scores = None\<rparr>"

definition get_runtime_snapshot :: "time_s \<Rightarrow> time_s \<Rightarrow> ('o, 's) engine_object \<Rightarrow> py_exc + (string, json) dict" where
  "get_runtime_snapshot now start_time obj =
     (case eo_matcher_fsm obj of
        None \<Rightarrow> Inl (OtherException ''AttributeError: _matcher_fsm'')
      | Some mf \<Rightarrow>
          (case eo_transport_fsm obj of
             None \<Rightarrow> Inl (OtherException ''AttributeError: _transport_fsm'')
           | Some tf \<Rightarrow>
               let s = we_streamer (eo_engine obj);
                   metrics = (case eo_metrics obj of Some m \<Rightarrow> m | None \<Rightarrow> [])
               in Inr
                 [(''uptime_seconds'', JNum (now - start_time)),
                  (''current_state'', JStr (runtime_value (we_state_machine (eo_engine obj)))),
                  (''subsystem_states'', JObj
                    [(''Matcher'', jstate mf), (''Transport'', jstate tf), (''ASR'', jstate (pp_asr_fsm (st_pipe s))),
                     (''Audio'', jstate (st_audio_fsm s)), (''VAD'', jstate (vd_fsm (pp_vad (st_pipe s))))]),
                  (''metrics'', JObj metrics),
                  (''active_profile'', jget (eo_runtime_params obj) ''profile_path'' (JStr [])),
                  (''queue_status'', jget metrics ''queue_depth'' (JNum 0))]))"

text \<open>The collectors of the crash snapshot: each swallows what its source raises.\<close>

definition crash_fsm_states :: "('o, 's) engine_object \<Rightarrow> (string, json) dict" where
  "crash_fsm_states obj =
     (case eo_matcher_fsm obj of
        None \<Rightarrow> []
      | Some mf \<Rightarrow>
          (''Matcher'', jstate mf) # (case eo_transport_fsm obj of None \<Rightarrow> [] | Some tf \<Rightarrow> [(''Transport'', jstate tf)]))"

definition crash_ema_state :: "('o, 's) engine \<Rightarrow> (string, json) dict" where
  "crash_ema_state e =
     [(''smooth_conf'', JNum (we_smooth_conf e)), (''hit_count'', JNum (of_nat (we_hit_count e))),
      (''last_matched_phrase'', JStr (we_last_matched_phrase e))]"

definition crash_watchdog_metrics :: "pyfloat \<Rightarrow> pyfloat \<Rightarrow> watchdog \<Rightarrow> (string, json) dict" where
  "crash_watchdog_metrics avg_idle avg_processing w =
     (let (total, by_reason, retries, escalated) = watchdog_metrics w in
      [(''resets_total'', JNum (of_nat total)),
       (''resets_by_reason'', JObj (map (\<lambda>(k, n). (k, JNum (of_nat n))) by_reason)),
       (''avg_worker_idle_ms'', JNum avg_idle), (''avg_worker_processing_ms'', JNum avg_processing),
       (''recovery_retries'', JNum (of_nat retries)), (''recovery_escalated'', JBool escalated)])"

record crash_input =
  ci_now_ns :: time_s
  ci_uptime :: time_s
  ci_session_id :: string
  ci_memory_mb :: "pyfloat option"
  ci_avg_idle :: pyfloat
  ci_avg_processing :: pyfloat

definition capture_crash :: "crash_input \<Rightarrow> string \<Rightarrow> watchdog \<Rightarrow> ('o, 's) engine_object \<Rightarrow> (string, json) dict" where
  "capture_crash i reason w obj =
     [(''schema_version'', JNum 1), (''capture_timestamp_ns'', JNum (ci_now_ns i)), (''uptime_s'', JNum (ci_uptime i)),
      (''reason'', JStr reason), (''session_id'', JStr (ci_session_id i)),
      (''streamer_state'', JObj (st_export_debug_state (we_streamer (eo_engine obj)))),
      (''ema_state'', JObj (crash_ema_state (eo_engine obj))),
      (''last_matcher_scores'', JArr (last_n 10 (case eo_candidate_scores obj of Some xs \<Rightarrow> xs | None \<Rightarrow> []))),
      (''subsystem_fsm_states'', JObj (crash_fsm_states obj)),
      (''metrics'', JObj (case eo_metrics obj of Some m \<Rightarrow> m | None \<Rightarrow> [])),
      (''memory_mb'', case ci_memory_mb i of Some q \<Rightarrow> JNum q | None \<Rightarrow> JNull),
      (''watchdog_metrics'', JObj (crash_watchdog_metrics (ci_avg_idle i) (ci_avg_processing i) w))]"

text \<open>\<open>_write\<close>: the file name, and whether the file was written; a failure is swallowed.\<close>

definition crash_write :: "(string \<Rightarrow> py_exc + unit) \<Rightarrow> string \<Rightarrow> string \<Rightarrow> string \<Rightarrow> string \<times> bool" where
  "crash_write save output_dir ts_text reason =
     (let filename = output_dir @ ''/crash_'' @ ts_text @ ''_'' @ take 32 reason @ ''.json''
      in (filename, case save filename of Inr _ \<Rightarrow> True | Inl _ \<Rightarrow> False))"

section \<open>Replay capture\<close>

record replay_session =
  rs_start_ns :: time_s
  rs_hypotheses :: "json list"
  rs_matcher_outputs :: "json list"
  rs_transitions :: "json list"
  rs_end_ns :: "time_s option"

record replay_capture =
  rc_max_events :: nat
  rc_sessions :: "(string, replay_session) dict"

definition new_replay_capture :: "nat \<Rightarrow> replay_capture" where
  "new_replay_capture max_events = \<lparr>rc_max_events = max_events, rc_sessions = []\<rparr>"

definition rc_start_capture :: "time_s \<Rightarrow> string \<Rightarrow> replay_capture \<Rightarrow> replay_capture" where
  "rc_start_capture now cid c =
     c\<lparr>rc_sessions := AList.update cid \<lparr>rs_start_ns = now, rs_hypotheses = [], rs_matcher_outputs = [],
         rs_transitions = [], rs_end_ns = None\<rparr> (rc_sessions c)\<rparr>"

text \<open>A record for an id without a session is dropped.\<close>

definition rc_record :: "string \<Rightarrow> (replay_session \<Rightarrow> replay_session) \<Rightarrow> replay_capture \<Rightarrow> replay_capture" where
  "rc_record cid f c =
     (case map_of (rc_sessions c) cid of
        None \<Rightarrow> c
      | Some s \<Rightarrow> c\<lparr>rc_sessions := AList.update cid (f s) (rc_sessions c)\<rparr>)"

definition rc_push_hypothesis :: "string \<Rightarrow> json \<Rightarrow> replay_capture \<Rightarrow> replay_capture" where
  "rc_push_hypothesis cid j c =
     rc_record cid (\<lambda>s. s\<lparr>rs_hypotheses := last_n (rc_max_events c) (rs_hypotheses s @ [j])\<rparr>) c"

definition hypothesis_entry :: "time_s \<Rightarrow> string \<Rightarrow> nat \<Rightarrow> json" where
  "hypothesis_entry now txt stability =
     JObj [(''timestamp_ns'', JNum now), (''text'', JStr txt), (''stability'', JNum (of_nat stability))]"

definition rc_record_hypothesis :: "time_s \<Rightarrow> string \<Rightarrow> string \<Rightarrow> nat \<Rightarrow> replay_capture \<Rightarrow> replay_capture" where
  "rc_record_hypothesis now cid txt stability c =
     rc_push_hypothesis cid (hypothesis_entry now txt stability) c"

definition rc_record_matcher_output :: "time_s \<Rightarrow> string \<Rightarrow> string \<Rightarrow> pyfloat \<Rightarrow> replay_capture \<Rightarrow> replay_capture" where
  "rc_record_matcher_output now cid phrase confidence c =
     rc_record cid (\<lambda>s. s\<lparr>rs_matcher_outputs := last_n (rc_max_events c) (rs_matcher_outputs s @
       [JObj [(''timestamp_ns'', JNum now), (''phrase'', JStr phrase), (''confidence'', JNum confidence)]])\<rparr>) c"

definition rc_record_transition :: "time_s \<Rightarrow> string \<Rightarrow> string \<Rightarrow> string \<Rightarrow> replay_capture \<Rightarrow> replay_capture" where
  "rc_record_transition now cid from_state to_state c =
     rc_record cid (\<lambda>s. s\<lparr>rs_transitions := last_n (rc_max_events c) (rs_transitions s @
       [JObj [(''timestamp_ns'', JNum now), (''from'', JStr from_state), (''to'', JStr to_state)]])\<rparr>) c"

text \<open>What \<open>flush\<close> writes, if it can open the file; the session stays, with its end.\<close>

definition rc_export :: "string \<Rightarrow> time_s \<Rightarrow> replay_session \<Rightarrow> (string, json) dict" where
  "rc_export cid now s =
     [(''correlation_id'', JStr cid), (''start_timestamp_ns'', JNum (rs_start_ns s)), (''end_timestamp_ns'', JNum now),
      (''hypotheses'', JArr (rs_hypotheses s)), (''matcher_outputs'', JArr (rs_matcher_outputs s)),
      (''state_transitions'', JArr (rs_transitions s))]"

definition rc_flush ::
  "time_s \<Rightarrow> py_exc + unit \<Rightarrow> string \<Rightarrow> replay_capture \<Rightarrow> (py_exc + (string, json) dict option) \<times> replay_capture" where
  "rc_flush now opened cid c =
     (case map_of (rc_sessions c) cid of
        None \<Rightarrow> (Inr None, c)
      | Some s \<Rightarrow>
          (case opened of Inl e \<Rightarrow> Inl e | Inr _ \<Rightarrow> Inr (Some (rc_export cid now s)),
           rc_record cid (\<lambda>s. s\<lparr>rs_end_ns := Some now\<rparr>) c))"

text \<open>\<open>shutdown\<close> flushes the sessions in order and stops at the first that cannot be written.\<close>

fun rc_flush_all ::
  "time_s \<Rightarrow> (string \<Rightarrow> py_exc + unit) \<Rightarrow> string list \<Rightarrow> replay_capture
     \<Rightarrow> (py_exc + (string, json) dict list) \<times> replay_capture" where
  "rc_flush_all now opened [] c = (Inr [], c)"
| "rc_flush_all now opened (cid # cids) c =
     eseq (rc_flush now (opened cid) cid c) (\<lambda>w c.
     eseq (rc_flush_all now opened cids c) (\<lambda>ws c.
       (Inr ((case w of None \<Rightarrow> [] | Some d \<Rightarrow> [d]) @ ws), c)))"

definition rc_shutdown ::
  "time_s \<Rightarrow> (string \<Rightarrow> py_exc + unit) \<Rightarrow> replay_capture \<Rightarrow> (py_exc + (string, json) dict list) \<times> replay_capture" where
  "rc_shutdown now opened c = rc_flush_all now opened (map fst (rc_sessions c)) c"

section \<open>What a capture keeps\<close>

definition hypotheses_of :: "string \<Rightarrow> replay_capture \<Rightarrow> json list" where
  "hypotheses_of cid c = (case map_of (rc_sessions c) cid of Some s \<Rightarrow> rs_hypotheses s | None \<Rightarrow> [])"

text \<open>A capture with the default bound and an open session.\<close>

definition capturing :: "string \<Rightarrow> replay_capture \<Rightarrow> bool" where
  "capturing cid c \<longleftrightarrow> rc_max_events c = 10000 \<and> map_of (rc_sessions c) cid \<noteq> None \<and> length (hypotheses_of cid c) \<le> 10000"

lemma rc_record_frame [simp]: "rc_max_events (rc_record cid f c) = rc_max_events c"
  by (simp add: rc_record_def split: option.splits)

lemma rc_record_get:
  "map_of (rc_sessions (rc_record cid f c)) k =
     (if k = cid then map_option f (map_of (rc_sessions c) cid) else map_of (rc_sessions c) k)"
  by (auto simp: rc_record_def split: option.splits)

interpretation replay_log: bounded_log "rc_push_hypothesis cid" "hypotheses_of cid" 10000 "capturing cid" for cid
proof unfold_locales
  fix j c
  assume c: "capturing cid c"
  then show "hypotheses_of cid (rc_push_hypothesis cid j c) = last_n 10000 (hypotheses_of cid c @ [j])"
    by (auto simp: capturing_def hypotheses_of_def rc_push_hypothesis_def rc_record_get)
  with c show "capturing cid (rc_push_hypothesis cid j c)"
    by (auto simp: capturing_def rc_push_hypothesis_def rc_record_get)
qed (simp_all add: capturing_def)

lemma push_hypotheses_rest:
  "map_of (rc_sessions (fold (rc_push_hypothesis cid) js c)) cid =
     map_option (\<lambda>s. s\<lparr>rs_hypotheses := hypotheses_of cid (fold (rc_push_hypothesis cid) js c)\<rparr>) (map_of (rc_sessions c) cid)"
proof (induction js arbitrary: c)
  case Nil
  then show ?case by (cases "map_of (rc_sessions c) cid") (simp_all add: hypotheses_of_def)
next
  case (Cons j js)
  show ?case
    unfolding fold_Cons comp_apply Cons.IH
    by (simp add: rc_push_hypothesis_def rc_record_get option.map_comp comp_def)
qed

lemma fold_record_hypotheses:
  "fold (\<lambda>(t, x, n). rc_record_hypothesis t cid x n) hs c =
     fold (rc_push_hypothesis cid) (map (\<lambda>(t, x, n). hypothesis_entry t x n) hs) c"
  by (induction hs arbitrary: c) (auto simp: rc_record_hypothesis_def)

lemma rc_record_keys: "map fst (rc_sessions (rc_record cid f c)) = map fst (rc_sessions c)"
proof -
  have "map fst (AList.update k v' d) = map fst d" if "map_of d k = Some v" for k v v' and d :: "(string, replay_session) dict"
    using that by (induction d) auto
  then show ?thesis by (auto simp: rc_record_def split: option.splits)
qed

lemma flush_all_writes:
  "distinct cids \<Longrightarrow> \<forall>cid\<in>set cids. map_of (rc_sessions c) cid \<noteq> None \<Longrightarrow>
     fst (rc_flush_all now (\<lambda>_. Inr ()) cids c) = Inr (map (\<lambda>cid. rc_export cid now (the (map_of (rc_sessions c) cid))) cids)
     \<and> map fst (rc_sessions (snd (rc_flush_all now (\<lambda>_. Inr ()) cids c))) = map fst (rc_sessions c)"
proof (induction cids arbitrary: c)
  case (Cons cid cids)
  obtain s where s: "map_of (rc_sessions c) cid = Some s" using Cons.prems(2) by auto
  let ?c = "rc_record cid (\<lambda>s. s\<lparr>rs_end_ns := Some now\<rparr>) c"
  have same: "rc_export cid' now (the (map_of (rc_sessions ?c) cid')) = rc_export cid' now (the (map_of (rc_sessions c) cid'))"
    if "cid' \<in> set cids" for cid'
    using Cons.prems(1) that by (auto simp: rc_record_get)
  have IH: "fst (rc_flush_all now (\<lambda>_. Inr ()) cids ?c)
        = Inr (map (\<lambda>cid. rc_export cid now (the (map_of (rc_sessions ?c) cid))) cids)"
    "map fst (rc_sessions (snd (rc_flush_all now (\<lambda>_. Inr ()) cids ?c))) = map fst (rc_sessions ?c)"
    using Cons.IH [of ?c] Cons.prems by (auto simp: rc_record_get)
  obtain r c' where run: "rc_flush_all now (\<lambda>_. Inr ()) cids ?c = (r, c')" by fastforce
  have first: "rc_flush now (Inr ()) cid c = (Inr (Some (rc_export cid now s)), ?c)" by (simp add: rc_flush_def s)
  show ?case
    using IH run same by (simp add: first s rc_record_keys)
qed simp

section \<open>Properties\<close>

text \<open>The diagnostics snapshot of the real engine is never available: it reads two lifecycle machines the wake
  engine does not have. The crash snapshot survives that, with no subsystem states, no metrics and no
  scores in it, but with the state the streamer exports.\<close>

theorem runtime_snapshot_unavailable:
  "get_runtime_snapshot now t (wake_engine_object params e) = Inl (OtherException ''AttributeError: _matcher_fsm'')
   \<and> jget (capture_crash i reason w (wake_engine_object params e)) ''subsystem_fsm_states'' JNull = JObj []
   \<and> jget (capture_crash i reason w (wake_engine_object params e)) ''metrics'' JNull = JObj []
   \<and> jget (capture_crash i reason w (wake_engine_object params e)) ''last_matcher_scores'' JNull = JArr []
   \<and> jget (capture_crash i reason w (wake_engine_object params e)) ''streamer_state'' JNull
       = JObj (st_export_debug_state (we_streamer e))"
  by (simp add: get_runtime_snapshot_def wake_engine_object_def capture_crash_def crash_fsm_states_def jget_def last_n_def)

text \<open>A replay file holds the last 10000 hypotheses recorded since the capture was started, in order; and shutting
  down writes every session once more, also those flushed before, since no session is ever removed.\<close>

theorem replay_capture_exact:
  assumes "rc_max_events c = 10000" "dict_wf (rc_sessions c)"
  shows "fst (rc_flush now (Inr ()) cid
            (fold (\<lambda>(t, x, n). rc_record_hypothesis t cid x n) hs (rc_start_capture t0 cid c)))
          = Inr (Some (rc_export cid now
              \<lparr>rs_start_ns = t0, rs_hypotheses = last_n 10000 (map (\<lambda>(t, x, n). hypothesis_entry t x n) hs),
               rs_matcher_outputs = [], rs_transitions = [], rs_end_ns = None\<rparr>))
     \<and> map fst (rc_sessions (snd (rc_flush now r cid c))) = map fst (rc_sessions c)
     \<and> fst (rc_shutdown now (\<lambda>_. Inr ()) c) = Inr (map (\<lambda>(k, s). rc_export k now s) (rc_sessions c))"
proof (intro conjI)
  let ?c = "rc_start_capture t0 cid c" and ?js = "map (\<lambda>(t, x, n). hypothesis_entry t x n) hs"
  have start: "capturing cid ?c" "hypotheses_of cid ?c = []"
    using assms(1) by (simp_all add: capturing_def hypotheses_of_def rc_start_capture_def)
  have "hypotheses_of cid (fold (rc_push_hypothesis cid) ?js ?c) = last_n 10000 ?js"
    using replay_log.fold_contents [OF start(1), of ?js] start(2) by simp
  with push_hypotheses_rest [of cid ?js ?c]
  show "fst (rc_flush now (Inr ()) cid (fold (\<lambda>(t, x, n). rc_record_hypothesis t cid x n) hs ?c))
          = Inr (Some (rc_export cid now
              \<lparr>rs_start_ns = t0, rs_hypotheses = last_n 10000 ?js,
               rs_matcher_outputs = [], rs_transitions = [], rs_end_ns = None\<rparr>))"
    unfolding fold_record_hypotheses by (simp add: rc_flush_def rc_start_capture_def)
next
  show "map fst (rc_sessions (snd (rc_flush now r cid c))) = map fst (rc_sessions c)"
    by (auto simp: rc_flush_def rc_record_keys split: option.splits)
next
  have "map_of (rc_sessions c) k = Some s" if "(k, s) \<in> set (rc_sessions c)" for k s
    using that assms(2) by (simp add: map_of_in_set)
  then have "map (\<lambda>cid. rc_export cid now (the (map_of (rc_sessions c) cid))) (map fst (rc_sessions c))
      = map (\<lambda>(k, s). rc_export k now s) (rc_sessions c)" by auto
  moreover have "\<forall>cid\<in>set (map fst (rc_sessions c)). map_of (rc_sessions c) cid \<noteq> None"
    by (auto simp: map_of_eq_None_iff image_iff)
  ultimately show "fst (rc_shutdown now (\<lambda>_. Inr ()) c) = Inr (map (\<lambda>(k, s). rc_export k now s) (rc_sessions c))"
    using flush_all_writes [of "map fst (rc_sessions c)" c now] assms(2) by (simp add: rc_shutdown_def dict_wf_def)
qed

end
