(* ===== verification/Runtime_Logging.thy ===== *)
theory Runtime_Logging
  imports Json_Value Ava_Contracts
begin

text \<open>
  Logging: the levels, handlers and debug flags of \<^verbatim>\<open>src/runtime/telemetry/logging.py\<close> and the context,
  formatter and sinks of \<^verbatim>\<open>src/runtime/logging/\<close>. The loggers of Python's \<open>logging\<close> module are a table
  by name, each with its level, its handlers and whether \<open>trace\<close> has been attached to it. What a
  formatter gives is a value, or the message itself, before it is written as text.
\<close>

section \<open>The logger table\<close>

datatype handler = Stream_handler | File_handler

datatype log_format = Pretty | Json_lines

record py_logger =
  lg_level :: nat
  lg_handlers :: "handler list"
  lg_trace :: bool

definition LOG_CRITICAL :: nat where "LOG_CRITICAL = 50"
definition LOG_ERROR :: nat where "LOG_ERROR = 40"
definition LOG_WARNING :: nat where "LOG_WARNING = 30"
definition LOG_INFO :: nat where "LOG_INFO = 20"
definition LOG_DEBUG :: nat where "LOG_DEBUG = 10"
definition TRACE :: nat where "TRACE = 5"

lemmas log_levels = LOG_CRITICAL_def LOG_ERROR_def LOG_WARNING_def LOG_INFO_def LOG_DEBUG_def TRACE_def

definition LEVEL_MAP :: "(string, nat) dict" where
  "LEVEL_MAP = [(''silent'', LOG_CRITICAL + 10), (''error'', LOG_ERROR), (''warn'', LOG_WARNING),
     (''warning'', LOG_WARNING), (''info'', LOG_INFO), (''debug'', LOG_DEBUG), (''trace'', TRACE)]"

record debug_flags =
  DEBUG_VAD :: bool
  DEBUG_ONNX :: bool
  DEBUG_SHERPA :: bool
  DEBUG_WAKE :: bool
  DEBUG_TRANSPORT :: bool
  DEBUG_TELEMETRY :: bool
  DEBUG_TRANSCRIPTS :: bool
  DEBUG_TRANSCRIPT_PARTIAL :: bool
  DEBUG_TRANSCRIPT_FINAL :: bool

definition all_flags :: "bool \<Rightarrow> debug_flags" where
  "all_flags b = \<lparr>DEBUG_VAD = b, DEBUG_ONNX = b, DEBUG_SHERPA = b, DEBUG_WAKE = b, DEBUG_TRANSPORT = b,
     DEBUG_TELEMETRY = b, DEBUG_TRANSCRIPTS = b, DEBUG_TRANSCRIPT_PARTIAL = b, DEBUG_TRANSCRIPT_FINAL = b\<rparr>"

record log_state =
  ls_table :: "(string, py_logger) dict"
  ls_loggers :: "string list"
  ls_root_level :: nat
  ls_flags :: debug_flags
  ls_stream_format :: log_format
  ls_file_format :: "log_format option"

definition new_log_state :: log_state where
  "new_log_state = \<lparr>ls_table = [], ls_loggers = [], ls_root_level = LOG_INFO, ls_flags = all_flags False,
     ls_stream_format = Pretty, ls_file_format = None\<rparr>"

text \<open>\<open>logging.getLogger\<close> creates an unknown logger without a level of its own and without handlers.\<close>

definition logger_of :: "string \<Rightarrow> log_state \<Rightarrow> py_logger" where
  "logger_of name s =
     (case map_of (ls_table s) name of
        Some l \<Rightarrow> l | None \<Rightarrow> \<lparr>lg_level = 0, lg_handlers = [], lg_trace = False\<rparr>)"

definition put_logger :: "string \<Rightarrow> py_logger \<Rightarrow> log_state \<Rightarrow> log_state" where
  "put_logger name l s = s\<lparr>ls_table := AList.update name l (ls_table s)\<rparr>"

definition set_level :: "nat \<Rightarrow> string \<Rightarrow> log_state \<Rightarrow> log_state" where
  "set_level level name s = put_logger name ((logger_of name s)\<lparr>lg_level := level\<rparr>) s"

section \<open>Operations\<close>

definition get_logger :: "string \<Rightarrow> log_state \<Rightarrow> log_state" where
  "get_logger name s =
     (let l = logger_of name s;
          fresh = (lg_handlers l = []);
          l = (if fresh then l\<lparr>lg_handlers := [Stream_handler], lg_level := ls_root_level s\<rparr> else l)
      in (put_logger name (l\<lparr>lg_trace := True\<rparr>) s)
           \<lparr>ls_loggers := (if fresh then ls_loggers s @ [name] else ls_loggers s)\<rparr>)"

definition set_log_level :: "string \<Rightarrow> log_state \<Rightarrow> log_state" where
  "set_log_level level_name s =
     (let level = (case map_of LEVEL_MAP (py_lower level_name) of Some n \<Rightarrow> n | None \<Rightarrow> LOG_INFO)
      in fold (set_level level) (ls_loggers s) (s\<lparr>ls_root_level := level\<rparr>))"

definition set_log_format :: "string \<Rightarrow> log_state \<Rightarrow> log_state" where
  "set_log_format fmt s =
     (let f = (if fmt = ''json'' then Json_lines else Pretty)
      in s\<lparr>ls_stream_format := f, ls_file_format := map_option (\<lambda>_. f) (ls_file_format s)\<rparr>)"

definition add_handler :: "handler \<Rightarrow> string \<Rightarrow> log_state \<Rightarrow> log_state" where
  "add_handler h name s =
     (let l = logger_of name s
      in put_logger name (if h \<in> set (lg_handlers l) then l else l\<lparr>lg_handlers := lg_handlers l @ [h]\<rparr>) s)"

text \<open>The directory and the file may not be creatable.\<close>

definition enable_file_logging :: "py_exc + unit \<Rightarrow> log_state \<Rightarrow> (py_exc + unit) \<times> log_state" where
  "enable_file_logging opened s =
     (case ls_file_format s of
        Some _ \<Rightarrow> (Inr (), s)
      | None \<Rightarrow>
          (case opened of
             Inl e \<Rightarrow> (Inl e, s)
           | Inr _ \<Rightarrow> (Inr (), fold (add_handler File_handler) (ls_loggers s)
                                 (s\<lparr>ls_file_format := Some (ls_stream_format s)\<rparr>))))"

definition enable_trace :: "log_state \<Rightarrow> log_state" where
  "enable_trace s = (set_log_level ''trace'' s)\<lparr>ls_flags := all_flags True\<rparr>"

definition disable_trace :: "log_state \<Rightarrow> log_state" where
  "disable_trace s = (set_log_level ''info'' s)\<lparr>ls_flags := all_flags False\<rparr>"

definition subsystem_flags :: "bool \<Rightarrow> string \<Rightarrow> debug_flags \<Rightarrow> debug_flags" where
  "subsystem_flags b subsystem f =
     (if subsystem = ''vad'' then f\<lparr>DEBUG_VAD := b\<rparr>
      else if subsystem = ''asr''
        then f\<lparr>DEBUG_SHERPA := b, DEBUG_TRANSCRIPT_FINAL := b, DEBUG_TRANSCRIPT_PARTIAL := b\<rparr>
      else if subsystem = ''matcher'' then f\<lparr>DEBUG_WAKE := b\<rparr>
      else if subsystem = ''pipeline''
        then f\<lparr>DEBUG_VAD := b, DEBUG_WAKE := b, DEBUG_TRANSCRIPT_FINAL := b, DEBUG_TRANSCRIPT_PARTIAL := b\<rparr>
      else f)"

definition subsystem_loggers :: "string \<Rightarrow> string list" where
  "subsystem_loggers subsystem =
     (if subsystem = ''vad'' then [''vad'']
      else if subsystem = ''asr'' then [''sherpa_stream'']
      else if subsystem = ''matcher'' then [''engine'']
      else if subsystem = ''pipeline'' then [''vad'', ''sherpa_stream'', ''engine'']
      else [])"

definition enable_subsystem_debug :: "string \<Rightarrow> log_state \<Rightarrow> log_state" where
  "enable_subsystem_debug subsystem s =
     fold (set_level LOG_DEBUG) (subsystem_loggers subsystem)
       (s\<lparr>ls_flags := subsystem_flags True subsystem (ls_flags s)\<rparr>)"

definition disable_subsystem_debug :: "string \<Rightarrow> log_state \<Rightarrow> log_state" where
  "disable_subsystem_debug subsystem s = s\<lparr>ls_flags := subsystem_flags False subsystem (ls_flags s)\<rparr>"

text \<open>\<open>JsonFormatter\<close>: a message that looks like an object is passed on.\<close>

datatype formatted = Message string | Encoded "(string, json) dict"

definition json_formatter :: "string \<Rightarrow> string \<Rightarrow> time_s \<Rightarrow> formatted" where
  "json_formatter levelname msg created =
     (if prefix ''{'' msg \<and> suffix ''}'' msg then Message msg
      else Encoded [(''level'', JStr levelname), (''event'', JStr ''log''), (''message'', JStr msg),
                    (''ts'', JNum created)])"

section \<open>Context, formatter and sinks\<close>

record log_context =
  lc_session_id :: string
  lc_correlation_id :: string
  lc_subsystem :: string

definition empty_context :: log_context where
  "empty_context = \<lparr>lc_session_id = [], lc_correlation_id = [], lc_subsystem = []\<rparr>"

text \<open>\<open>new_session\<close> takes the hexadecimal text of a fresh identifier.\<close>

definition lc_new_session :: "string \<Rightarrow> log_context \<Rightarrow> string \<times> log_context" where
  "lc_new_session uuid_hex c =
     (let i = ''sess_'' @ take 12 uuid_hex in (i, c\<lparr>lc_session_id := i\<rparr>))"

definition lc_get :: "log_context \<Rightarrow> (string, string) dict" where
  "lc_get c = [(''session_id'', lc_session_id c), (''correlation_id'', lc_correlation_id c),
     (''subsystem'', lc_subsystem c)]"

definition lc_set_session :: "string \<Rightarrow> log_context \<Rightarrow> log_context" where
  "lc_set_session i c = c\<lparr>lc_session_id := i\<rparr>"

definition lc_set_correlation :: "string \<Rightarrow> log_context \<Rightarrow> log_context" where
  "lc_set_correlation i c = c\<lparr>lc_correlation_id := i\<rparr>"

definition lc_set_subsystem :: "string \<Rightarrow> log_context \<Rightarrow> log_context" where
  "lc_set_subsystem n c = c\<lparr>lc_subsystem := n\<rparr>"

record log_record =
  lr_created :: time_s
  lr_level :: string
  lr_name :: string
  lr_message :: string
  lr_exc :: "string option"

definition format_json :: "log_record \<Rightarrow> log_context \<Rightarrow> (string, json) dict" where
  "format_json r c =
     [(''schema_version'', JNum 1), (''ts'', JNum (lr_created r)), (''level'', JStr (lr_level r)),
      (''logger'', JStr (lr_name r)), (''message'', JStr (lr_message r)),
      (''session_id'', JStr (lc_session_id c)), (''correlation_id'', JStr (lc_correlation_id c)),
      (''subsystem'', JStr (if lc_subsystem c = [] then lr_name r else lc_subsystem c))]
     @ (case lr_exc r of None \<Rightarrow> [] | Some e \<Rightarrow> [(''exc_info'', JStr e)])"

text \<open>\<open>clock_text\<close> is \<open>strftime\<close> of the time; the level is padded to seven characters.\<close>

definition format_text :: "(time_s \<Rightarrow> string) \<Rightarrow> log_record \<Rightarrow> log_context \<Rightarrow> string" where
  "format_text clock_text r c =
     clock_text (lr_created r)
     @ (if lc_session_id c \<noteq> [] then '' ['' @ take 8 (lc_session_id c) @ '']'' else [])
     @ (if lc_correlation_id c \<noteq> [] then ''['' @ take 8 (lc_correlation_id c) @ '']'' else [])
     @ '' ['' @ lr_level r @ replicate (7 - length (lr_level r)) CHR '' '' @ ''] ''
     @ lr_name r @ '': '' @ lr_message r"

text \<open>\<open>dumps\<close> is \<open>json.dumps\<close>, modelled in \<open>Json_Text\<close>.\<close>

definition format_record ::
  "((string, json) dict \<Rightarrow> string) \<Rightarrow> (time_s \<Rightarrow> string) \<Rightarrow> bool \<Rightarrow> log_record \<Rightarrow> log_context \<Rightarrow> string" where
  "format_record dumps clock_text json_mode r c = (if json_mode then dumps (format_json r c) else format_text clock_text r c)"

datatype sink = Console_sink | File_sink string | Null_sink

text \<open>The format each sink gives its handler: whether the formatter is in JSON mode, if it has one.\<close>

fun sink_json_mode :: "sink \<Rightarrow> bool option" where
  "sink_json_mode Console_sink = Some False"
| "sink_json_mode (File_sink path) = Some True"
| "sink_json_mode Null_sink = None"

record root_logging =
  rl_level :: nat
  rl_handlers :: "sink list"
  rl_configured :: bool

definition configure_runtime_logging :: "nat \<Rightarrow> string \<Rightarrow> root_logging \<Rightarrow> root_logging" where
  "configure_runtime_logging level file_path s =
     (let s = s\<lparr>rl_level := level\<rparr>;
          s = (if rl_handlers s = [] then s\<lparr>rl_handlers := [Console_sink]\<rparr> else s);
          s = (if file_path \<noteq> [] \<and> \<not> rl_configured s then s\<lparr>rl_handlers := rl_handlers s @ [File_sink file_path]\<rparr> else s)
      in s\<lparr>rl_configured := True\<rparr>)"

section \<open>What the operations keep\<close>

lemma logger_of_put: "logger_of n (put_logger m l s) = (if n = m then l else logger_of n s)"
  by (auto simp: logger_of_def put_logger_def split: option.splits)

lemma put_logger_frame [simp]:
  "ls_loggers (put_logger m l s) = ls_loggers s" "ls_root_level (put_logger m l s) = ls_root_level s"
  "ls_flags (put_logger m l s) = ls_flags s" "ls_stream_format (put_logger m l s) = ls_stream_format s"
  "ls_file_format (put_logger m l s) = ls_file_format s"
  by (simp_all add: put_logger_def)

lemma logger_of_frame [simp]:
  "logger_of n (s\<lparr>ls_loggers := a\<rparr>) = logger_of n s" "logger_of n (s\<lparr>ls_root_level := b\<rparr>) = logger_of n s"
  "logger_of n (s\<lparr>ls_flags := c\<rparr>) = logger_of n s" "logger_of n (s\<lparr>ls_stream_format := d\<rparr>) = logger_of n s"
  "logger_of n (s\<lparr>ls_file_format := g\<rparr>) = logger_of n s"
  by (simp_all add: logger_of_def)

lemma set_levels_frame:
  "ls_loggers (fold (set_level k) ns s) = ls_loggers s" "ls_flags (fold (set_level k) ns s) = ls_flags s"
  "ls_stream_format (fold (set_level k) ns s) = ls_stream_format s"
  "ls_file_format (fold (set_level k) ns s) = ls_file_format s"
  "ls_root_level (fold (set_level k) ns s) = ls_root_level s"
  by (induction ns arbitrary: s) (simp_all add: set_level_def)

lemma set_levels:
  "logger_of n (fold (set_level k) ns s) =
     (if n \<in> set ns then (logger_of n s)\<lparr>lg_level := k\<rparr> else logger_of n s)"
  by (induction ns arbitrary: s) (auto simp: set_level_def logger_of_put)

lemma add_handlers_frame:
  "ls_loggers (fold (add_handler h) ns s) = ls_loggers s"
  "ls_stream_format (fold (add_handler h) ns s) = ls_stream_format s"
  "ls_file_format (fold (add_handler h) ns s) = ls_file_format s"
  by (induction ns arbitrary: s) (simp_all add: add_handler_def Let_def)

lemma add_handlers_of:
  "logger_of n (fold (add_handler h) ns s) =
     (if n \<in> set ns \<and> h \<notin> set (lg_handlers (logger_of n s))
      then (logger_of n s)\<lparr>lg_handlers := lg_handlers (logger_of n s) @ [h]\<rparr> else logger_of n s)"
  by (induction ns arbitrary: s) (auto simp: add_handler_def logger_of_put Let_def)

text \<open>The registered loggers are those with handlers: the stream handler first, the file handler at most once and
  only when there is one; both handlers have the same format.\<close>

definition log_wf :: "log_state \<Rightarrow> bool" where
  "log_wf s \<longleftrightarrow> distinct (ls_loggers s)
     \<and> (\<forall>n. n \<in> set (ls_loggers s) \<longleftrightarrow> lg_handlers (logger_of n s) \<noteq> [])
     \<and> (\<forall>n. lg_handlers (logger_of n s) \<in> {[], [Stream_handler], [Stream_handler, File_handler]})
     \<and> (\<forall>n. File_handler \<in> set (lg_handlers (logger_of n s)) \<longrightarrow> ls_file_format s \<noteq> None)
     \<and> (\<forall>f. ls_file_format s = Some f \<longrightarrow> f = ls_stream_format s)"

inductive log_step :: "log_state \<Rightarrow> log_state \<Rightarrow> bool" where
  get: "log_step s (get_logger name s)"
| level: "log_step s (set_log_level l s)"
| fmt: "log_step s (set_log_format f s)"
| file_on: "log_step s (snd (enable_file_logging r s))"
| trace_on: "log_step s (enable_trace s)"
| trace_off: "log_step s (disable_trace s)"
| debug_on: "log_step s (enable_subsystem_debug b s)"
| debug_off: "log_step s (disable_subsystem_debug b s)"

lemma log_wf_new: "log_wf new_log_state"
  by (simp add: log_wf_def new_log_state_def logger_of_def)

lemma log_wf_get: "log_wf s \<Longrightarrow> log_wf (get_logger name s)"
  by (auto simp: log_wf_def get_logger_def logger_of_put Let_def)

lemma log_wf_levels: "log_wf s \<Longrightarrow> log_wf (fold (set_level k) ns s)"
  by (simp add: log_wf_def set_levels_frame set_levels)

lemma log_wf_frame [simp]:
  "log_wf (s\<lparr>ls_root_level := k\<rparr>) = log_wf s" "log_wf (s\<lparr>ls_flags := g\<rparr>) = log_wf s"
  by (simp_all add: log_wf_def)

lemma log_wf_level: "log_wf s \<Longrightarrow> log_wf (set_log_level l s)"
  by (simp add: set_log_level_def Let_def log_wf_levels)

lemma log_wf_format: "log_wf s \<Longrightarrow> log_wf (set_log_format f s)"
  by (auto simp: log_wf_def set_log_format_def Let_def)

lemma log_wf_file: "log_wf s \<Longrightarrow> log_wf (snd (enable_file_logging r s))"
proof (cases "ls_file_format s")
  case None
  assume wf: "log_wf s"
  with None have no_file: "File_handler \<notin> set (lg_handlers (logger_of n s))" for n by (auto simp: log_wf_def)
  from wf have "lg_handlers (logger_of n s) \<in> {[], [Stream_handler]}" for n
    using no_file [of n] by (auto simp: log_wf_def)
  with wf no_file None show ?thesis
    by (auto simp: enable_file_logging_def log_wf_def add_handlers_frame add_handlers_of split: sum.splits)
qed (simp add: enable_file_logging_def)

lemma log_wf_step: "log_wf s \<Longrightarrow> log_step s s' \<Longrightarrow> log_wf s'"
  by (erule log_step.cases)
     (simp_all add: log_wf_get log_wf_level log_wf_format log_wf_file log_wf_levels enable_trace_def
       disable_trace_def enable_subsystem_debug_def disable_subsystem_debug_def)

interpretation log_machine: invariant_machine "\<lambda>s. s = new_log_state" log_step log_wf
  by unfold_locales (auto simp: log_wf_new log_wf_step)

text \<open>Once there is a file handler it stays the only one, and no operation gives it to another logger.\<close>

definition not_in_file :: "string \<Rightarrow> log_state \<Rightarrow> bool" where
  "not_in_file n s \<longleftrightarrow> ls_file_format s \<noteq> None \<and> File_handler \<notin> set (lg_handlers (logger_of n s))"

lemma not_in_file_levels: "not_in_file n s \<Longrightarrow> not_in_file n (fold (set_level k) ns s)"
  by (simp add: not_in_file_def set_levels_frame set_levels)

lemma not_in_file_step: "not_in_file n s \<Longrightarrow> log_step s s' \<Longrightarrow> not_in_file n s'"
proof (erule log_step.cases)
  fix s0 name
  assume "not_in_file n s" "s = s0" "s' = get_logger name s0"
  then show "not_in_file n s'" by (auto simp: not_in_file_def get_logger_def logger_of_put Let_def)
next
  fix s0 r
  assume "not_in_file n s" "s = s0" "s' = snd (enable_file_logging r s0)"
  then show "not_in_file n s'" by (auto simp: not_in_file_def enable_file_logging_def)
next
  fix s0 f
  assume "not_in_file n s" "s = s0" "s' = set_log_format f s0"
  then show "not_in_file n s'" by (auto simp: not_in_file_def set_log_format_def Let_def)
next
  fix s0 l
  assume "not_in_file n s" "s = s0" "s' = set_log_level l s0"
  then show "not_in_file n s'"
    using not_in_file_levels [of n "s\<lparr>ls_root_level := k\<rparr>" for k]
    by (simp add: set_log_level_def Let_def) (simp add: not_in_file_def)
next
  fix s0
  assume "not_in_file n s" "s = s0" "s' = enable_trace s0"
  then show "not_in_file n s'"
    by (simp add: not_in_file_def enable_trace_def set_log_level_def set_levels_frame set_levels Let_def)
next
  fix s0
  assume "not_in_file n s" "s = s0" "s' = disable_trace s0"
  then show "not_in_file n s'"
    by (simp add: not_in_file_def disable_trace_def set_log_level_def set_levels_frame set_levels Let_def)
qed (simp_all add: not_in_file_def enable_subsystem_debug_def disable_subsystem_debug_def set_levels_frame set_levels)

section \<open>Properties\<close>

text \<open>File logging covers exactly the loggers that exist when it is switched on: one obtained later writes to the
  stream only, and nothing done afterwards, not even switching it on again, changes that.\<close>

theorem late_logger_not_in_file:
  assumes "log_step\<^sup>*\<^sup>* new_log_state s" "ls_file_format s \<noteq> None" "n \<notin> set (ls_loggers s)"
    and "log_step\<^sup>*\<^sup>* (get_logger n s) s'"
  shows "lg_handlers (logger_of n (get_logger n s)) = [Stream_handler]
     \<and> File_handler \<notin> set (lg_handlers (logger_of n s'))"
proof -
  have "log_wf s" using log_machine.reachable_inv [OF refl assms(1)] .
  then have "lg_handlers (logger_of n s) = []" using assms(3) by (simp add: log_wf_def)
  then have one: "lg_handlers (logger_of n (get_logger n s)) = [Stream_handler]"
    by (simp add: get_logger_def logger_of_put)
  then have start: "not_in_file n (get_logger n s)"
    using assms(2) by (auto simp: not_in_file_def get_logger_def Let_def)
  from assms(4) have "not_in_file n s'"
    by (induction rule: rtranclp_induct) (auto intro: start not_in_file_step)
  with one show ?thesis by (simp add: not_in_file_def)
qed

theorem late_logger_not_in_file_witness:
  "\<exists>s. log_step\<^sup>*\<^sup>* new_log_state s \<and> ls_file_format s = Some Pretty
     \<and> lg_handlers (logger_of ''vad'' (get_logger ''vad'' s)) = [Stream_handler]"
proof -
  let ?s = "snd (enable_file_logging (Inr ()) new_log_state)"
  have run: "log_step\<^sup>*\<^sup>* new_log_state ?s" by (intro r_into_rtranclp log_step.file_on)
  have s: "ls_file_format ?s = Some Pretty" "''vad'' \<notin> set (ls_loggers ?s)"
    by (simp_all add: enable_file_logging_def new_log_state_def)
  from late_logger_not_in_file [OF run _ s(2) rtranclp.rtrancl_refl] run s(1) show ?thesis by blast
qed

text \<open>Switching the debug output of a subsystem on and off again clears its flags, but its loggers stay at the debug
  level; and a logger set to debug before it is first obtained loses that level.\<close>

theorem subsystem_debug_not_undone:
  assumes "n \<in> set (subsystem_loggers b)"
  shows "lg_level (logger_of n (disable_subsystem_debug b (enable_subsystem_debug b s))) = LOG_DEBUG
     \<and> ls_flags (disable_subsystem_debug b (enable_subsystem_debug b s)) = subsystem_flags False b (ls_flags s)
     \<and> (lg_handlers (logger_of n s) = [] \<longrightarrow>
          lg_level (logger_of n (get_logger n (enable_subsystem_debug b s))) = ls_root_level s)"
  using assms
  by (auto simp: disable_subsystem_debug_def enable_subsystem_debug_def set_levels set_levels_frame
      subsystem_flags_def get_logger_def logger_of_put Let_def)

text \<open>Every registered logger follows the level that is set, whatever it was; an unknown name means info.\<close>

theorem set_log_level_exact:
  "\<forall>n. logger_of n (set_log_level l s) =
     (if n \<in> set (ls_loggers s) then (logger_of n s)\<lparr>lg_level := ls_root_level (set_log_level l s)\<rparr> else logger_of n s)"
  by (simp add: set_log_level_def set_levels set_levels_frame Let_def)

text \<open>The handlers of the root logger do not multiply: after the first configuration a second one changes the level
  only, so a file asked for later is never opened.\<close>

theorem configure_once:
  "rl_handlers (configure_runtime_logging l' f' (configure_runtime_logging l f s))
     = rl_handlers (configure_runtime_logging l f s)
   \<and> rl_level (configure_runtime_logging l' f' s) = l'"
  by (simp add: configure_runtime_logging_def Let_def)

end
