(* ===== verification/Runtime_Threads.thy ===== *)
theory Runtime_Threads
  imports Watchdog Telemetry_Events
begin

text \<open>
  The threads of the worker process and who owns them: \<^verbatim>\<open>AudioWorker.start/stop\<close> in
  \<^verbatim>\<open>src/runtime/audio/worker.py\<close>, \<^verbatim>\<open>RuntimeWatchdog.start/stop\<close> in \<^verbatim>\<open>supervisor/watchdog.py\<close>,
  \<^verbatim>\<open>start_heartbeat\<close> in \<^verbatim>\<open>transport/stream/handler.py\<close> and \<^verbatim>\<open>TelemetryDispatcher.start/stop\<close> in
  \<^verbatim>\<open>telemetry/events.py\<close>. A thread object is what \<^verbatim>\<open>threading.Thread\<close> documents: it can be started
  once, is alive until its target returns or raises, and a join waits at most its timeout; whether
  the target ends within it is an input of the join.

  The second part runs them together: a runtime is the streamer, the watchdog and their threads, and
  an event is a step of one of the threads, a microphone callback, or a call of \<^verbatim>\<open>start\<close> or \<^verbatim>\<open>stop\<close>.
\<close>

section \<open>Thread objects\<close>

datatype thread = Th_new | Th_running | Th_finished

definition th_alive :: "thread \<Rightarrow> bool" where
  "th_alive t \<longleftrightarrow> t = Th_running"

definition th_start :: "thread \<Rightarrow> py_exc + thread" where
  "th_start t = (if t = Th_new then Inr Th_running else Inl (RuntimeError ''threads can only be started once''))"

definition th_join :: "bool \<Rightarrow> thread \<Rightarrow> py_exc + thread" where
  "th_join ends t =
     (case t of
        Th_new \<Rightarrow> Inl (RuntimeError ''cannot join thread before it is started'')
      | Th_running \<Rightarrow> Inr (if ends then Th_finished else Th_running)
      | Th_finished \<Rightarrow> Inr Th_finished)"

lemma th_start_new [simp]: "th_start Th_new = Inr Th_running"
  by (simp add: th_start_def)

lemma th_join_alive [simp]: "th_join ends Th_running = Inr (if ends then Th_finished else Th_running)"
  by (simp add: th_join_def)

section \<open>The owners\<close>

text \<open>\<open>AudioWorker\<close>: every start makes a new thread; \<open>stop\<close> only waits. The result of \<open>stop\<close> says whether the
  warning that the worker did not exit is logged.\<close>

definition aw_thread_start :: "thread option \<Rightarrow> (py_exc + unit) \<times> thread option" where
  "aw_thread_start th = (case th_start Th_new of Inl e \<Rightarrow> (Inl e, Some Th_new) | Inr t \<Rightarrow> (Inr (), Some t))"

definition aw_thread_stop :: "bool \<Rightarrow> thread option \<Rightarrow> (py_exc + bool) \<times> thread option" where
  "aw_thread_stop ends th =
     (case th of
        None \<Rightarrow> (Inr False, None)
      | Some t \<Rightarrow>
          if \<not> th_alive t then (Inr False, Some t)
          else case th_join ends t of
                 Inl e \<Rightarrow> (Inl e, Some t)
               | Inr t' \<Rightarrow> (Inr (th_alive t'), Some t'))"

text \<open>A thread with the event that ends its loop, as the watchdog and the dispatcher keep them.\<close>

record looper =
  lo_thread :: "thread option"
  lo_stop :: bool

definition wd_start :: "looper \<Rightarrow> (py_exc + unit) \<times> looper" where
  "wd_start l =
     (if (case lo_thread l of None \<Rightarrow> False | Some t \<Rightarrow> th_alive t) then (Inr (), l)
      else case th_start Th_new of
             Inl e \<Rightarrow> (Inl e, l\<lparr>lo_stop := False, lo_thread := Some Th_new\<rparr>)
           | Inr t \<Rightarrow> (Inr (), l\<lparr>lo_stop := False, lo_thread := Some t\<rparr>))"

definition wd_stop :: "bool \<Rightarrow> looper \<Rightarrow> (py_exc + unit) \<times> looper" where
  "wd_stop ends l =
     (let l = l\<lparr>lo_stop := True\<rparr> in
      case lo_thread l of
        None \<Rightarrow> (Inr (), l)
      | Some t \<Rightarrow> (case th_join ends t of Inl e \<Rightarrow> (Inl e, l) | Inr t' \<Rightarrow> (Inr (), l\<lparr>lo_thread := Some t'\<rparr>)))"

text \<open>\<open>start_heartbeat\<close>: the module keeps the last heartbeat thread.\<close>

definition start_heartbeat :: "thread option \<Rightarrow> (py_exc + unit) \<times> thread option" where
  "start_heartbeat th =
     (if (case th of None \<Rightarrow> False | Some t \<Rightarrow> th_alive t) then (Inr (), th)
      else case th_start Th_new of Inl e \<Rightarrow> (Inl e, Some Th_new) | Inr t \<Rightarrow> (Inr (), Some t))"

text \<open>\<open>TelemetryDispatcher\<close>: its one thread is made by the constructor.\<close>

record td_thread =
  tt_thread :: thread
  tt_stop :: bool
  tt_disp :: dispatcher

definition new_td_thread :: td_thread where
  "new_td_thread = \<lparr>tt_thread = Th_new, tt_stop = False, tt_disp = new_dispatcher\<rparr>"

definition td_start :: "td_thread \<Rightarrow> (py_exc + unit) \<times> td_thread" where
  "td_start d =
     (let d = d\<lparr>tt_stop := False\<rparr> in
      if th_alive (tt_thread d) then (Inr (), d)
      else case th_start (tt_thread d) of
             Inl e \<Rightarrow> (Inl e, d)
           | Inr t \<Rightarrow> (Inr (), d\<lparr>tt_thread := t\<rparr>))"

definition td_stop :: "bool \<Rightarrow> td_thread \<Rightarrow> (py_exc + unit) \<times> td_thread" where
  "td_stop ends d =
     (let d = d\<lparr>tt_stop := True\<rparr> in
      if \<not> th_alive (tt_thread d) then (Inr (), d)
      else case th_join ends (tt_thread d) of
             Inl e \<Rightarrow> (Inl e, d)
           | Inr t \<Rightarrow> (Inr (), d\<lparr>tt_thread := t\<rparr>))"

text \<open>A round of the dispatcher's thread: the loop ends when the stop event is set, else one event is
  printed.\<close>

definition td_round :: "td_thread \<Rightarrow> td_thread" where
  "td_round d =
     (if \<not> th_alive (tt_thread d) then d
      else if tt_stop d then d\<lparr>tt_thread := Th_finished\<rparr>
      else d\<lparr>tt_disp := td_worker (tt_disp d)\<rparr>)"

datatype td_call = Td_start | Td_stop bool | Td_round | Td_emit telemetry_event

fun td_exec :: "td_call \<Rightarrow> td_thread \<Rightarrow> td_thread" where
  "td_exec Td_start d = snd (td_start d)"
| "td_exec (Td_stop ends) d = snd (td_stop ends d)"
| "td_exec Td_round d = td_round d"
| "td_exec (Td_emit e) d = d\<lparr>tt_disp := td_put e (tt_disp d)\<rparr>"

section \<open>Owners that start at most one thread\<close>

text \<open>What the engine relies on when it calls a start operation every time it starts: the call succeeds,
  leaves a running thread, and does nothing when one runs already.\<close>

locale idempotent_start =
  fixes start :: "'s \<Rightarrow> (py_exc + unit) \<times> 's"
    and running :: "'s \<Rightarrow> bool"
  assumes start_runs: "\<not> running s \<Longrightarrow> fst (start s) = Inr () \<and> running (snd (start s))"
    and start_running: "running s \<Longrightarrow> start s = (Inr (), s)"
begin

lemma start_ok: "fst (start s) = Inr ()" "running (snd (start s))"
  using start_runs [of s] start_running [of s] by (cases "running s"; simp)+

lemma start_again: "start (snd (start s)) = (Inr (), snd (start s))"
  by (simp add: start_running start_ok)

lemma starts_once: "0 < n \<Longrightarrow> ((\<lambda>s. snd (start s)) ^^ n) s = snd (start s)"
proof (induction n)
  case (Suc n)
  then show ?case by (cases n) (simp_all add: start_again)
qed simp

end

interpretation hb: idempotent_start start_heartbeat "\<lambda>th. th = Some Th_running"
  by unfold_locales (auto simp: start_heartbeat_def th_alive_def split: option.splits)

interpretation wdt: idempotent_start wd_start "\<lambda>l. lo_thread l = Some Th_running"
  by unfold_locales (auto simp: wd_start_def th_alive_def split: option.splits)

text \<open>However often the engine starts, there is one heartbeat thread and it runs.\<close>

lemma heartbeat_singleton: "0 < n \<Longrightarrow> ((\<lambda>s. snd (start_heartbeat s)) ^^ n) None = Some Th_running"
  using hb.starts_once [of n None] hb.start_ok(2) [of None] by simp

text \<open>A watchdog stopped while its loop sleeps (5 s, longer than the 2 s of the join) is not started again
  by a call that comes before the loop ends: the stop event stays set.\<close>

lemma watchdog_start_lost:
  assumes "lo_thread l = Some Th_running"
  shows "lo_stop (snd (wd_start (snd (wd_stop False l))))"
    and "fst (wd_start (snd (wd_stop False l))) = Inr ()"
  using assms by (simp_all add: wd_stop_def wd_start_def th_alive_def)

section \<open>The dispatcher's thread runs once\<close>

lemma td_finished_exec:
  "tt_thread d = Th_finished \<Longrightarrow>
     tt_thread (td_exec c d) = Th_finished \<and> td_logged (tt_disp (td_exec c d)) = td_logged (tt_disp d)"
  by (cases c) (auto simp: td_start_def td_stop_def td_round_def td_put_def th_start_def th_alive_def Let_def)

lemma td_finished_run:
  "tt_thread d = Th_finished \<Longrightarrow>
     tt_thread (fold td_exec cs d) = Th_finished
   \<and> td_logged (tt_disp (fold td_exec cs d)) = td_logged (tt_disp d)"
proof (induction cs arbitrary: d)
  case (Cons c cs)
  then show ?case using td_finished_exec [of d c] by (metis fold_simps(2))
qed simp

text \<open>Once the telemetry thread has ended it stays ended: starting the worker again raises
  \<open>RuntimeError\<close>, and no event emitted afterwards is ever printed.\<close>

theorem telemetry_never_restarts:
  assumes "tt_thread d = Th_finished"
  shows "fst (td_start (fold td_exec cs d)) = Inl (RuntimeError ''threads can only be started once'')
    \<and> td_logged (tt_disp (fold td_exec cs d)) = td_logged (tt_disp d)"
  using td_finished_run [OF assms, of cs] by (simp add: td_start_def th_alive_def th_start_def Let_def)

theorem telemetry_never_restarts_witness:
  "fst (td_start (fold td_exec [Td_start, Td_stop True] new_td_thread))
     = Inl (RuntimeError ''threads can only be started once'')"
  using telemetry_never_restarts [of "fold td_exec [Td_start, Td_stop True] new_td_thread" "[]"]
  by (simp add: new_td_thread_def td_start_def td_stop_def th_alive_def Let_def)


section \<open>The worker process as a machine\<close>

text \<open>The streamer, the watchdog, the speech worker threads in the order they were started (the streamer
  holds the last), the watchdog's loop, and what has been handed to the engine's callback.\<close>

record ('o, 's) runtime =
  rn_streamer :: "('o, 's) streamer"
  rn_watchdog :: watchdog
  rn_workers :: "thread list"
  rn_watch :: looper
  rn_delivered :: "delivery list"

definition new_runtime :: "'s vad_models \<Rightarrow> bool \<Rightarrow> time_s \<Rightarrow> ('o, 's) runtime" where
  "new_runtime m session now =
     \<lparr>rn_streamer = new_streamer m session now, rn_watchdog = new_watchdog, rn_workers = [],
      rn_watch = \<lparr>lo_thread = None, lo_stop = False\<rparr>, rn_delivered = []\<rparr>"

text \<open>\<open>SherpaStreamer.start\<close> spawns the worker after the first three of its steps.\<close>

definition st_prepare ::
  "time_s \<Rightarrow> (py_exc + 'o) \<Rightarrow> ('o, 's) streamer \<Rightarrow> (py_exc + unit) \<times> ('o, 's) streamer" where
  "st_prepare now created s =
     eseq (st_provider_reset now created (s\<lparr>st_stop := False\<rparr>)) (\<lambda>_ s.
     eseq (st_asr_transition SS_INITIALIZING s) (\<lambda>_ s.
     st_asr_transition SS_READY s))"

definition rn_worker_thread :: "('o, 's) runtime \<Rightarrow> thread option" where
  "rn_worker_thread r = (if rn_workers r = [] then None else Some (last (rn_workers r)))"

text \<open>\<open>WakeEngine.start\<close>: the watchdog, then the streamer.\<close>

definition rn_start ::
  "time_s \<Rightarrow> (py_exc + 'o) \<Rightarrow> (py_exc + unit) \<Rightarrow> ('o, 's) runtime \<Rightarrow> (py_exc + unit) \<times> ('o, 's) runtime" where
  "rn_start now created mic r =
     eseq (let (x, l) = wd_start (rn_watch r) in (x, r\<lparr>rn_watch := l\<rparr>)) (\<lambda>_ r.
       let ths = (if fst (st_prepare now created (rn_streamer r)) = Inr ()
                  then (case snd (aw_thread_start (rn_worker_thread r)) of
                          Some t \<Rightarrow> rn_workers r @ [t] | None \<Rightarrow> rn_workers r)
                  else rn_workers r);
           (x, s) = st_start now created mic (rn_streamer r)
       in (x, r\<lparr>rn_streamer := s, rn_workers := ths\<rparr>))"

text \<open>A step of the \<open>k\<close>-th worker thread: its loop ends when the stop event is set; an exception of the
  pipeline or of the engine's callback (\<open>cb\<close>) ends the thread, since nothing in \<open>_run\<close> catches it; a
  decode that never returns leaves it where it is.\<close>

definition rn_worker ::
  "'o recognizer \<Rightarrow> 's vad_models \<Rightarrow> nat \<Rightarrow> 'o aw_input \<Rightarrow> (delivery \<Rightarrow> py_exc + unit) \<Rightarrow> ('o, 's) runtime
     \<Rightarrow> ('o, 's) runtime" where
  "rn_worker rz m k i cb r =
     (if \<not> (k < length (rn_workers r) \<and> th_alive (rn_workers r ! k)) then r
      else if st_stop (rn_streamer r) then r\<lparr>rn_workers := (rn_workers r)[k := Th_finished]\<rparr>
      else case aw_iteration rz m i (st_pipe (rn_streamer r)) of
             None \<Rightarrow> r
           | Some (x, p) \<Rightarrow>
               let r = r\<lparr>rn_streamer := (rn_streamer r)\<lparr>st_pipe := p\<rparr>\<rparr> in
               case x of
                 Inl e \<Rightarrow> r\<lparr>rn_workers := (rn_workers r)[k := Th_finished]\<rparr>
               | Inr None \<Rightarrow> r
               | Inr (Some d) \<Rightarrow>
                   let r = r\<lparr>rn_delivered := rn_delivered r @ [d]\<rparr> in
                   (case cb d of Inl e \<Rightarrow> r\<lparr>rn_workers := (rn_workers r)[k := Th_finished]\<rparr> | Inr _ \<Rightarrow> r))"

text \<open>A step of the watchdog thread: the liveness it reads is that of the streamer's current worker thread.\<close>

definition rn_watchdog_step :: "'s vad_models \<Rightarrow> 'o watch_pass \<Rightarrow> ('o, 's) runtime \<Rightarrow> ('o, 's) runtime" where
  "rn_watchdog_step m x r =
     (if lo_thread (rn_watch r) \<noteq> Some Th_running then r
      else if lo_stop (rn_watch r) then r\<lparr>rn_watch := (rn_watch r)\<lparr>lo_thread := Some Th_finished\<rparr>\<rparr>
      else
        let (y, w, s) = wd_monitor_pass m (x\<lparr>wp_thread := map_option th_alive (rn_worker_thread r)\<rparr>)
              (rn_watchdog r, rn_streamer r);
            r = r\<lparr>rn_watchdog := w, rn_streamer := s\<rparr>
        in case y of
             Inl e \<Rightarrow> r\<lparr>rn_watch := (rn_watch r)\<lparr>lo_thread := Some Th_finished\<rparr>\<rparr>
           | Inr _ \<Rightarrow> r)"

datatype 'o rn_event =
    Rn_start time_s "py_exc + 'o" "py_exc + unit"
  | Rn_stop
  | Rn_worker nat "'o aw_input" "delivery \<Rightarrow> py_exc + unit"
  | Rn_audio chunk
  | Rn_watch "'o watch_pass"

fun rn_exec :: "'o recognizer \<Rightarrow> 's vad_models \<Rightarrow> 'o rn_event \<Rightarrow> ('o, 's) runtime \<Rightarrow> ('o, 's) runtime" where
  "rn_exec rz m (Rn_start now created mic) r = snd (rn_start now created mic r)"
| "rn_exec rz m Rn_stop r = r\<lparr>rn_streamer := snd (st_stop_stream (rn_streamer r))\<rparr>"
| "rn_exec rz m (Rn_worker k i cb) r = rn_worker rz m k i cb r"
| "rn_exec rz m (Rn_audio c) r = r\<lparr>rn_streamer := snd (st_audio_callback c (rn_streamer r))\<rparr>"
| "rn_exec rz m (Rn_watch x) r = rn_watchdog_step m x r"

section \<open>A worker that has ended\<close>

abbreviation asr_state :: "('o, 's) streamer \<Rightarrow> subsystem_state" where
  "asr_state s \<equiv> sl_state (pp_asr_fsm (st_pipe s))"

definition started :: "subsystem_state \<Rightarrow> bool" where
  "started t \<longleftrightarrow> t \<noteq> SS_OFFLINE \<and> t \<noteq> SS_INITIALIZING"

definition worker_gone :: "('o, 's) runtime \<Rightarrow> bool" where
  "worker_gone r \<longleftrightarrow> Th_running \<notin> set (rn_workers r) \<and> started (asr_state (rn_streamer r))"

lemma started_prepare:
  assumes "started (asr_state s)"
  shows "\<exists>e. fst (st_prepare now created s) = Inl e"
    and "\<exists>e. fst (st_start now created mic s) = Inl e"
    and "asr_state (snd (st_start now created mic s)) = asr_state s"
  using assms
  by (cases created; cases "asr_state s";
      simp add: started_def st_prepare_def st_start_def st_provider_reset_def st_asr_transition_def
        sub_transition_def sp_reset_def Let_def)+

lemma started_reset: "started (asr_state s) \<Longrightarrow> started (asr_state (snd (st_reset_stream m i s)))"
  by (cases i) (auto simp: st_reset_stream_eq started_def fsm_after_reset_def Let_def split: sum.splits)

lemma started_recover:
  "started (asr_state (snd ws)) \<Longrightarrow> started (asr_state (snd (snd (wd_recover_stream m i reason ws))))"
  using started_reset [of "snd ws" m]
  by (cases i) (auto simp: wd_recover_stream_def Let_def case_prod_unfold split: sum.splits)

lemma started_pass:
  "started (asr_state (snd ws)) \<Longrightarrow> started (asr_state (snd (snd (wd_monitor_pass m x ws))))"
  by (rule wd_pass_preserves [where P = "\<lambda>ws. started (asr_state (snd ws))"]) (rule started_recover)

lemma audio_asr [simp]: "asr_state (snd (st_audio_callback c s)) = asr_state s"
  by (simp add: st_audio_callback_def Let_def case_prod_unfold split: sum.splits)

lemma worker_gone_step:
  assumes "worker_gone r" "e \<noteq> Rn_stop"
  shows "worker_gone (rn_exec rz m e r) \<and> rn_workers (rn_exec rz m e r) = rn_workers r
    \<and> rn_delivered (rn_exec rz m e r) = rn_delivered r"
proof (cases e)
  case (Rn_start now created mic)
  obtain x where "fst (st_prepare now created (rn_streamer r)) = Inl x"
    using started_prepare(1) assms(1) unfolding worker_gone_def by blast
  then show ?thesis
    using Rn_start assms(1) started_prepare(3) [of "rn_streamer r" now created mic]
      wdt.start_ok(1) [of "rn_watch r"]
    by (simp add: rn_start_def worker_gone_def Let_def case_prod_unfold eseq_def)
next
  case (Rn_worker k i cb)
  have "rn_worker rz m k i cb r = r"
    using assms(1) by (auto simp: rn_worker_def worker_gone_def th_alive_def dest: nth_mem)
  with Rn_worker assms(1) show ?thesis by simp
next
  case (Rn_watch x)
  then show ?thesis
    using assms(1) started_pass [of "(rn_watchdog r, rn_streamer r)" m]
    by (auto simp: rn_watchdog_step_def worker_gone_def Let_def case_prod_unfold split: sum.splits)
qed (use assms in \<open>simp_all add: worker_gone_def\<close>)

lemma worker_gone_run:
  "worker_gone r \<Longrightarrow> Rn_stop \<notin> set es \<Longrightarrow>
     worker_gone (fold (rn_exec rz m) es r) \<and> rn_workers (fold (rn_exec rz m) es r) = rn_workers r
   \<and> rn_delivered (fold (rn_exec rz m) es r) = rn_delivered r"
proof (induction es arbitrary: r)
  case (Cons e es)
  then show ?case using worker_gone_step [of r e rz m] by (metis fold_simps(2) list.set_intros)
qed simp


section \<open>One worker thread at most\<close>

lemma started_fsm_moves:
  "started (sl_state (pp_asr_fsm p)) \<Longrightarrow> started (sl_state (pp_asr_fsm (snd (aw_fsm_moves reason t p))))"
  by (auto simp: fsm_moves_eq fsm_after_reset_def started_def)

lemma started_timeout:
  "started (sl_state (pp_asr_fsm p)) \<Longrightarrow> started (sl_state (pp_asr_fsm (snd (aw_timeout i p))))"
  by (auto simp: aw_timeout_def aw_do_stream_reset_def Let_def case_prod_unfold started_fsm_moves split: sum.splits)

lemma transcribe_asr: "aw_transcribe rz i c p = Some (x, p') \<Longrightarrow> pp_asr_fsm p' = pp_asr_fsm p"
  by (auto simp: aw_transcribe_def aw_diag_def Let_def split: prod.splits sum.splits option.splits if_splits)

lemma started_process:
  assumes "aw_process rz m i c p = Some (x, p')" "started (sl_state (pp_asr_fsm p))"
  shows "started (sl_state (pp_asr_fsm p'))"
proof -
  have timeout: "started (sl_state (pp_asr_fsm q')) "
    if "aw_timeout i q = (y, q')" "pp_asr_fsm q = pp_asr_fsm p" for q q' :: "('a, 'b) pipe" and y
    using started_timeout [of q i] that assms(2) by simp
  show ?thesis
    using assms
    by (auto simp: aw_process_def Let_def dest!: transcribe_asr
        split: prod.splits sum.splits if_splits intro: timeout)
qed

lemma started_iteration:
  "aw_iteration rz m i p = Some (x, p') \<Longrightarrow> started (sl_state (pp_asr_fsm p)) \<Longrightarrow> started (sl_state (pp_asr_fsm p'))"
  by (auto simp: aw_iteration_def Let_def split: prod.splits option.splits dest: started_process)

text \<open>As long as \<open>stop\<close> is not called: the recognizer's lifecycle has left the states from which \<open>start\<close>
  can spawn a worker as soon as one has been spawned.\<close>

definition one_worker :: "('o, 's) runtime \<Rightarrow> bool" where
  "one_worker r \<longleftrightarrow> rn_workers r = [] \<or> length (rn_workers r) = 1 \<and> started (asr_state (rn_streamer r))"

lemma one_worker_new: "one_worker (new_runtime m session now)"
  by (simp add: one_worker_def new_runtime_def)

lemma prepared_started:
  assumes "fst (st_prepare now created s) = Inr ()"
  shows "started (asr_state (snd (st_start now created mic s)))"
  using assms
  by (cases created; cases "asr_state s"; cases "sl_state (st_audio_fsm s)"; cases mic)
    (simp_all add: started_def st_prepare_def st_start_def st_provider_reset_def st_asr_transition_def
      st_worker_enter_def aw_enter_def st_audio_transition_def sub_transition_def sp_reset_def Let_def)

lemma one_worker_start: "one_worker r \<Longrightarrow> one_worker (snd (rn_start now created mic r))"
proof (cases "fst (st_prepare now created (rn_streamer r)) = Inr ()")
  case True
  assume "one_worker r"
  then have "rn_workers r = []"
    using True started_prepare(1) [of "rn_streamer r" now created] by (fastforce simp: one_worker_def)
  then show ?thesis
    using True prepared_started [OF True, of mic] wdt.start_ok(1) [of "rn_watch r"]
    by (simp add: rn_start_def one_worker_def aw_thread_start_def Let_def case_prod_unfold eseq_def)
next
  case False
  assume "one_worker r"
  then show ?thesis
    using False wdt.start_ok(1) [of "rn_watch r"] started_prepare(3) [of "rn_streamer r" now created mic]
    by (auto simp: rn_start_def one_worker_def Let_def case_prod_unfold eseq_def)
qed

lemma one_worker_step:
  assumes "one_worker r" "e \<noteq> Rn_stop"
  shows "one_worker (rn_exec rz m e r)"
proof (cases e)
  case (Rn_start now created mic)
  with assms show ?thesis by (simp add: one_worker_start)
next
  case (Rn_worker k i cb)
  with assms show ?thesis
    by (auto simp: rn_worker_def one_worker_def Let_def started_iteration
        split: option.splits prod.splits sum.splits)
next
  case (Rn_watch x)
  with assms show ?thesis
    using started_pass [of "(rn_watchdog r, rn_streamer r)" m]
    by (auto simp: rn_watchdog_step_def one_worker_def Let_def case_prod_unfold split: sum.splits)
qed (use assms in \<open>simp_all add: one_worker_def\<close>)

lemma one_worker_run: "one_worker r \<Longrightarrow> Rn_stop \<notin> set es \<Longrightarrow> one_worker (fold (rn_exec rz m) es r)"
proof (induction es arbitrary: r)
  case (Cons e es)
  then show ?case using one_worker_step [of r e rz m] by auto
qed simp

section \<open>Property\<close>

text \<open>C12: the speech worker of a process is started once and never replaced. In every run of the worker
  process that does not call the streamer's \<^verbatim>\<open>stop\<close> (starts, worker iterations, callbacks and
  watchdog passes in any order, with any outcome), at most one worker thread is ever spawned, and
  once it has ended, whatever the watchdog resets and however often \<^verbatim>\<open>start\<close> is called, no worker
  thread runs again and no hypothesis is delivered any more.\<close>

theorem dead_worker_is_final:
  assumes "Rn_stop \<notin> set (es @ es')"
    and "r = fold (rn_exec rz m) es (new_runtime m session now)"
  shows "length (rn_workers r) \<le> 1
    \<and> (rn_workers r = [Th_finished] \<longrightarrow>
         rn_workers (fold (rn_exec rz m) es' r) = [Th_finished]
       \<and> rn_delivered (fold (rn_exec rz m) es' r) = rn_delivered r
       \<and> (\<exists>x. fst (rn_start t created mic (fold (rn_exec rz m) es' r)) = Inl x))"
proof -
  have one: "one_worker r"
    using one_worker_run [OF one_worker_new, of es rz m] assms by simp
  have final: "rn_workers (fold (rn_exec rz m) es' r) = [Th_finished]
       \<and> rn_delivered (fold (rn_exec rz m) es' r) = rn_delivered r
       \<and> (\<exists>x. fst (rn_start t created mic (fold (rn_exec rz m) es' r)) = Inl x)"
    if dead: "rn_workers r = [Th_finished]"
  proof -
    have "worker_gone r" using one dead by (simp add: one_worker_def worker_gone_def)
    with assms(1) have gone: "worker_gone (fold (rn_exec rz m) es' r)"
      "rn_workers (fold (rn_exec rz m) es' r) = rn_workers r"
      "rn_delivered (fold (rn_exec rz m) es' r) = rn_delivered r"
      using worker_gone_run [of r es' rz m] by simp_all
    from gone(1) obtain x where "fst (st_start t created mic (rn_streamer (fold (rn_exec rz m) es' r))) = Inl x"
      using started_prepare(2) unfolding worker_gone_def by blast
    then have "fst (rn_start t created mic (fold (rn_exec rz m) es' r)) = Inl x"
      by (simp add: rn_start_def Let_def case_prod_unfold eseq_def wdt.start_ok)
    with gone dead show ?thesis by auto
  qed
  show ?thesis using one final by (auto simp: one_worker_def)
qed

text \<open>A run in which the worker dies: without the Silero model the first audible chunk raises.\<close>

definition dead_worker_run :: "(nat \<times> string) rn_event list" where
  "dead_worker_run = [Rn_start 0 (Inr (0, '''')) (Inr ()), Rn_audio [1/100], Rn_worker 0 toy_input (\<lambda>_. Inr ())]"

lemma fallback_chunk_raises:
  "process_chunk toy_vad_models [1/100] (new_vad toy_vad_models False) = Inl (OtherException ''AttributeError: _audio_buffer'')"
  by (simp add: process_chunk_def new_vad_def toy_vad_models_def Let_def)

lemma dead_worker_run_dies:
  "rn_workers (fold (rn_exec toy_recognizer toy_vad_models) dead_worker_run (new_runtime toy_vad_models False 0))
     = [Th_finished]"
proof -
  let ?s = "snd (st_start 0 (Inr (0 :: nat, '''' :: string)) (Inr ()) (new_streamer toy_vad_models False 0))"
  have vad: "pp_vad (st_pipe ?s) = new_vad toy_vad_models False"
    by (rule st_start_fresh_state)
  have queue: "pp_queue (st_pipe ?s) = new_audio_queue 0 AUDIO_QUEUE_MAX" "\<not> st_stop ?s"
    by (simp_all add: st_start_defs)
  have prep: "fst (st_prepare 0 (Inr (0 :: nat, '''' :: string)) (new_streamer toy_vad_models False 0)) = Inr ()"
    by (simp add: st_prepare_def st_start_defs)
  show ?thesis
    using vad queue prep
    by (simp add: dead_worker_run_def new_runtime_def rn_start_def wd_start_def aw_thread_start_def
        rn_worker_thread_def st_audio_callback_def aq_enqueue_def aq_dequeue_def new_audio_queue_def
        rn_worker_def aw_iteration_def aw_process_def fallback_chunk_raises th_alive_def
        case_prod_unfold Let_def)
qed

theorem dead_worker_is_final_witness:
  "rn_workers (fold (rn_exec toy_recognizer toy_vad_models)
       [Rn_watch \<lparr>wp_thread = None, wp_now = 10, wp_worker = (10, 10, 10, Inr (0, '''')),
                  wp_queue = (10, 10, 10, Inr (0, '''')), wp_vad = (10, 10, 10, Inr (0, ''''))\<rparr>,
        Rn_audio [1/100], Rn_worker 0 toy_input (\<lambda>_. Inr ())]
       (fold (rn_exec toy_recognizer toy_vad_models) dead_worker_run (new_runtime toy_vad_models False 0)))
     = [Th_finished]"
  by (rule dead_worker_is_final [THEN conjunct2, THEN mp, THEN conjunct1, OF _ refl dead_worker_run_dies])
    (simp add: dead_worker_run_def)

end
