(* ===== verification/Process_Entry.thy ===== *)
theory Process_Entry
  imports Supervisor Runtime_Threads
begin

text \<open>
  How the processes come up: \<^verbatim>\<open>main\<close> and \<^verbatim>\<open>Supervisor.start\<close> in \<^verbatim>\<open>src/runtime/supervisor/supervisor.py\<close>,
  the thread of \<^verbatim>\<open>WSServer\<close> in \<^verbatim>\<open>transport/websocket_server.py\<close>, the model files \<^verbatim>\<open>src/runtime/resources\<close>
  asks for, the two clocks of \<^verbatim>\<open>timing/clock.py\<close>, the handshake manifest and the heartbeat test. The
  arguments are those \<open>argparse\<close> returns; the operating system's answers are inputs.
\<close>

section \<open>The command line of the supervisor\<close>

record sup_args =
  sg_profile :: "string option"
  sg_max_restarts :: nat
  sg_restart_window :: nat
  sg_heartbeat_timeout :: pyfloat
  sg_ws_port :: nat
  sg_debug :: bool

definition main_worker_cmd :: "string \<Rightarrow> sup_args \<Rightarrow> string list" where
  "main_worker_cmd executable a =
     (let cmd = [executable, ''-m'', ''runtime.worker.worker_process''];
          cmd = (case sg_profile a of Some p \<Rightarrow> if p \<noteq> '''' then cmd @ [''--profile'', p] else cmd | None \<Rightarrow> cmd)
      in if sg_debug a then cmd @ [''--debug''] else cmd)"

text \<open>What \<open>_spawn_worker\<close> appends when there is an IPC server.\<close>

definition spawn_cmd :: "string list \<Rightarrow> (string \<times> string) option \<Rightarrow> string list" where
  "spawn_cmd worker_cmd ipc =
     (case ipc of Some (host, port) \<Rightarrow> worker_cmd @ [''--ipc-host'', host, ''--ipc-port'', port]
      | None \<Rightarrow> worker_cmd)"

definition main_supervisor :: "sup_args \<Rightarrow> supervisor" where
  "main_supervisor a =
     new_supervisor (sg_heartbeat_timeout a) (Some (new_restart_policy (sg_max_restarts a) (of_nat (sg_restart_window a))))"

section \<open>Starting the supervisor\<close>

text \<open>The loop over standard input. A line comes with whether the worker and its pipe are there, and the
  outcome of the write; the lines that reach the worker are returned.\<close>

fun stdin_proxy :: "(string \<times> bool \<times> (py_exc + unit)) list \<Rightarrow> string list" where
  "stdin_proxy [] = []"
| "stdin_proxy ((raw, present, write) # ls) =
     (if present
      then (case write of Inl e \<Rightarrow> stdin_proxy ls | Inr _ \<Rightarrow> raw # stdin_proxy ls)
      else stdin_proxy ls)"

text \<open>\<open>start\<close>: \<open>ipc_ok\<close> says whether the IPC server could be created, \<open>popen\<close> the answer of the operating
  system, \<open>lines\<close> what is read until the end of standard input, and \<open>others\<close> what the other threads
  do to the supervisor meanwhile.\<close>

definition sv_start ::
  "time_s \<Rightarrow> bool \<Rightarrow> nat option \<Rightarrow> (string \<times> bool \<times> (py_exc + unit)) list \<Rightarrow> (supervisor \<Rightarrow> supervisor) \<Rightarrow> supervisor
     \<Rightarrow> (py_exc + string list) \<times> supervisor" where
  "sv_start now ipc_ok popen lines others s =
     (let s = sv_emit (ev ''supervisor_starting'') s;
          s = s\<lparr>sv_stop := False\<rparr>;
          s = (if ipc_ok then s\<lparr>sv_ipc := True\<rparr> else s);
          (r, s) = sv_spawn_worker now popen s
      in case r of
           Inl e \<Rightarrow> (Inl e, s)
         | Inr _ \<Rightarrow> (Inr (stdin_proxy lines), sv_stop_all (others s)))"

text \<open>\<open>main\<close> stops the supervisor only when \<open>start\<close> is interrupted.\<close>

definition sv_main :: "(py_exc + string list) \<times> supervisor \<Rightarrow> (py_exc + unit) \<times> supervisor" where
  "sv_main outcome =
     (case outcome of
        (Inl KeyboardInterrupt, s) \<Rightarrow> (Inr (), sv_stop_all s)
      | (Inl e, s) \<Rightarrow> (Inl e, s)
      | (Inr _, s) \<Rightarrow> (Inr (), s))"

section \<open>The thread of the WebSocket server\<close>

record ws_thread =
  wt_thread :: "thread option"
  wt_event :: "bool option"

definition ws_start_in_thread :: "ws_thread \<Rightarrow> ws_thread" where
  "ws_start_in_thread w = w\<lparr>wt_thread := Some Th_running\<rparr>"

text \<open>\<open>_run_loop\<close> makes the loop and the stop event in the new thread, and \<open>_serve\<close> returns once the event is
  set.\<close>

definition ws_run_loop :: "ws_thread \<Rightarrow> ws_thread" where
  "ws_run_loop w = (if wt_thread w = Some Th_running then w\<lparr>wt_event := Some False\<rparr> else w)"

definition ws_serve_step :: "ws_thread \<Rightarrow> ws_thread" where
  "ws_serve_step w =
     (if wt_thread w = Some Th_running \<and> wt_event w = Some True then w\<lparr>wt_thread := Some Th_finished\<rparr> else w)"

definition ws_stop :: "bool \<Rightarrow> ws_thread \<Rightarrow> (py_exc + unit) \<times> ws_thread" where
  "ws_stop ends w =
     (let w = (if wt_event w \<noteq> None then w\<lparr>wt_event := Some True\<rparr> else w) in
      case wt_thread w of
        None \<Rightarrow> (Inr (), w)
      | Some t \<Rightarrow> (case th_join ends t of Inl e \<Rightarrow> (Inl e, w) | Inr t' \<Rightarrow> (Inr (), w\<lparr>wt_thread := Some t'\<rparr>)))"

section \<open>Resources\<close>

definition join_path :: "string \<Rightarrow> string \<Rightarrow> string" where
  "join_path d f = (if d = '''' \<or> last d = CHR ''/'' then d @ f else d @ ''/'' @ f)"

definition ASR_FILES :: "string list" where
  "ASR_FILES = [''encoder.onnx'', ''decoder.onnx'', ''joiner.onnx'', ''tokens.txt'']"

text \<open>The model files by role, with the settings passed on to the recognizer.\<close>

record recognizer_args =
  ra_paths :: "string list"
  ra_num_threads :: nat
  ra_sample_rate :: nat
  ra_rules :: "pyfloat list"

definition create_recognizer ::
  "(string \<Rightarrow> bool) \<Rightarrow> (recognizer_args \<Rightarrow> py_exc + 'r) \<Rightarrow> string \<Rightarrow> nat \<Rightarrow> nat \<Rightarrow> pyfloat list \<Rightarrow> py_exc + 'r" where
  "create_recognizer isfile from_transducer models_dir num_threads sample_rate rules =
     (let paths = map (join_path models_dir) ASR_FILES in
      case find (\<lambda>p. \<not> isfile p) paths of
        Some p \<Rightarrow> Inl (FileNotFoundError (''Model file missing: '' @ p))
      | None \<Rightarrow> from_transducer \<lparr>ra_paths = paths, ra_num_threads = num_threads, ra_sample_rate = sample_rate,
                                  ra_rules = rules\<rparr>)"

text \<open>\<open>SherpaStreamer._load_recognizer\<close>.\<close>

definition load_recognizer :: "(string \<Rightarrow> bool) \<Rightarrow> (recognizer_args \<Rightarrow> py_exc + 'r) \<Rightarrow> string \<Rightarrow> py_exc + 'r" where
  "load_recognizer isfile from_transducer models_dir =
     create_recognizer isfile from_transducer models_dir NUM_THREADS SAMPLE_RATE
       [ENDPOINT_RULE1_SILENCE, ENDPOINT_RULE2_SILENCE, ENDPOINT_RULE3_UTTERANCE]"

definition create_session :: "(string \<Rightarrow> bool) \<Rightarrow> (string \<Rightarrow> py_exc + 'm) \<Rightarrow> string \<Rightarrow> py_exc + 'm" where
  "create_session isfile inference_session models_dir =
     (let model_path = join_path models_dir ''silero_vad.onnx'' in
      if \<not> isfile model_path then Inl (FileNotFoundError (''Silero VAD model missing: '' @ model_path))
      else inference_session model_path)"

text \<open>The microphone: the arguments of \<^verbatim>\<open>sd.InputStream\<close>, whose outcome is a parameter, and those the streamer
  opens it with. A thread that the pool resources make is not started.\<close>

record input_stream_args =
  ia_channels :: nat
  ia_samplerate :: nat
  ia_dtype :: string
  ia_blocksize :: nat

definition create_input_stream ::
  "(input_stream_args \<Rightarrow> py_exc + 'h) \<Rightarrow> nat \<Rightarrow> nat \<Rightarrow> string \<Rightarrow> nat \<Rightarrow> py_exc + 'h" where
  "create_input_stream input_stream channels samplerate dtype blocksize =
     input_stream \<lparr>ia_channels = channels, ia_samplerate = samplerate, ia_dtype = dtype, ia_blocksize = blocksize\<rparr>"

definition open_microphone :: "(input_stream_args \<Rightarrow> py_exc + 'h) \<Rightarrow> py_exc + 'h" where
  "open_microphone input_stream = create_input_stream input_stream 1 SAMPLE_RATE ''float32'' BLOCK_SIZE"

record thread_spec =
  ts_name :: string
  ts_daemon :: bool
  ts_thread :: thread

definition create_thread :: "string \<Rightarrow> bool option \<Rightarrow> thread_spec" where
  "create_thread name daemon =
     \<lparr>ts_name = name, ts_daemon = (case daemon of None \<Rightarrow> True | Some d \<Rightarrow> d), ts_thread = Th_new\<rparr>"

section \<open>The clocks\<close>

text \<open>The module keeps a clock made when it is imported; the class keeps another, made by the first call of
  \<open>instance\<close>.\<close>

record clocks =
  ck_module :: time_s
  ck_instance :: "time_s option"

definition import_clock :: "time_s \<Rightarrow> clocks" where
  "import_clock now = \<lparr>ck_module = now, ck_instance = None\<rparr>"

text \<open>What the \<^verbatim>\<open>time\<close> module reads; the methods of the clock hand it on.\<close>

record time_readings =
  tr_time_ns :: int
  tr_time :: time_s
  tr_monotonic :: time_s

definition now_ns :: "time_readings \<Rightarrow> clocks \<Rightarrow> int" where
  "now_ns t c = tr_time_ns t"

definition now_s :: "time_readings \<Rightarrow> clocks \<Rightarrow> time_s" where
  "now_s t c = tr_time t"

definition monotonic :: "time_readings \<Rightarrow> clocks \<Rightarrow> time_s" where
  "monotonic t c = tr_monotonic t"

definition clock_instance :: "time_s \<Rightarrow> clocks \<Rightarrow> time_s \<times> clocks" where
  "clock_instance now c =
     (case ck_instance c of Some t \<Rightarrow> (t, c) | None \<Rightarrow> (now, c\<lparr>ck_instance := Some now\<rparr>))"

definition uptime_s :: "time_s \<Rightarrow> clocks \<Rightarrow> time_s" where
  "uptime_s now c = now - ck_module c"

definition instance_uptime_s :: "time_s \<Rightarrow> time_s \<Rightarrow> clocks \<Rightarrow> time_s" where
  "instance_uptime_s called now c = now - fst (clock_instance called c)"

section \<open>Small messages\<close>

definition get_manifest :: "string \<Rightarrow> string \<Rightarrow> (string, json) dict" where
  "get_manifest system version =
     [(''protocolVersion'', JStr ''1.0''), (''schemaVersion'', JNum 1),
      (''capabilities'', JObj [(''experimentMode'', JBool False), (''liveConfigReload'', JBool True),
         (''phraseRegistry'', JBool True), (''diagnosticsAPI'', JBool True), (''profileValidation'', JBool True)]),
      (''platform'', JStr (py_lower system)), (''pythonVersion'', JStr (hd (py_split version)))]"

definition is_heartbeat :: "json \<Rightarrow> bool" where
  "is_heartbeat obj = (case obj of JObj d \<Rightarrow> jget d ''event'' JNull = JStr ''heartbeat'' | _ \<Rightarrow> False)"

section \<open>What follows\<close>

lemma stdin_proxy_eq:
  "stdin_proxy ls = map fst (filter (\<lambda>(raw, present, write). present \<and> write = Inr ()) ls)"
  by (induction ls rule: stdin_proxy.induct) (auto split: sum.splits)

text \<open>When standard input ends the supervisor stops, having passed on, in order, exactly the lines for which
  there was a worker that took them. When the first worker cannot be spawned \<open>start\<close> raises and
  \<open>main\<close> lets it: nothing has been stopped.\<close>

theorem supervisor_lifetime:
  "(\<forall>e. fst (sv_start now ipc_ok popen lines others s) = Inl e \<longleftrightarrow> popen = None \<and> e = OSError ''Popen'')
   \<and> (let (r, s') = sv_main (sv_start now ipc_ok popen lines others s) in
        (popen \<noteq> None \<longrightarrow> r = Inr () \<and> sv_stop s' \<and> last (sv_emitted s') = JObj (ev ''supervisor_stopped''))
      \<and> (popen = None \<longrightarrow> r = Inl (OSError ''Popen'') \<and> \<not> sv_stop s'))"
  by (cases popen) (auto simp: sv_start_def sv_main_def sv_spawn_worker_def sv_emit_def sv_stop_all_def ev_def Let_def)

lemma supervisor_forwards:
  "popen = Some pid \<Longrightarrow> fst (sv_start now ipc_ok popen lines others s)
     = Inr (map fst (filter (\<lambda>(raw, present, write). present \<and> write = Inr ()) lines))"
  by (simp add: sv_start_def sv_spawn_worker_def stdin_proxy_eq Let_def)

text \<open>The limit given on the command line is the one the first throttle has.\<close>

lemma main_throttle: "rs_max_restarts (sv_restart_policy (main_supervisor a)) = sg_max_restarts a"
  by (simp add: main_supervisor_def new_supervisor_def new_restart_policy_def)

text \<open>A server stopped before its thread has made the stop event is not stopped.\<close>

lemma ws_stopped_too_early:
  "let w = ws_serve_step (ws_run_loop (snd (ws_stop False (ws_start_in_thread \<lparr>wt_thread = None, wt_event = None\<rparr>))))
   in wt_thread w = Some Th_running \<and> wt_event w = Some False"
  by (simp add: ws_start_in_thread_def ws_stop_def ws_run_loop_def ws_serve_step_def Let_def)

lemma ws_stopped_in_time:
  "wt_thread w = Some Th_running \<Longrightarrow> wt_event w = Some b \<Longrightarrow>
     wt_thread (ws_serve_step (snd (ws_stop False w))) = Some Th_finished"
  by (simp add: ws_stop_def ws_serve_step_def Let_def)

text \<open>A recognizer is only made when its four files are there, and else the first missing one is named.\<close>

lemma recognizer_needs_files:
  "load_recognizer isfile f d = Inr r \<Longrightarrow> \<forall>n\<in>set ASR_FILES. isfile (join_path d n)"
  by (auto simp: load_recognizer_def create_recognizer_def find_None_iff Let_def split: option.splits)

text \<open>The two clocks differ: the uptime of the class's clock starts with the first call of \<open>instance\<close>, not with
  the first clock that is made.\<close>

lemma clock_uptimes_differ:
  "t0 < t1 \<Longrightarrow> t1 \<le> t2 \<Longrightarrow> instance_uptime_s t1 t2 (import_clock t0) < uptime_s t2 (import_clock t0)"
  by (simp add: instance_uptime_s_def clock_instance_def import_clock_def uptime_s_def)

end
