(* ===== verification/Stress_Gates.thy ===== *)
theory Stress_Gates
  imports Ava_Contracts Json_Value
begin

text \<open>
  \<^verbatim>\<open>src/scripts/stress_monitor.py\<close> and \<^verbatim>\<open>src/scripts/lifecycle_stress.py\<close>: what the two stress gates
  conclude from what they observed. The engine under test, the thread counts, the memory readings
  and the clock are inputs; the text of the reports is left out, except for the entries it reads.
\<close>

section \<open>The stress monitor\<close>

text \<open>A sample. An entry whose access failed (\<open>except: pass\<close>) is not in the dictionary.\<close>

record snap =
  sx_n :: nat
  sx_elapsed :: pyfloat
  sx_mem_mb :: pyfloat
  sx_threads :: nat
  sx_ts :: string
  sx_health :: pyfloat
  sx_state :: "json option"
  sx_asr :: "json option"
  sx_audio :: "json option"
  sx_vad :: "json option"
  sx_qd :: "nat option"
  sx_gen :: "nat option"
  sx_resets :: "nat option"
  sx_worker :: "bool option"
  sx_idle_ms :: "pyfloat option"
  sx_proc_ms :: "pyfloat option"

text \<open>The dictionary \<open>_trend\<close> returns; the entry \<open>delta\<close> is not in it when there are fewer than three
  samples.\<close>

record trend =
  tr_slope :: pyfloat
  tr_r2 :: pyfloat
  tr_verdict :: string
  tr_min :: pyfloat
  tr_max :: pyfloat
  tr_delta :: "pyfloat option"

definition py_min :: "pyfloat \<Rightarrow> pyfloat list \<Rightarrow> pyfloat" where
  "py_min x xs = foldr min xs x"

definition sum_xy :: "(pyfloat \<times> pyfloat) list \<Rightarrow> pyfloat" where
  "sum_xy ps = (\<Sum>(x, y)\<leftarrow>ps. x * y)"

definition sum_xx :: "(pyfloat \<times> pyfloat) list \<Rightarrow> pyfloat" where
  "sum_xx ps = (\<Sum>(x, y)\<leftarrow>ps. x * x)"

text \<open>Lines 68 to 74 on the pairs (elapsed, memory): the slope per second, the intercept and \<open>r2\<close>.\<close>

definition residual :: "pyfloat \<Rightarrow> pyfloat \<Rightarrow> (pyfloat \<times> pyfloat) list \<Rightarrow> pyfloat" where
  "residual a b ps = (\<Sum>(x, y)\<leftarrow>ps. (y - (a * x + b)) ^ 2)"

definition trend_den :: "(pyfloat \<times> pyfloat) list \<Rightarrow> pyfloat" where
  "trend_den ps = of_nat (length ps) * sum_xx ps - sum_list (map fst ps) * sum_list (map fst ps)"

definition trend_fit :: "(pyfloat \<times> pyfloat) list \<Rightarrow> pyfloat \<times> pyfloat \<times> pyfloat" where
  "trend_fit ps =
     (let n = of_nat (length ps); sx = sum_list (map fst ps); sy = sum_list (map snd ps);
          sxy = sum_xy ps; den = trend_den ps;
          slope = (if 1/1000000000 < abs den then (n * sxy - sx * sy) / den else 0);
          ym = sy / n; sst = (\<Sum>(x, y)\<leftarrow>ps. (y - ym) ^ 2);
          intercept = (if 1/1000000000 < abs den then (sy - slope * sx) / n else 0);
          ssr = residual slope intercept ps;
          r2 = (if 1/1000000000 < sst then 1 - ssr / sst else 0)
      in (slope, intercept, r2))"

definition trend_verdict :: "pyfloat \<Rightarrow> pyfloat \<Rightarrow> string" where
  "trend_verdict slope_pm r2 =
     (if 10 < abs slope_pm \<and> 8/10 < r2 then ''LEAK_DETECTED''
      else if 5 < abs slope_pm \<and> 7/10 < r2 then ''GROWTH_WARNING''
      else ''STABLE'')"

definition sm_trend :: "snap list \<Rightarrow> trend" where
  "sm_trend snaps =
     (let ys = map sx_mem_mb snaps; ps = map (\<lambda>s. (sx_elapsed s, sx_mem_mb s)) snaps;
          lo = (if ys = [] then 0 else py_min (hd ys) (tl ys)); hi = (if ys = [] then 0 else py_max (hd ys) (tl ys))
      in if length snaps < 3
         then \<lparr>tr_slope = 0, tr_r2 = 0, tr_verdict = ''INSUFFICIENT_DATA'', tr_min = lo, tr_max = hi, tr_delta = None\<rparr>
         else let (slope, intercept, r2) = trend_fit ps; slope_pm = slope * 60
              in \<lparr>tr_slope = py_round 3 slope_pm, tr_r2 = py_round 3 r2, tr_verdict = trend_verdict slope_pm r2,
                  tr_min = py_round 2 lo, tr_max = py_round 2 hi, tr_delta = Some (py_round 2 (hi - lo))\<rparr>)"

definition sm_ok :: "snap list \<Rightarrow> nat \<Rightarrow> nat \<Rightarrow> bool" where
  "sm_ok snaps deaths overflows \<longleftrightarrow>
     deaths = 0 \<and> overflows = 0 \<and> tr_verdict (sm_trend snaps) \<in> {''STABLE'', ''INSUFFICIENT_DATA''}"

text \<open>\<open>_report\<close>: the verdict it writes. The text reads every entry of the trend, \<open>delta\<close> too.\<close>

definition sm_report :: "snap list \<Rightarrow> nat \<Rightarrow> nat \<Rightarrow> py_exc + string" where
  "sm_report snaps deaths overflows =
     (case tr_delta (sm_trend snaps) of
        None \<Rightarrow> Inl (KeyError ''delta'')
      | Some _ \<Rightarrow> Inr (if sm_ok snaps deaths overflows then ''PASS'' else ''FAIL''))"

text \<open>The sampling loop of \<open>main\<close>: a pass reads the clock for the loop condition, then again, and takes a
  sample when the next one is due.\<close>

record sampler =
  sa_snaps :: "snap list"
  sa_deaths :: nat
  sa_overflows :: nat
  sa_next :: time_s

record sample_pass =
  sp_cond :: time_s
  sp_now :: time_s
  sp_snap :: snap

definition sample_step :: "pyfloat \<Rightarrow> sample_pass \<Rightarrow> sampler \<Rightarrow> sampler" where
  "sample_step interval p a =
     (if sa_next a \<le> sp_now p
      then let s = sp_snap p in
           \<lparr>sa_snaps = sa_snaps a @ [s],
            sa_deaths = (if sx_worker s = Some False then sa_deaths a + 1 else sa_deaths a),
            sa_overflows = (case sx_qd s of Some q \<Rightarrow> if 30 < q then sa_overflows a + 1 else sa_overflows a
                            | None \<Rightarrow> sa_overflows a),
            sa_next = sp_now p + interval\<rparr>
      else a)"

fun sample_loop :: "time_s \<Rightarrow> pyfloat \<Rightarrow> sample_pass list \<Rightarrow> sampler \<Rightarrow> sampler" where
  "sample_loop deadline interval [] a = a"
| "sample_loop deadline interval (p # ps) a =
     (if sp_cond p < deadline then sample_loop deadline interval ps (sample_step interval p a) else a)"

definition new_sampler :: "time_s \<Rightarrow> pyfloat \<Rightarrow> sampler" where
  "new_sampler t0 interval = \<lparr>sa_snaps = [], sa_deaths = 0, sa_overflows = 0, sa_next = t0 + interval\<rparr>"

text \<open>The end of \<open>main\<close>: stop the engine, write the report, return the exit code.\<close>

definition sm_finish :: "py_exc + unit \<Rightarrow> sampler \<Rightarrow> py_exc + nat" where
  "sm_finish engine_stop a =
     sbind engine_stop (\<lambda>_.
     sbind (sm_report (sa_snaps a) (sa_deaths a) (sa_overflows a)) (\<lambda>_.
     Inr (if sm_ok (sa_snaps a) (sa_deaths a) (sa_overflows a) then 0 else 1)))"

section \<open>The lifecycle stress test\<close>

record cycle_result =
  cy_cycle :: nat
  cy_elapsed :: pyfloat
  cy_orphan :: bool
  cy_leak :: nat
  cy_residue :: nat
  cy_error :: "string option"
  cy_pass :: bool
  cy_status :: string

text \<open>The observations of one cycle: the outcomes of the constructor with \<open>load_profile\<close> and of \<open>stop\<close>, as
  the text of the exception they raise, whether the engine's thread is alive after the join, how long the
  cycle took, and the thread counts.\<close>

record cycle_obs =
  co_create :: "string + unit"
  co_stop :: "string + unit"
  co_alive :: bool
  co_elapsed :: pyfloat
  co_before :: int
  co_after :: int

definition run_one_cycle :: "cycle_obs \<Rightarrow> nat \<Rightarrow> cycle_result" where
  "run_one_cycle x cycle =
     (let (err, orphan) = (case sbind (co_create x) (\<lambda>_. co_stop x) of
                             Inl e \<Rightarrow> (Some e, False) | Inr _ \<Rightarrow> (None, co_alive x));
          leak = nat (max 0 (co_after x - co_before x));
          (pass, status) = (if \<not> orphan \<and> err = None
             then (if cycle = 1 \<and> leak \<le> 2 then (True, ''BASELINE_INITIALIZATION'')
                   else if leak \<le> 1 then (True, ''PASS'') else (False, ''FAIL''))
             else (False, ''FAIL''))
      in \<lparr>cy_cycle = cycle, cy_elapsed = py_round 3 (co_elapsed x), cy_orphan = orphan, cy_leak = leak,
          cy_residue = 0, cy_error = err, cy_pass = pass, cy_status = status\<rparr>)"

fun run_cycles :: "nat \<Rightarrow> cycle_obs list \<Rightarrow> cycle_result list" where
  "run_cycles i [] = []"
| "run_cycles i (x # xs) = run_one_cycle x i # run_cycles (i + 1) xs"

text \<open>An error counts when its text is not empty.\<close>

definition error_count :: "cycle_result list \<Rightarrow> nat" where
  "error_count rs = length (filter (\<lambda>r. case cy_error r of None \<Rightarrow> False | Some e \<Rightarrow> e \<noteq> '''') rs)"

definition orphan_count :: "cycle_result list \<Rightarrow> nat" where
  "orphan_count rs = length (filter cy_orphan rs)"

definition all_pass :: "cycle_result list \<Rightarrow> bool" where
  "all_pass rs \<longleftrightarrow> length (filter (\<lambda>r. \<not> cy_pass r) rs) = 0 \<and> orphan_count rs = 0 \<and> error_count rs = 0"

text \<open>\<open>main\<close>: the exit code. Without a cycle the average divides by zero.\<close>

definition lifecycle_main :: "cycle_obs list \<Rightarrow> py_exc + nat" where
  "lifecycle_main xs =
     (let rs = run_cycles 1 xs in
      if rs = [] then Inl (OtherException ''ZeroDivisionError'')
      else Inr (if all_pass rs then 0 else 1))"

text \<open>The cycles the table shows: the first and the last ten, and the failures.\<close>

definition shown :: "nat \<Rightarrow> cycle_result list \<Rightarrow> cycle_result list" where
  "shown cycles rs =
     (let sel = \<lambda>c::int. (1 \<le> c \<and> c < 11) \<or> (int cycles - 9 \<le> c \<and> c < int cycles + 1)
            \<or> c \<in> int ` set (map cy_cycle (filter (\<lambda>r. \<not> cy_pass r) rs))
      in filter (\<lambda>r. sel (int (cy_cycle r))) rs)"

section \<open>Least squares\<close>

lemma sum_list_zero_mult: "(\<Sum>p\<leftarrow>ps. (c :: rat) * f p) = c * (\<Sum>p\<leftarrow>ps. f p)"
  by (rule sum_list_const_mult)

lemma residual_Cons: "residual a b ((x, y) # ps) = (y - (a * x + b)) ^ 2 + residual a b ps"
  by (simp add: residual_def)

lemma residual_nonneg: "0 \<le> residual a b ps"
  by (induction ps) (auto simp: residual_Cons, simp add: residual_def)

text \<open>Moving the line by \<open>(d, e)\<close> changes the residual by a square and a term linear in the sums the normal
  equations make zero.\<close>

lemma residual_shift:
  "residual (a + d) (b + e) ps = residual a b ps + (\<Sum>(x, y)\<leftarrow>ps. (d * x + e) ^ 2)
     - 2 * d * (\<Sum>(x, y)\<leftarrow>ps. (y - (a * x + b)) * x) - 2 * e * (\<Sum>(x, y)\<leftarrow>ps. y - (a * x + b))"
proof (induction ps)
  case (Cons p ps)
  obtain x y where p: "p = (x, y)" by (cases p)
  show ?case
    unfolding p residual_Cons Cons.IH
    by (simp add: power2_eq_square algebra_simps)
qed (simp add: residual_def)

lemma normal_sums:
  "(\<Sum>(x, y)\<leftarrow>ps. y - (a * x + b))
     = sum_list (map snd ps) - a * sum_list (map fst ps) - of_nat (length ps) * b"
  "(\<Sum>(x, y)\<leftarrow>ps. (y - (a * x + b)) * x)
     = sum_xy ps - a * sum_xx ps - b * sum_list (map fst ps)"
  by (induction ps) (auto simp: sum_xy_def sum_xx_def algebra_simps)

lemma squares_nonneg: "0 \<le> (\<Sum>(x, y)\<leftarrow>ps. ((d :: rat) * x + e) ^ 2)"
  by (induction ps) auto

lemma normal_equations:
  assumes "ps \<noteq> []" "1/1000000000 < abs (trend_den ps)" "trend_fit ps = (a, b, r2)"
  shows "(\<Sum>(x, y)\<leftarrow>ps. y - (a * x + b)) = 0" "(\<Sum>(x, y)\<leftarrow>ps. (y - (a * x + b)) * x) = 0"
proof -
  let ?n = "of_nat (length ps) :: rat" and ?sx = "sum_list (map fst ps)" and ?sy = "sum_list (map snd ps)"
  have n: "?n \<noteq> 0" using assms(1) by simp
  have den: "trend_den ps \<noteq> 0" using assms(2) by auto
  have a: "a = (?n * sum_xy ps - ?sx * ?sy) / trend_den ps" and b: "b = (?sy - a * ?sx) / ?n"
    using assms(2,3) by (auto simp: trend_fit_def Let_def)
  have nb: "?n * b = ?sy - a * ?sx" using b n by simp
  have sy: "?sy = ?n * b + a * ?sx" using nb by simp
  have da: "a * trend_den ps = ?n * sum_xy ps - ?sx * ?sy" using a den by simp
  show "(\<Sum>(x, y)\<leftarrow>ps. y - (a * x + b)) = 0" by (simp add: normal_sums nb)
  have "?n * (sum_xy ps - a * sum_xx ps - b * ?sx) = ?n * sum_xy ps - a * (?n * sum_xx ps) - (?n * b) * ?sx"
    by (simp add: algebra_simps)
  also have "\<dots> = ?n * sum_xy ps - ?sx * ?sy - a * trend_den ps"
    unfolding sy trend_den_def by (simp add: algebra_simps)
  also have "\<dots> = 0" by (simp add: da)
  finally show "(\<Sum>(x, y)\<leftarrow>ps. (y - (a * x + b)) * x) = 0" using n by (simp add: normal_sums)
qed

text \<open>No other line leaves a smaller sum of squared residuals.\<close>

lemma fit_minimal:
  assumes "1/1000000000 < abs (trend_den ps)" "trend_fit ps = (a, b, r2)"
  shows "residual a b ps \<le> residual a' b' ps"
proof (cases "ps = []")
  case False
  have "residual (a + (a' - a)) (b + (b' - b)) ps
      = residual a b ps + (\<Sum>(x, y)\<leftarrow>ps. ((a' - a) * x + (b' - b)) ^ 2)"
    using normal_equations [OF False assms] by (subst residual_shift) simp
  with squares_nonneg [of "a' - a" "b' - b" ps] show ?thesis by simp
qed (simp add: residual_def)


lemma sst_residual: "(\<Sum>(x, y)\<leftarrow>ps. (y - c) ^ 2) = residual 0 c ps"
  by (simp add: residual_def)

lemma fit_r2_bounds:
  assumes "1/1000000000 < abs (trend_den ps)" "trend_fit ps = (a, b, r2)"
  shows "0 \<le> r2 \<and> r2 \<le> 1"
proof -
  let ?c = "sum_list (map snd ps) / of_nat (length ps)"
  have r2: "r2 = (if 1/1000000000 < residual 0 ?c ps then 1 - residual a b ps / residual 0 ?c ps else 0)"
    using assms by (auto simp: trend_fit_def Let_def sst_residual)
  have "residual a b ps \<le> residual 0 ?c ps" using assms by (rule fit_minimal)
  then show ?thesis
    using residual_nonneg [of a b ps] by (auto simp: r2 divide_le_eq_1)
qed

lemma line_sums:
  "(\<And>x y. (x, y) \<in> set ps \<Longrightarrow> y = c * x + d) \<Longrightarrow>
     sum_list (map snd ps) = c * sum_list (map fst ps) + of_nat (length ps) * d
   \<and> sum_xy ps = c * sum_xx ps + d * sum_list (map fst ps)"
proof (induction ps)
  case (Cons p ps)
  obtain x y where p: "p = (x, y)" by (cases p)
  have y: "y = c * x + d" by (rule Cons.prems) (simp add: p)
  have IH: "sum_list (map snd ps) = c * sum_list (map fst ps) + of_nat (length ps) * d
      \<and> sum_xy ps = c * sum_xx ps + d * sum_list (map fst ps)"
    by (rule Cons.IH) (auto intro: Cons.prems)
  then show ?case
    by (simp add: p y sum_xy_def sum_xx_def algebra_simps)
qed (simp add: sum_xy_def sum_xx_def)

text \<open>Samples on a line: the slope is the line's, whatever the spacing, and the fit is perfect.\<close>

lemma trend_on_line:
  assumes den: "1/1000000000 < abs (trend_den ps)" and line: "\<And>x y. (x, y) \<in> set ps \<Longrightarrow> y = c * x + d"
    and fit: "trend_fit ps = (a, b, r2)" and var: "1/1000000000 < (\<Sum>(x, y)\<leftarrow>ps. (y - sum_list (map snd ps) / of_nat (length ps)) ^ 2)"
  shows "a = c \<and> r2 = 1"
proof -
  have "residual c d ps = 0" using line by (induction ps) (auto simp: residual_def)
  with fit_minimal [OF den fit, of c d] residual_nonneg [of a b ps] have zero: "residual a b ps = 0" by simp
  have sums: "sum_list (map snd ps) = c * sum_list (map fst ps) + of_nat (length ps) * d"
    "sum_xy ps = c * sum_xx ps + d * sum_list (map fst ps)"
    using line_sums [of ps c d] line by blast+
  have "of_nat (length ps) * sum_xy ps - sum_list (map fst ps) * sum_list (map snd ps) = c * trend_den ps"
    by (simp add: sums trend_den_def algebra_simps)
  moreover have "trend_den ps \<noteq> 0" using den by auto
  ultimately show ?thesis
    using fit den var zero by (auto simp: trend_fit_def Let_def)
qed



section \<open>What the gates decide\<close>

text \<open>A run too short for three samples passes the criteria but cannot be reported.\<close>

lemma short_run_unreportable:
  "length snaps < 3 \<Longrightarrow> sm_report snaps 0 0 = Inl (KeyError ''delta'') \<and> sm_ok snaps 0 0"
  by (simp add: sm_report_def sm_ok_def sm_trend_def Let_def)

lemma length_run_cycles [simp]: "length (run_cycles i xs) = length xs"
  by (induction i xs rule: run_cycles.induct) simp_all

lemma nth_run_cycles: "k < length xs \<Longrightarrow> run_cycles i xs ! k = run_one_cycle (xs ! k) (i + k)"
  by (induction i xs arbitrary: k rule: run_cycles.induct) (auto simp: nth_Cons split: nat.splits)

lemma run_one_cycle_pass:
  "cy_pass (run_one_cycle x i) \<longleftrightarrow>
     co_create x = Inr () \<and> co_stop x = Inr () \<and> \<not> co_alive x
   \<and> co_after x - co_before x \<le> (if i = 1 then 2 else 1)"
  by (cases "co_create x"; cases "co_stop x") (auto simp: run_one_cycle_def Let_def)

lemma run_one_cycle_errors:
  "cy_pass (run_one_cycle x i) \<Longrightarrow> \<not> cy_orphan (run_one_cycle x i) \<and> cy_error (run_one_cycle x i) = None"
  by (auto simp: run_one_cycle_def Let_def split: sum.splits if_splits)

lemma all_pass_iff: "all_pass (run_cycles i xs) \<longleftrightarrow> (\<forall>r\<in>set (run_cycles i xs). cy_pass r)"
proof -
  have "\<not> cy_orphan r \<and> cy_error r = None" if "r \<in> set (run_cycles i xs)" "cy_pass r" for r
    using that by (induction i xs rule: run_cycles.induct) (auto simp: run_one_cycle_errors)
  then show ?thesis
    by (auto simp: all_pass_def orphan_count_def error_count_def filter_empty_conv)
qed

text \<open>The gate's exit code is 0 exactly when every cycle stopped its engine without an error or an orphan
  and left at most one thread more than it found (two in the first).\<close>

theorem lifecycle_gate_exact:
  "lifecycle_main (x # xs) = Inr 0 \<longleftrightarrow>
     (\<forall>k < length (x # xs). cy_pass (run_one_cycle ((x # xs) ! k) (k + 1)))"
proof -
  have "lifecycle_main (x # xs) = Inr 0 \<longleftrightarrow> (\<forall>r\<in>set (run_cycles 1 (x # xs)). cy_pass r)"
    using all_pass_iff [of 1 "x # xs"] by (simp add: lifecycle_main_def Let_def)
  also have "\<dots> \<longleftrightarrow> (\<forall>k < length (x # xs). cy_pass (run_one_cycle ((x # xs) ! k) (1 + k)))"
    unfolding all_set_conv_all_nth by (simp add: nth_run_cycles del: run_cycles.simps cong: conj_cong)
  finally show ?thesis by simp
qed

text \<open>An engine without a \<open>stop\<close> method fails every cycle, so the gate cannot pass.\<close>

lemma engine_without_stop_fails:
  assumes "co_stop x = Inl e"
  shows "lifecycle_main (x # xs) = Inr 1"
proof -
  have "\<not> cy_pass (run_one_cycle x 1)" using assms by (simp add: run_one_cycle_pass)
  then have "lifecycle_main (x # xs) \<noteq> Inr 0" unfolding lifecycle_gate_exact by force
  then show ?thesis by (auto simp: lifecycle_main_def Let_def)
qed

text \<open>A thread leaked in every cycle passes the gate: a hundred cycles may leave a hundred threads and more.\<close>

definition leaky_cycle :: cycle_obs where
  "leaky_cycle = \<lparr>co_create = Inr (), co_stop = Inr (), co_alive = False, co_elapsed = 0, co_before = 0, co_after = 1\<rparr>"

lemma leaks_accepted: "lifecycle_main (replicate (Suc n) leaky_cycle) = Inr 0"
proof -
  have "\<forall>k < Suc n. cy_pass (run_one_cycle (replicate (Suc n) leaky_cycle ! k) (k + 1))"
    by (auto simp: run_one_cycle_pass leaky_cycle_def simp del: replicate_Suc)
  then show ?thesis using lifecycle_gate_exact [of leaky_cycle "replicate n leaky_cycle"] by simp
qed

text \<open>Every failed cycle is in the table.\<close>

lemma failures_shown: "r \<in> set rs \<Longrightarrow> \<not> cy_pass r \<Longrightarrow> r \<in> set (shown n rs)"
  by (auto simp: shown_def Let_def)

end
