(* ===== verification/Repo_Gates.thy ===== *)
theory Repo_Gates
  imports Json_Text
begin

text \<open>
  The other gates of \<^verbatim>\<open>src/scripts\<close>: \<^verbatim>\<open>verify_startup.py\<close> (does a spawned process reach the ready state),
  \<^verbatim>\<open>wake_regression.py\<close> (the counts of three test suites), \<^verbatim>\<open>check_identity.py\<close> and
  \<^verbatim>\<open>check_clock_usage.py\<close> (line scanners), \<^verbatim>\<open>check_baseline_integrity.py\<close> and \<^verbatim>\<open>gen_manifest.py\<close>. The child
  process, the test suites, the file system and the hash are inputs. Paths are POSIX paths.
\<close>

section \<open>Startup verification\<close>

text \<open>A signal: its description, whether it is looked for on standard output, and the text.\<close>

definition STARTUP_SIGNALS :: "(string \<times> bool \<times> string) list" where
  "STARTUP_SIGNALS =
     [(''Sherpa model loaded'', False, ''Model loaded''),
      (''Mic opened'', False, ''Mic open''),
      (''Engine started'', False, ''AVAListener engine started''),
      (''status=ready emitted'', True, [CHR 0x22] @ ''ready'' @ [CHR 0x22]),
      (''Heartbeat emitted'', True, [CHR 0x22] @ ''heartbeat'' @ [CHR 0x22])]"

definition find_python :: "string option \<Rightarrow> (string \<Rightarrow> bool) \<Rightarrow> string list \<Rightarrow> string \<Rightarrow> string" where
  "find_python env_override isfile candidates executable =
     (case env_override of
        Some p \<Rightarrow> if p \<noteq> '''' \<and> isfile p then p
                  else (case find isfile candidates of Some c \<Rightarrow> c | None \<Rightarrow> executable)
      | None \<Rightarrow> (case find isfile candidates of Some c \<Rightarrow> c | None \<Rightarrow> executable))"

text \<open>What a look at the child shows: the lines read so far and its exit code, if it has exited.\<close>

record child =
  ch_out :: "string list"
  ch_err :: "string list"
  ch_exit :: "int option"

definition signal_found :: "child \<Rightarrow> string \<times> bool \<times> string \<Rightarrow> bool" where
  "signal_found c s =
     (case s of (desc, on_stdout, needle) \<Rightarrow>
        sublist needle (py_join [CHR 0x0A] (if on_stdout then ch_out c else ch_err c)))"

definition all_signals :: "child \<Rightarrow> bool" where
  "all_signals c \<longleftrightarrow> length (filter (signal_found c) STARTUP_SIGNALS) = length STARTUP_SIGNALS"

text \<open>The waiting loop, over the looks taken before the deadline.\<close>

fun startup_wait :: "child list \<Rightarrow> bool" where
  "startup_wait [] = False"
| "startup_wait (c # cs) =
     (if all_signals c then True else if ch_exit c \<noteq> None then False else startup_wait cs)"

definition expected_exit :: "bool \<Rightarrow> int option \<Rightarrow> bool" where
  "expected_exit kill_after code \<longleftrightarrow>
     code \<in> {None, Some 0, Some (-15), Some (-9)} \<or> kill_after \<and> code = Some 1"

definition verify_startup :: "bool \<Rightarrow> bool \<Rightarrow> child list \<Rightarrow> child \<Rightarrow> nat" where
  "verify_startup main_exists kill_after looks final =
     (if \<not> main_exists then 1
      else
        let all_signals_found = startup_wait looks;
            all_pass = fold (\<lambda>s ok. if signal_found final s then ok else False) STARTUP_SIGNALS True;
            all_pass = (if expected_exit kill_after (ch_exit final) then all_pass else False)
        in if \<not> all_signals_found \<and> \<not> all_pass then 1
           else if \<not> all_signals_found then 2
           else if all_pass then 0 else 1)"

section \<open>The regression report\<close>

record counts =
  ct_passed :: nat
  ct_total :: nat
  ct_failed :: int

text \<open>The regular expression \<^verbatim>\<open>(\d+)/(\d+)\s+passed\<close> at a position, then at the first position it matches.\<close>

definition count_at :: "string \<Rightarrow> (nat \<times> nat) option" where
  "count_at s =
     (let d1 = takeWhile is_digit s; r1 = dropWhile is_digit s in
      if d1 = [] \<or> r1 = [] \<or> hd r1 \<noteq> CHR ''/'' then None
      else let d2 = takeWhile is_digit (tl r1); r2 = dropWhile is_digit (tl r1) in
           if d2 = [] \<or> takeWhile is_space r2 = [] \<or> \<not> prefix ''passed'' (dropWhile is_space r2) then None
           else Some (digits_value d1, digits_value d2))"

fun count_search :: "string \<Rightarrow> (nat \<times> nat) option" where
  "count_search [] = None"
| "count_search (c # cs) = (case count_at (c # cs) of Some x \<Rightarrow> Some x | None \<Rightarrow> count_search cs)"

fun parse_lines :: "string list \<Rightarrow> counts" where
  "parse_lines [] = \<lparr>ct_passed = 0, ct_total = 0, ct_failed = 0\<rparr>"
| "parse_lines (l # ls) =
     (if sublist ''Results:'' l \<and> sublist ''passed'' l
      then (case count_search l of
              Some (p, t) \<Rightarrow> \<lparr>ct_passed = p, ct_total = t, ct_failed = int t - int p\<rparr>
            | None \<Rightarrow> parse_lines ls)
      else parse_lines ls)"

definition parse_counts :: "string \<Rightarrow> counts" where
  "parse_counts output = parse_lines (py_splitlines output)"

text \<open>\<open>main\<close>: what the three suites print or return, and the exit code.\<close>

definition regression_main :: "string \<Rightarrow> nat \<times> nat \<Rightarrow> bool \<times> bool \<times> bool \<Rightarrow> string \<Rightarrow> nat" where
  "regression_main output_smoke replay oks output_pipeline =
     (let counts_smoke = parse_counts output_smoke;
          smoke_ok = (ct_failed counts_smoke = 0 \<and> 0 < ct_total counts_smoke);
          (rp, rf) = replay;
          replay_ok = (rf = 0 \<and> 0 < rp + rf);
          (anchor_ok, variant_ok, pipeline_ok) = oks;
          pipeline_pass = (anchor_ok \<and> variant_ok \<and> pipeline_ok \<and> ct_failed (parse_counts output_pipeline) = 0)
      in if smoke_ok \<and> replay_ok \<and> pipeline_pass then 0 else 1)"

section \<open>Line scanners\<close>

definition py_rstrip :: "string \<Rightarrow> string" where
  "py_rstrip s = rev (dropWhile is_space (rev s))"

definition IDENTITY_FORBIDDEN :: "string list" where
  "IDENTITY_FORBIDDEN = [''arvsal'', ''jarvis'', ''friday'']"

text \<open>\<open>str.count\<close> of the docstring quotes: non-overlapping occurrences.\<close>

fun count_quotes :: "string \<Rightarrow> nat" where
  "count_quotes (a # b # c # s) =
     (if a = CHR 0x22 \<and> b = CHR 0x22 \<and> c = CHR 0x22 then Suc (count_quotes s) else count_quotes (b # c # s))"
| "count_quotes s = 0"

text \<open>One line: the state is whether the scan is inside a docstring; the result the names found.\<close>

definition identity_line :: "bool \<Rightarrow> string \<Rightarrow> bool \<times> string list" where
  "identity_line in_triple line =
     (let stripped = py_strip line in
      if prefix ''#'' stripped then (in_triple, [])
      else
        let cnt = count_quotes stripped;
            in_triple = (if 2 \<le> cnt then in_triple else if cnt = 1 then \<not> in_triple else in_triple)
        in if in_triple then (in_triple, [])
           else (in_triple, filter (\<lambda>name. sublist name (py_lower line)) IDENTITY_FORBIDDEN))"

fun identity_lines :: "nat \<Rightarrow> bool \<Rightarrow> string list \<Rightarrow> (nat \<times> string) list" where
  "identity_lines n in_triple [] = []"
| "identity_lines n in_triple (l # ls) =
     (let (t, names) = identity_line in_triple l in map (\<lambda>_. (n, py_rstrip l)) names @ identity_lines (n + 1) t ls)"

definition identity_scan :: "(string \<times> string list) list \<Rightarrow> (string \<times> nat \<times> string) list" where
  "identity_scan files =
     concat (map (\<lambda>(path, ls). map (\<lambda>v. (path, v)) (identity_lines 1 False ls))
       (filter (\<lambda>(path, ls). suffix ''.py'' path) files))"

definition CLOCK_FORBIDDEN :: "string list" where
  "CLOCK_FORBIDDEN = [''time.time('', ''time.monotonic('', ''datetime.now('', ''datetime.utcnow('']"

definition EXEMPTED_PATHS :: "string list" where
  "EXEMPTED_PATHS =
     [''utils/logger.py'', ''runtime/telemetry/events.py'', ''runtime/telemetry/schema.py'',
      ''runtime/timing/clock.py'', ''runtime/logging/formatters.py'', ''runtime/telemetry/replay_capture.py'',
      ''runtime/debug/crash_snapshot.py'', ''runtime/timing/latency.py'']"

text \<open>\<open>os.path.normpath\<close>.\<close>

fun split_slash :: "string \<Rightarrow> string \<Rightarrow> string list" where
  "split_slash w [] = [w]"
| "split_slash w (c # cs) = (if c = CHR ''/'' then w # split_slash [] cs else split_slash (w @ [c]) cs)"

definition norm_comp :: "bool \<Rightarrow> string \<Rightarrow> string list \<Rightarrow> string list" where
  "norm_comp absolute part acc =
     (if part = '''' \<or> part = ''.'' then acc
      else if part \<noteq> ''..'' \<or> (\<not> absolute \<and> acc = []) \<or> (acc \<noteq> [] \<and> last acc = ''..'') then acc @ [part]
      else butlast acc)"

definition normpath :: "string \<Rightarrow> string" where
  "normpath path =
     (if path = '''' then ''.''
      else
        let slashes = (if prefix ''//'' path \<and> \<not> prefix ''///'' path then ''//''
                       else if prefix ''/'' path then ''/'' else '''');
            p = slashes @ py_join ''/'' (fold (norm_comp (slashes \<noteq> '''')) (split_slash [] path) [])
        in if p = '''' then ''.'' else p)"

definition is_exempted :: "string \<Rightarrow> bool" where
  "is_exempted filepath \<longleftrightarrow> list_ex (\<lambda>exempt. suffix (normpath exempt) (normpath filepath)) EXEMPTED_PATHS"

fun clock_lines :: "string \<Rightarrow> nat \<Rightarrow> string list \<Rightarrow> (string \<times> nat \<times> string) list" where
  "clock_lines path n [] = []"
| "clock_lines path n (l # ls) =
     map (\<lambda>_. (path, n, py_rstrip l)) (filter (\<lambda>p. sublist p l) CLOCK_FORBIDDEN) @ clock_lines path (n + 1) ls"

text \<open>\<open>None\<close> for a file that cannot be read. The files are the ones \<open>os.walk\<close> finds below the root: none when
  the root does not exist.\<close>

definition clock_scan :: "(string \<times> string list option) list \<Rightarrow> (string \<times> nat \<times> string) list" where
  "clock_scan files =
     concat (map (\<lambda>(path, ls). case ls of None \<Rightarrow> [] | Some ls \<Rightarrow> clock_lines path 1 ls)
       (filter (\<lambda>(path, ls). suffix ''.py'' path \<and> \<not> is_exempted path) files))"

definition clock_main :: "(string \<times> string list option) list \<Rightarrow> nat" where
  "clock_main files = (if clock_scan files = [] then 0 else 1)"

section \<open>The fixture baseline and the model manifest\<close>

definition EXPECTED_FIXTURES :: "(string \<times> bool \<times> string) list" where
  "EXPECTED_FIXTURES =
     [(''bare arvsal'', True, ''arvsal''), (''hey arvsal'', True, ''hey arvsal''),
      (''wake up arvsal'', True, ''wake up arvsal''), (''listen arvsal'', True, ''listen arvsal''),
      (''listen alone'', True, ''listen''), (''wake alone'', False, ''''),
      (''listen arv candidate only'', True, ''listen''), (''listen arvsal full'', True, ''listen arvsal''),
      (''empty window'', False, ''''), (''random everyday speech'', False, ''''),
      (''context only - no anchor'', False, ''''), (''hey alone'', False, '''')]"

text \<open>A fixture: name, expected trigger, expected phrase. The first fixture of a name is the one compared.\<close>

definition fixture_ok :: "(string \<times> bool \<times> string option) list \<Rightarrow> string \<times> bool \<times> string \<Rightarrow> bool" where
  "fixture_ok fixtures e =
     (case e of (name, expected_trigger, expected_phrase) \<Rightarrow>
        (case find (\<lambda>f. fst f = name) fixtures of
           None \<Rightarrow> False
         | Some (_, trigger, phrase) \<Rightarrow>
             trigger = expected_trigger
           \<and> phrase = (if expected_phrase \<noteq> '''' then Some expected_phrase else None)))"

definition baseline_main :: "(string \<times> bool \<times> string option) list \<Rightarrow> nat" where
  "baseline_main fixtures =
     (if length fixtures \<noteq> 23 then 1
      else if list_all (fixture_ok fixtures) EXPECTED_FIXTURES then 0 else 1)"

record model_entry =
  me_name :: string
  me_sha256 :: "string option"
  me_size :: nat
  me_status :: string

definition gen_manifest :: "(string \<Rightarrow> (string \<times> nat) option) \<Rightarrow> model_entry list" where
  "gen_manifest lookup =
     map (\<lambda>f. case lookup f of
                Some (sha, bytes) \<Rightarrow> \<lparr>me_name = f, me_sha256 = Some sha, me_size = bytes, me_status = ''OK''\<rparr>
              | None \<Rightarrow> \<lparr>me_name = f, me_sha256 = None, me_size = 0, me_status = ''MISSING''\<rparr>)
       [''encoder.onnx'', ''decoder.onnx'', ''joiner.onnx'', ''tokens.txt'', ''silero_vad.onnx'']"

section \<open>What a startup verification means\<close>

text \<open>The readers only append lines, so what has been seen stays seen.\<close>

definition seen_before :: "child \<Rightarrow> child \<Rightarrow> bool" where
  "seen_before c d \<longleftrightarrow> prefix (ch_out c) (ch_out d) \<and> prefix (ch_err c) (ch_err d)"

lemma py_join_append_prefix: "prefix (py_join sep xs) (py_join sep (xs @ ys))"
proof (induction sep xs rule: py_join.induct)
  case (2 sep x)
  then show ?case by (cases ys) auto
qed auto

lemma sublist_prefix_trans: "sublist n s \<Longrightarrow> prefix s t \<Longrightarrow> sublist n t"
  by (auto simp: sublist_def prefix_def) blast

lemma signal_found_later:
  assumes "signal_found c s" "seen_before c d"
  shows "signal_found d s"
proof -
  obtain desc o' needle where s: "s = (desc, o', needle)" by (cases s)
  obtain zs where "(if o' then ch_out d else ch_err d) = (if o' then ch_out c else ch_err c) @ zs"
    using assms(2) by (cases o') (auto simp: seen_before_def prefix_def)
  with assms(1) show ?thesis
    using py_join_append_prefix by (auto simp: s signal_found_def intro: sublist_prefix_trans)
qed

lemma all_signals_iff: "all_signals c \<longleftrightarrow> (\<forall>s\<in>set STARTUP_SIGNALS. signal_found c s)"
  unfolding all_signals_def by (metis filter_True length_filter_less less_irrefl)

lemma fold_all: "fold (\<lambda>s ok. if P s then ok else False) xs b \<longleftrightarrow> b \<and> (\<forall>x\<in>set xs. P x)"
  by (induction xs arbitrary: b) auto

lemma startup_wait_seen: "startup_wait cs \<Longrightarrow> \<exists>c\<in>set cs. all_signals c"
  by (induction cs) (auto split: if_splits)

text \<open>The exit code 0 means that every signal was seen before the deadline and that the child did not end in
  an unexpected way. The exit code 2, documented as the timeout before all signals, is only given when
  every signal has arrived after all, between the last look and the final one: a run that times out with
  a signal missing ends with 1.\<close>

theorem verify_startup_codes:
  assumes "\<And>c. c \<in> set looks \<Longrightarrow> seen_before c final"
  shows "(verify_startup True k looks final = 0 \<longleftrightarrow> startup_wait looks \<and> expected_exit k (ch_exit final))
    \<and> (verify_startup True k looks final = 2 \<longleftrightarrow>
         \<not> startup_wait looks \<and> all_signals final \<and> expected_exit k (ch_exit final))
    \<and> (\<not> all_signals final \<longrightarrow> verify_startup True k looks final = 1)"
proof -
  have "all_signals final" if "startup_wait looks"
    using startup_wait_seen [OF that] assms signal_found_later unfolding all_signals_iff by blast
  then show ?thesis
    by (auto simp: verify_startup_def fold_all all_signals_iff [symmetric] Let_def)
qed

text \<open>With \<open>kill_after\<close> the exit code 1, with which Python ends after an uncaught exception, counts as
  expected.\<close>

lemma crash_accepted: "expected_exit True (Some 1)"
  by (simp add: expected_exit_def)

section \<open>Reading the counts back\<close>

lemma nat_text_while:
  assumes "digits_end t"
  shows "takeWhile is_digit (nat_text n @ t) = nat_text n" "dropWhile is_digit (nat_text n @ t) = t"
  using nat_text_digits [of n] assms
  by (auto simp: takeWhile_append2 dropWhile_append2 digits_end_def) (cases t; simp)+

lemma count_at_text:
  "count_at (nat_text p @ ''/'' @ nat_text t @ '' passed'' @ post) = Some (p, t)"
proof -
  have "nat_text k \<noteq> []" for k using nat_text_head [of k] by auto
  then show ?thesis
    using nat_text_while [of "''/'' @ nat_text t @ '' passed'' @ post" p]
      nat_text_while [of "'' passed'' @ post" t]
    by (simp add: count_at_def digits_end_def is_digit_def is_space_def digits_value_nat_text Let_def)
qed

lemma count_search_skip: "\<forall>c\<in>set pre. \<not> is_digit c \<Longrightarrow> count_search (pre @ s) = count_search s"
  by (induction pre) (auto simp: count_at_def Let_def)

text \<open>The counts of a line a suite prints are read back exactly, and decide alone which line is read: lines
  before it without the marker do not matter.\<close>

theorem parse_counts_line:
  assumes "\<And>l. l \<in> set before \<Longrightarrow> \<not> sublist ''Results:'' l"
  shows "parse_lines (before @ [''  Results: '' @ nat_text p @ ''/'' @ nat_text t @ '' passed'' @ post] @ after)
     = \<lparr>ct_passed = p, ct_total = t, ct_failed = int t - int p\<rparr>"
  using assms
proof (induction before)
  case Nil
  let ?rest = "nat_text p @ ''/'' @ nat_text t @ '' passed'' @ post"
  have "count_search (''  Results: '' @ ?rest) = count_search ?rest"
    by (rule count_search_skip) (auto simp: is_digit_def)
  also have "\<dots> = Some (p, t)"
    using count_at_text [of p t post] nat_text_head [of p] by auto
  finally have "count_search (''  Results: '' @ ?rest) = Some (p, t)" .
  moreover have "sublist ''Results:'' (''  Results: '' @ ?rest)"
    unfolding sublist_def by (intro exI [of _ "''  ''"] exI [of _ "'' '' @ ?rest"]) simp
  moreover have "sublist ''passed'' (''  Results: '' @ ?rest)"
    unfolding sublist_def
    by (intro exI [of _ "''  Results: '' @ nat_text p @ ''/'' @ nat_text t @ '' ''"] exI [of _ post]) simp
  ultimately show ?case by simp
qed simp

text \<open>The pipeline suite passes without a single test counted: its total is not asked for.\<close>

lemma pipeline_counts_unchecked:
  "0 < p \<Longrightarrow> parse_counts smoke = \<lparr>ct_passed = p, ct_total = p, ct_failed = 0\<rparr> \<Longrightarrow>
     regression_main smoke (1, 0) (True, True, True) '''' = 0"
  by (simp add: regression_main_def parse_counts_def py_splitlines_def)

section \<open>What the scanners find\<close>

lemma clock_lines_empty: "clock_lines path n ls = [] \<longleftrightarrow> (\<forall>l\<in>set ls. \<forall>p\<in>set CLOCK_FORBIDDEN. \<not> sublist p l)"
  by (induction path n ls rule: clock_lines.induct) (auto simp: filter_empty_conv)

text \<open>The clock gate passes exactly when no readable Python file below the root outside the exempted ones
  has a line with a forbidden call.\<close>

theorem clock_gate_exact:
  "clock_main files = 0 \<longleftrightarrow>
     (\<forall>(path, ls)\<in>set files. suffix ''.py'' path \<and> \<not> is_exempted path \<longrightarrow>
        (case ls of None \<Rightarrow> True | Some ls \<Rightarrow> \<forall>l\<in>set ls. \<forall>p\<in>set CLOCK_FORBIDDEN. \<not> sublist p l))"
  by (auto simp: clock_main_def clock_scan_def clock_lines_empty split: option.splits) force+

text \<open>The clock scan looks below a directory \<^verbatim>\<open>ava-listener/runtime\<close> of the project, which the repository
  does not have; below a missing directory there is nothing to find.\<close>

lemma missing_root_clean: "clock_main [] = 0" "identity_scan [] = []"
  by (simp_all add: clock_main_def clock_scan_def identity_scan_def)

text \<open>Without docstring quotes the identity scan reports exactly the forbidden names of the lines that are not
  comments.\<close>

lemma identity_plain:
  assumes "\<And>l. l \<in> set ls \<Longrightarrow> count_quotes (py_strip l) = 0"
  shows "identity_lines n False ls = [] \<longleftrightarrow>
    (\<forall>l\<in>set ls. prefix ''#'' (py_strip l) \<or> (\<forall>name\<in>set IDENTITY_FORBIDDEN. \<not> sublist name (py_lower l)))"
  using assms
  by (induction ls arbitrary: n) (auto simp: identity_line_def Let_def filter_empty_conv)

lemma baseline_exact:
  "baseline_main fixtures = 0 \<longleftrightarrow>
     length fixtures = 23 \<and> (\<forall>e\<in>set EXPECTED_FIXTURES. fixture_ok fixtures e)"
  by (simp add: baseline_main_def list_all_iff)

end
