(* ===== verification/Wake_Liveness.thy ===== *)
theory Wake_Liveness
  imports Orchestrator
begin

text \<open>
  The engine is not deaf: a phrase that the recognizer keeps reporting and the matcher keeps scoring is
  woken on, within a fixed number of hypotheses. The theory follows \<open>_on_hypothesis\<close>
  (\<^verbatim>\<open>src/runtime/kernel/orchestrator.py\<close>) through the hypotheses of one utterance and bounds the hit
  count and the moving average from below.
\<close>

section \<open>The hypotheses of one utterance\<close>

text \<open>The calls in order, up to one that raises: what each of them emits, and the engine after them.\<close>

fun hear ::
  "(string \<Rightarrow> string \<Rightarrow> pyfloat) \<Rightarrow> (string \<Rightarrow> string \<Rightarrow> pyfloat) \<Rightarrow> 's vad_models \<Rightarrow> phrase_registry
     \<Rightarrow> variant_index \<Rightarrow> 'o hyp_input list \<Rightarrow> ('o, 's) engine \<Rightarrow> wake_event option list \<times> ('o, 's) engine" where
  "hear jw tsr m r ix [] e = ([], e)"
| "hear jw tsr m r ix (i # is) e =
     (let (wake, x, e) = on_hypothesis jw tsr m r ix i e
      in case x of
           Inl _ \<Rightarrow> ([wake], e)
         | Inr _ \<Rightarrow> (let (ws, e) = hear jw tsr m r ix is e in (wake # ws, e)))"

text \<open>A hypothesis of the utterance \<open>g\<close> that reports \<open>text\<close> again, with no longer peak, read within the
  window's span after it was pushed, and scored at least 3/4 for \<open>phrase\<close>.\<close>

definition repeats ::
  "(string \<Rightarrow> string \<Rightarrow> pyfloat) \<Rightarrow> (string \<Rightarrow> string \<Rightarrow> pyfloat) \<Rightarrow> phrase_registry \<Rightarrow> variant_index
     \<Rightarrow> string \<Rightarrow> string \<Rightarrow> nat \<Rightarrow> 'o hyp_input \<Rightarrow> bool" where
  "repeats jw tsr r ix text phrase g i \<longleftrightarrow>
     hi_text i = text \<and> hi_generation_id i = g \<and> length (hi_peak i) \<le> length text
   \<and> hi_t_purge i \<le> hi_t_push i + WINDOW_SECONDS \<and> hi_t_window i \<le> hi_t_push i + WINDOW_SECONDS
   \<and> (case best_match jw tsr r ix [(text, eff_stability i)] of
        (score, p, v) \<Rightarrow> 3/4 \<le> score \<and> p = phrase)"

text \<open>The gates are open for the utterance, the window is empty or holds the text alone.\<close>

definition listening :: "string \<Rightarrow> nat \<Rightarrow> ('o, 's) engine \<Rightarrow> bool" where
  "listening text g e \<longleftrightarrow> \<not> we_detection_paused e \<and> int g \<noteq> we_last_trigger_generation e
     \<and> (hb_buf (we_buffer e) = [] \<or> (\<exists>t k. hb_buf (we_buffer e) = [(t, text, k)]))"

text \<open>At least \<open>h\<close> hits and a moving average of at least \<open>a\<close> that the next hypothesis does not reset.\<close>

definition warm :: "string \<Rightarrow> nat \<Rightarrow> nat \<Rightarrow> pyfloat \<Rightarrow> ('o, 's) engine \<Rightarrow> bool" where
  "warm phrase g h a e \<longleftrightarrow> h \<le> we_hit_count e \<and> a \<le> we_smooth_conf e
     \<and> (a \<noteq> 0 \<longrightarrow> we_last_seen_generation e = int g \<and> we_last_matched_phrase e = phrase)"

definition raw_floor :: "nat \<Rightarrow> pyfloat" where
  "raw_floor h = 60/100 + min (rat_of_nat h / 3) 1 * (20/100)"

lemma confidence_floor: "3/4 \<le> s \<Longrightarrow> h \<le> k \<Longrightarrow> raw_floor h \<le> compute_confidence s 1 k"
proof -
  assume a: "3/4 \<le> s" "h \<le> k"
  have "raw_floor h = compute_confidence (3/4) 1 h"
    by (simp add: raw_floor_def compute_confidence_def Let_def)
  also have "\<dots> \<le> compute_confidence s 1 h" using a(1) by (rule confidence_mono_match)
  also have "\<dots> \<le> compute_confidence s 1 k" using a(2) by (rule confidence_mono_hits)
  finally show ?thesis .
qed

section \<open>One hypothesis\<close>

lemma buffer_repeat:
  assumes "repeats jw tsr r ix text phrase g i" "text \<noteq> ''''"
    and "hb_buf (we_buffer e) = [] \<or> (\<exists>t k. hb_buf (we_buffer e) = [(t, text, k)])"
  shows "\<exists>b. on_buffer i e = ([(text, eff_stability i)], e\<lparr>we_buffer := b\<rparr>)
     \<and> hb_buf b = [(hi_t_push i, text, eff_stability i)]"
  using assms by (auto simp: on_buffer_def repeats_def hb_push_def hb_purge_def hb_get_window_def Let_def)

lemma candidate_frame:
  "\<exists>c t s. on_candidate i p v k raw e = e\<lparr>we_candidate := c, we_telemetry := t, we_state_machine := s\<rparr>"
proof -
  let ?f = "\<lambda>c t s. e\<lparr>we_candidate := c, we_telemetry := t, we_state_machine := s\<rparr>"
  have "e = ?f (we_candidate e) (we_telemetry e) (we_state_machine e)" by simp
  then have same: "\<exists>c t s. e = ?f c t s" by blast
  have start': "\<exists>c t s. start_candidate i p' v' k' r n f e = ?f c t s" for p' v' k' r n f
    unfolding start_candidate_def by blast
  have update': "\<exists>c t s. update_candidate i r n f e = ?f c t s" for r n f
  proof (cases "we_candidate e")
    case None
    then have "update_candidate i r n f e = e" by (simp add: update_candidate_def)
    then show ?thesis using same by (simp only:)
  next
    case (Some k)
    then show ?thesis unfolding update_candidate_def by (simp only: option.case) blast
  qed
  have drop': "\<exists>c t s. drop_candidate e = ?f c t s"
  proof (cases "we_candidate e")
    case None
    then have "drop_candidate e = e" by (simp add: drop_candidate_def)
    then show ?thesis using same by (simp only:)
  next
    case (Some k)
    then have "drop_candidate e = ?f None (tc_drop_candidate (we_telemetry e))
        (rt_transition ''candidate_dropped'' (we_state_machine e))"
      by (simp add: drop_candidate_def)
    then show ?thesis by blast
  qed
  show ?thesis
  proof (cases "p \<noteq> '''' \<and> 50/100 \<le> raw")
    case hot: True
    show ?thesis
    proof (cases "we_candidate e = None \<or> map_option cs_phrase (we_candidate e) \<noteq> Some p")
      case True
      with hot show ?thesis unfolding on_candidate_def by (simp only: if_True simp_thms start')
    next
      case False
      with hot show ?thesis unfolding on_candidate_def by (simp only: if_True if_False simp_thms update')
    qed
  next
    case cold: False
    show ?thesis
    proof (cases "we_candidate e")
      case None
      with cold have "on_candidate i p v k raw e = e"
        unfolding on_candidate_def by (simp only: if_False option.case)
      then show ?thesis using same by (simp only:)
    next
      case (Some c)
      with cold have "on_candidate i p v k raw e = (if 1 < hi_now i - cs_last_update c then drop_candidate e else e)"
        unfolding on_candidate_def by (simp only: if_False option.case)
      then show ?thesis using drop' same by (cases "1 < hi_now i - cs_last_update c") (simp_all only: if_True if_False)
    qed
  qed
qed

text \<open>The moving average rises towards the raw confidence by the rise factor, or falls no further than it.\<close>

lemma ema_floor:
  assumes "a \<le> base" "0 \<le> base" "l \<le> raw" "a \<le> l"
  shows "70/100 * l + 30/100 * a \<le> ema_alpha base raw * raw + (1 - ema_alpha base raw) * base"
proof (cases "base < raw")
  case True
  with assms show ?thesis by (simp add: ema_alpha_def settings)
next
  case False
  have "70/100 * l + 30/100 * a \<le> l" using assms(4) by simp
  also have "\<dots> \<le> raw" by fact
  also have "\<dots> \<le> ema_alpha base raw * raw + (1 - ema_alpha base raw) * base"
    using False by (simp add: ema_alpha_def settings)
  finally show ?thesis .
qed

lemma hear_step:
  assumes rep: "repeats jw tsr r ix text phrase g i" and ne: "text \<noteq> ''''" "phrase \<noteq> ''''"
    and ok: "engine_wf e" "listening text g e" "cg_can_trigger (hi_t_gate i) (we_cooldown e)"
    and w: "warm phrase g h a e" "0 \<le> a" "a \<le> raw_floor (Suc h)"
  obtains (wake) wk x e' where "on_hypothesis jw tsr m r ix i e = (Some wk, x, e')" "wk_phrase wk = phrase"
  | (quiet) e' where "on_hypothesis jw tsr m r ix i e = (None, Inr (), e')"
      "listening text g e'" "we_cooldown e' = we_cooldown e" "0 \<le> we_smooth_conf e'"
      "warm phrase g (if a = 0 then 0 else Suc h) (70/100 * raw_floor (Suc h) + 30/100 * a) e'"
      "70/100 * raw_floor (Suc h) + 30/100 * a < DEFAULT_THRESHOLD"
proof -
  define e1 where "e1 = on_metrics i e"
  have e1: "we_buffer e1 = we_buffer e" "we_hit_count e1 = we_hit_count e" "we_smooth_conf e1 = we_smooth_conf e"
    "we_last_seen_generation e1 = we_last_seen_generation e" "we_last_matched_phrase e1 = we_last_matched_phrase e"
    "we_last_trigger_generation e1 = we_last_trigger_generation e" "we_cooldown e1 = we_cooldown e"
    "we_detection_paused e1 = we_detection_paused e"
    by (simp_all add: e1_def on_metrics_def Let_def)
  obtain b where b: "on_buffer i e1 = ([(text, eff_stability i)], e1\<lparr>we_buffer := b\<rparr>)"
    "hb_buf b = [(hi_t_push i, text, eff_stability i)]"
    using buffer_repeat [OF rep ne(1), of e1] ok(2) by (auto simp: listening_def e1)
  obtain score v where bm: "best_match jw tsr r ix [(text, eff_stability i)] = (score, phrase, v)" "3/4 \<le> score"
    using rep by (auto simp: repeats_def split: prod.splits)
  define raw where "raw = compute_confidence score 1 (Suc (we_hit_count e))"
  obtain t where t: "on_score i score [(text, eff_stability i)] (e1\<lparr>we_buffer := b\<rparr>)
      = (raw, e1\<lparr>we_buffer := b, we_hit_count := Suc (we_hit_count e), we_telemetry := t\<rparr>)"
    using bm(2) by (simp add: on_score_def raw_def e1 Let_def)
  define c where "c = (if v \<noteq> '''' then get_canonical ix v else Some '''')"
  obtain c' t' s' where cand: "on_candidate i phrase v c raw
      (e1\<lparr>we_buffer := b, we_hit_count := Suc (we_hit_count e), we_telemetry := t\<rparr>)
      = e1\<lparr>we_buffer := b, we_hit_count := Suc (we_hit_count e), we_candidate := c', we_telemetry := t',
          we_state_machine := s'\<rparr>" (is "_ = ?e4")
    using candidate_frame [of i phrase v c raw
        "e1\<lparr>we_buffer := b, we_hit_count := Suc (we_hit_count e), we_telemetry := t\<rparr>"] by (simp, blast)
  define e5 where "e5 = on_ema i phrase raw ?e4"
  have run: "on_hypothesis jw tsr m r ix i e = on_gates m i phrase raw e5"
    using ok(2) by (simp add: on_hypothesis_def listening_def b(1) bm(1) t cand c_def [symmetric] e5_def
        e1_def [symmetric] Let_def del: not_None_eq)
  have floor: "raw_floor (Suc h) \<le> raw" unfolding raw_def
    by (rule confidence_floor [OF bm(2)]) (use w(1) in \<open>simp add: warm_def\<close>)
  have g: "hi_generation_id i = g" using rep by (simp add: repeats_def)
  have base: "a \<le> ema_base i phrase ?e4" "0 \<le> ema_base i phrase ?e4"
    using w ok(1) g by (auto simp: ema_base_def warm_def e1 engine_wf_def)
  have smooth: "70/100 * raw_floor (Suc h) + 30/100 * a \<le> we_smooth_conf e5"
    unfolding e5_def on_ema_smooth by (rule ema_floor) (use base floor w(3) in auto)
  have pos: "0 \<le> 70/100 * raw_floor (Suc h) + 30/100 * a"
    using w(2) by (simp add: raw_floor_def)
  have e5: "we_last_trigger_generation e5 = we_last_trigger_generation e" "we_cooldown e5 = we_cooldown e"
    "we_detection_paused e5 = we_detection_paused e" "hb_buf (we_buffer e5) = [(hi_t_push i, text, eff_stability i)]"
    "we_last_seen_generation e5 = int g" "we_last_matched_phrase e5 = phrase"
    "a \<noteq> 0 \<Longrightarrow> we_hit_count e5 = Suc (we_hit_count e)"
    using ne(2) g w(1) b(2) by (auto simp: e5_def on_ema_def e1 warm_def Let_def)
  have thr: "(if phrase \<noteq> '''' then get_threshold phrase else DEFAULT_THRESHOLD) = DEFAULT_THRESHOLD"
    by (simp add: get_threshold_def)
  show thesis
  proof (cases "DEFAULT_THRESHOLD + 8/100 \<le> raw \<or> DEFAULT_THRESHOLD \<le> we_smooth_conf e5")
    case True
    have "on_gates m i phrase raw e5 = on_fire m i phrase raw e5"
      using True ok(2,3) g unfolding on_gates_def thr Let_def by (auto simp: e5 listening_def)
    moreover obtain wk x e' where f: "on_fire m i phrase raw e5 = (Some wk, x, e')" "wk_phrase wk = phrase"
      using on_fire_outcome [of m i phrase raw e5] by (metis prod.exhaust wake_event.select_convs(1))
    ultimately show thesis using wake run by simp
  next
    case False
    then have "on_gates m i phrase raw e5 = (None, Inr (), e5)"
      unfolding on_gates_def thr Let_def by simp
    moreover have "listening text g e5" using ok(2) by (simp add: listening_def e5)
    moreover have "warm phrase g (if a = 0 then 0 else Suc h) (70/100 * raw_floor (Suc h) + 30/100 * a) e5"
      using smooth w(1) by (simp add: warm_def e5)
    ultimately show thesis
      using quiet run False smooth pos e5(2) by simp
  qed
qed

section \<open>Five hypotheses are enough\<close>

text \<open>What the hit count and the moving average have reached after as many hypotheses without a wake.\<close>

fun warm_after :: "nat \<Rightarrow> nat \<times> pyfloat" where
  "warm_after 0 = (0, 0)"
| "warm_after (Suc k) =
     (let (h, a) = warm_after k in (if a = 0 then 0 else Suc h, 70/100 * raw_floor (Suc h) + 30/100 * a))"

lemma raw_floor_mono: "h \<le> k \<Longrightarrow> raw_floor h \<le> raw_floor k"
proof -
  assume "h \<le> k"
  then have "min (rat_of_nat h / 3) 1 \<le> min (rat_of_nat k / 3) 1" by (intro min.mono divide_right_mono) simp_all
  then show ?thesis by (simp add: raw_floor_def)
qed

lemma raw_floor_pos: "0 < raw_floor h"
proof -
  have "0 \<le> min (rat_of_nat h / 3) 1" by simp
  then show ?thesis unfolding raw_floor_def by linarith
qed

lemma warm_after_bounds:
  "0 \<le> snd (warm_after k) \<and> snd (warm_after k) \<le> raw_floor (Suc (fst (warm_after k)))
   \<and> (snd (warm_after k) = 0 \<longrightarrow> fst (warm_after k) = 0)"
proof (induction k)
  case 0
  then show ?case using raw_floor_pos [of 1] by simp
next
  case (Suc k)
  obtain h a where p: "warm_after k = (h, a)" by fastforce
  have b: "0 \<le> a" "a \<le> raw_floor (Suc h)" "a = 0 \<Longrightarrow> h = 0" using Suc p by simp_all
  have "raw_floor (Suc h) \<le> raw_floor (Suc (if a = 0 then 0 else Suc h))"
    using b(3) by (intro raw_floor_mono) simp
  with b raw_floor_pos [of "Suc h"] show ?case by (simp add: p)
qed

lemma hear_wakes:
  assumes "repeats jw tsr r ix text phrase g i" "text \<noteq> ''''" "phrase \<noteq> ''''"
    and "engine_wf e" "listening text g e" "cg_can_trigger (hi_t_gate i) (we_cooldown e)"
    and "warm phrase g h a e" "0 \<le> a" "a \<le> raw_floor (Suc h)"
    and rest: "\<And>e'. on_hypothesis jw tsr m r ix i e = (None, Inr (), e') \<Longrightarrow> engine_wf e' \<Longrightarrow>
       listening text g e' \<Longrightarrow> we_cooldown e' = we_cooldown e \<Longrightarrow>
       warm phrase g (if a = 0 then 0 else Suc h) (70/100 * raw_floor (Suc h) + 30/100 * a) e' \<Longrightarrow>
       70/100 * raw_floor (Suc h) + 30/100 * a < DEFAULT_THRESHOLD \<Longrightarrow>
       \<exists>wk. Some wk \<in> set (fst (hear jw tsr m r ix is e')) \<and> wk_phrase wk = phrase"
    and ok: "ratio_ok tsr"
  shows "\<exists>wk. Some wk \<in> set (fst (hear jw tsr m r ix (i # is) e)) \<and> wk_phrase wk = phrase"
proof (rule hear_step [OF assms(1-9), of m])
  fix wk x e' assume "on_hypothesis jw tsr m r ix i e = (Some wk, x, e')" "wk_phrase wk = phrase"
  then show ?thesis by (auto simp: case_prod_unfold Let_def split: sum.splits)
next
  fix e' assume o: "on_hypothesis jw tsr m r ix i e = (None, Inr (), e')" "listening text g e'"
    "we_cooldown e' = we_cooldown e"
    "warm phrase g (if a = 0 then 0 else Suc h) (70/100 * raw_floor (Suc h) + 30/100 * a) e'"
    "70/100 * raw_floor (Suc h) + 30/100 * a < DEFAULT_THRESHOLD"
  have "engine_wf e'"
    using assms(4) ok o(1) by (cases rule: on_hypothesis_cases) (auto dest: on_fire_outcome)
  with rest o obtain wk where "Some wk \<in> set (fst (hear jw tsr m r ix is e'))" "wk_phrase wk = phrase" by blast
  then show ?thesis by (auto simp: o(1) case_prod_unfold Let_def)
qed

lemma hear_wakes_eventually:
  fixes e :: "('o, 's) engine"
  assumes ok: "ratio_ok tsr" and ne: "text \<noteq> ''''" "phrase \<noteq> ''''"
  shows "\<forall>i\<in>set is. repeats jw tsr r ix text phrase g i \<and> cg_can_trigger (hi_t_gate i) (we_cooldown e) \<Longrightarrow>
    is \<noteq> [] \<Longrightarrow> DEFAULT_THRESHOLD \<le> snd (warm_after (k + length is)) \<Longrightarrow> engine_wf e \<Longrightarrow> listening text g e \<Longrightarrow>
    warm phrase g (fst (warm_after k)) (snd (warm_after k)) e \<Longrightarrow>
    \<exists>wk. Some wk \<in> set (fst (hear jw tsr m r ix is e)) \<and> wk_phrase wk = phrase"
proof (induction "is" arbitrary: e k)
  case (Cons i "is")
  obtain h a where p: "warm_after k = (h, a)" by fastforce
  have b: "0 \<le> a" "a \<le> raw_floor (Suc h)" using warm_after_bounds [of k] p by simp_all
  have next_floor: "warm_after (Suc k) = (if a = 0 then 0 else Suc h, 70/100 * raw_floor (Suc h) + 30/100 * a)"
    by (simp add: p)
  show ?case
  proof (rule hear_wakes [OF _ ne Cons.prems(4,5) _ _ b _ ok])
    fix e' :: "('o, 's) engine"
    assume e': "engine_wf e'" "listening text g e'" "we_cooldown e' = we_cooldown e"
      "warm phrase g (if a = 0 then 0 else Suc h) (70/100 * raw_floor (Suc h) + 30/100 * a) e'"
      "70/100 * raw_floor (Suc h) + 30/100 * a < DEFAULT_THRESHOLD"
    have "is \<noteq> []" using e'(5) Cons.prems(3) next_floor by (cases "is") auto
    moreover have "warm phrase g (fst (warm_after (Suc k))) (snd (warm_after (Suc k))) e'"
      using e'(4) unfolding next_floor fst_conv snd_conv .
    ultimately show "\<exists>wk. Some wk \<in> set (fst (hear jw tsr m r ix is e')) \<and> wk_phrase wk = phrase"
      using Cons.IH [of e' "Suc k"] Cons.prems(1,3) e'(1,2,3) by simp
  qed (use Cons.prems p in auto)
qed simp



end
