(* ===== verification/Telemetry_Persistence.thy ===== *)
theory Telemetry_Persistence
  imports Telemetry_Collector Watchdog
begin

text \<open>
  Writing the collector's metrics to disk (\<^verbatim>\<open>src/runtime/telemetry/collector.py\<close>): \<open>export_metrics_json\<close>,
  \<open>_persist_if_enabled\<close> and the operations that call it. The disk is a map from paths to the metrics a
  file holds, or to \<open>None\<close> for a file whose writing broke off. The outcomes of opening and of writing
  the file are inputs of an export; the layout of the JSON text is not modelled.
\<close>

section \<open>State and operations\<close>

type_synonym disk = "string \<rightharpoonup> collector_metrics option"
type_synonym write_outcome = "(py_exc + unit) \<times> (py_exc + unit)"

record telemetry =
  tp_metrics_to_disk :: bool
  tp_metrics_path :: string
  tp_collector :: collector
  tp_disk :: disk

definition new_telemetry :: "bool \<Rightarrow> string \<Rightarrow> disk \<Rightarrow> telemetry" where
  "new_telemetry metrics_to_disk metrics_path d =
     \<lparr>tp_metrics_to_disk = metrics_to_disk, tp_metrics_path = metrics_path, tp_collector = tc_reset, tp_disk = d\<rparr>"

text \<open>Opening for writing empties the file.\<close>

definition tp_export :: "string option \<Rightarrow> write_outcome \<Rightarrow> telemetry \<Rightarrow> (py_exc + string) \<times> telemetry" where
  "tp_export path o' t =
     (let path = (case path of None \<Rightarrow> tp_metrics_path t | Some p \<Rightarrow> if p = '''' then tp_metrics_path t else p);
          metrics = tc_get_metrics (tp_collector t)
      in case fst o' of
           Inl e \<Rightarrow> (Inl e, t)
         | Inr _ \<Rightarrow>
             (case snd o' of
                Inl e \<Rightarrow> (Inl e, t\<lparr>tp_disk := (tp_disk t)(path \<mapsto> None)\<rparr>)
              | Inr _ \<Rightarrow> (Inr path, t\<lparr>tp_disk := (tp_disk t)(path \<mapsto> Some metrics)\<rparr>)))"

text \<open>The engine's method hands the call on to its collector.\<close>

definition engine_export_metrics_json :: "string option \<Rightarrow> write_outcome \<Rightarrow> telemetry \<Rightarrow> (py_exc + string) \<times> telemetry" where
  "engine_export_metrics_json path o' t = tp_export path o' t"

definition tp_persist :: "write_outcome \<Rightarrow> telemetry \<Rightarrow> (py_exc + unit) \<times> telemetry" where
  "tp_persist o' t =
     (if tp_metrics_to_disk t
      then (case tp_export None o' t of
              (Inl e, t) \<Rightarrow> (if is_exception e then Inr () else Inl e, t)
            | (Inr _, t) \<Rightarrow> (Inr (), t))
      else (Inr (), t))"

definition tp_update :: "(collector \<Rightarrow> collector) \<Rightarrow> telemetry \<Rightarrow> telemetry" where
  "tp_update f t = t\<lparr>tp_collector := f (tp_collector t)\<rparr>"

text \<open>An operation that ends with \<open>_persist_if_enabled\<close>, and the two that reach it through
  \<open>register_false_wake\<close> only when there is an active candidate.\<close>

definition tp_register :: "(collector \<Rightarrow> collector) \<Rightarrow> write_outcome \<Rightarrow> telemetry \<Rightarrow> (py_exc + unit) \<times> telemetry" where
  "tp_register f o' t = tp_persist o' (tp_update f t)"

definition tp_drop_candidate :: "write_outcome \<Rightarrow> telemetry \<Rightarrow> (py_exc + unit) \<times> telemetry" where
  "tp_drop_candidate o' t =
     (if tc_active_candidate (tp_collector t) = None then (Inr (), t) else tp_register tc_drop_candidate o' t)"

definition tp_start_candidate ::
  "time_s \<Rightarrow> time_s \<Rightarrow> string \<Rightarrow> string \<Rightarrow> string \<Rightarrow> string \<Rightarrow> pyfloat \<Rightarrow> pyfloat \<Rightarrow> nat \<Rightarrow> write_outcome \<Rightarrow> telemetry
     \<Rightarrow> (py_exc + unit) \<times> telemetry" where
  "tp_start_candidate now now' phrase variant canonical txt raw smooth frames o' t =
     eseq (if tc_active_candidate (tp_collector t) \<noteq> None then tp_register (tc_archive_candidate ''replaced'') o' t
           else (Inr (), t)) (\<lambda>_ t.
       (Inr (), tp_update (tc_start_candidate now now' phrase variant canonical txt raw smooth frames) t))"

datatype tp_call =
    Tp_op tc_op
  | Tp_false_wake
  | Tp_speech pyfloat
  | Tp_silence pyfloat
  | Tp_inference pyfloat
  | Tp_depth nat
  | Tp_reset time_s string pyfloat

fun tp_exec :: "tp_call \<Rightarrow> write_outcome \<Rightarrow> telemetry \<Rightarrow> (py_exc + unit) \<times> telemetry" where
  "tp_exec (Tp_op (Op_start n n' p v c x r s f)) o' t = tp_start_candidate n n' p v c x r s f o' t"
| "tp_exec (Tp_op Op_drop) o' t = tp_drop_candidate o' t"
| "tp_exec (Tp_op (Op_wake ms)) o' t = tp_register (tc_register_wake ms) o' t"
| "tp_exec (Tp_op op) o' t = (Inr (), tp_update (tc_apply op) t)"
| "tp_exec Tp_false_wake o' t = tp_register tc_register_false_wake o' t"
| "tp_exec (Tp_speech ms) o' t = tp_register (tc_register_speech_duration ms) o' t"
| "tp_exec (Tp_silence ms) o' t = tp_register (tc_register_silence_duration ms) o' t"
| "tp_exec (Tp_inference ms) o' t = (Inr (), tp_update (tc_register_inference_latency ms) t)"
| "tp_exec (Tp_depth n) o' t = (Inr (), tp_update (tc_register_queue_depth n) t)"
| "tp_exec (Tp_reset w r l) o' t = tp_register (tc_register_stream_reset w r l) o' t"

text \<open>The same calls on a collector without a disk.\<close>

fun tp_pure :: "tp_call \<Rightarrow> collector \<Rightarrow> collector" where
  "tp_pure (Tp_op op) t = tc_apply op t"
| "tp_pure Tp_false_wake t = tc_register_false_wake t"
| "tp_pure (Tp_speech ms) t = tc_register_speech_duration ms t"
| "tp_pure (Tp_silence ms) t = tc_register_silence_duration ms t"
| "tp_pure (Tp_inference ms) t = tc_register_inference_latency ms t"
| "tp_pure (Tp_depth n) t = tc_register_queue_depth n t"
| "tp_pure (Tp_reset w r l) t = tc_register_stream_reset w r l t"

definition tp_run :: "(tp_call \<times> write_outcome) list \<Rightarrow> telemetry \<Rightarrow> telemetry" where
  "tp_run cs t = fold (\<lambda>(c, o') t. snd (tp_exec c o' t)) cs t"

section \<open>Failures stay outside\<close>

text \<open>Neither opening nor writing is interrupted: what they raise is an \<open>Exception\<close>.\<close>

definition ordinary :: "write_outcome \<Rightarrow> bool" where
  "ordinary o' \<longleftrightarrow> (\<forall>e. fst o' = Inl e \<longrightarrow> is_exception e) \<and> (\<forall>e. snd o' = Inl e \<longrightarrow> is_exception e)"

lemma persist_ordinary:
  assumes "ordinary o'"
  shows "fst (tp_persist o' t) = Inr ()" "tp_collector (snd (tp_persist o' t)) = tp_collector t"
    "tp_metrics_to_disk (snd (tp_persist o' t)) = tp_metrics_to_disk t"
    "tp_metrics_path (snd (tp_persist o' t)) = tp_metrics_path t"
    "\<not> tp_metrics_to_disk t \<Longrightarrow> snd (tp_persist o' t) = t"
  using assms
  by (auto simp: tp_persist_def tp_export_def ordinary_def Let_def split: sum.splits)

lemma register_ordinary:
  "ordinary o' \<Longrightarrow> fst (tp_register f o' t) = Inr () \<and> tp_collector (snd (tp_register f o' t)) = f (tp_collector t)"
  by (simp add: tp_register_def persist_ordinary tp_update_def)

lemma archive_start:
  "tc_active_candidate c \<noteq> None \<Longrightarrow>
     tc_start_candidate n n' p v k x r s f (tc_archive_candidate ''replaced'' c) = tc_start_candidate n n' p v k x r s f c"
  by (auto simp: tc_candidate_defs Let_def)

lemma exec_ordinary:
  assumes "ordinary o'"
  shows "fst (tp_exec c o' t) = Inr () \<and> tp_collector (snd (tp_exec c o' t)) = tp_pure c (tp_collector t)"
proof (cases c)
  case (Tp_op op)
  then show ?thesis
  proof (cases op)
    case (Op_start n n' p v k x r s f)
    obtain u where u: "tp_register (tc_archive_candidate ''replaced'') o' t = (Inr (), u)"
      "tp_collector u = tc_archive_candidate ''replaced'' (tp_collector t)"
      using register_ordinary [OF assms, of "tc_archive_candidate ''replaced''" t] by (metis prod.collapse)
    show ?thesis
    proof (cases "tc_active_candidate (tp_collector t) = None")
      case True
      then show ?thesis by (simp add: Tp_op Op_start tp_start_candidate_def eseq_def tp_update_def)
    next
      case False
      then have "tp_start_candidate n n' p v k x r s f o' t = (Inr (), tp_update (tc_start_candidate n n' p v k x r s f) u)"
        by (simp add: tp_start_candidate_def eseq_def u(1))
      with False show ?thesis by (simp add: Tp_op Op_start tp_update_def u(2) archive_start)
    qed
  next
    case Op_drop
    then show ?thesis using assms by (simp add: Tp_op tp_drop_candidate_def register_ordinary tc_drop_candidate_def)
  qed (use assms in \<open>simp_all add: register_ordinary tp_update_def\<close>)
qed (use assms in \<open>simp_all add: register_ordinary tp_update_def\<close>)

section \<open>What the file holds\<close>

text \<open>The counters the file shows are the collector's: no operation that moves them leaves the file behind.\<close>

definition mirrors :: "telemetry \<Rightarrow> bool" where
  "mirrors t \<longleftrightarrow>
     (case tp_disk t (tp_metrics_path t) of
        Some (Some m) \<Rightarrow> mt_wake_count m = tc_wake_count (tp_collector t)
          \<and> mt_false_wake_count m = tc_false_wake_count (tp_collector t)
          \<and> mt_stream_resets m = tc_stream_resets (tp_collector t)
      | _ \<Rightarrow> True)"

lemma persist_mirrors:
  "tp_metrics_to_disk t \<Longrightarrow> mirrors (snd (tp_persist (Inr (), d) t))"
  by (auto simp: tp_persist_def tp_export_def mirrors_def tc_get_metrics_def Let_def split: sum.splits)

lemma update_mirrors:
  assumes "mirrors t" "tc_wake_count (f (tp_collector t)) = tc_wake_count (tp_collector t)"
    "tc_false_wake_count (f (tp_collector t)) = tc_false_wake_count (tp_collector t)"
    "tc_stream_resets (f (tp_collector t)) = tc_stream_resets (tp_collector t)"
  shows "mirrors (tp_update f t)"
  using assms by (cases "tp_disk t (tp_metrics_path t)"; cases "the (tp_disk t (tp_metrics_path t))")
    (simp_all add: mirrors_def tp_update_def)

lemma register_mirrors:
  "tp_metrics_to_disk t \<Longrightarrow> mirrors (snd (tp_register f (Inr (), d) t))"
  by (simp add: tp_register_def persist_mirrors tp_update_def)

lemma start_counts:
  "tc_active_candidate c = None \<Longrightarrow>
     tc_wake_count (tc_start_candidate n n' p v k x r s f c) = tc_wake_count c
   \<and> tc_false_wake_count (tc_start_candidate n n' p v k x r s f c) = tc_false_wake_count c
   \<and> tc_stream_resets (tc_start_candidate n n' p v k x r s f c) = tc_stream_resets c"
  by (simp add: tc_start_candidate_def Let_def)

lemma exec_mirrors:
  assumes "tp_metrics_to_disk t" "mirrors t" "ordinary (Inr (), d)"
  shows "mirrors (snd (tp_exec c (Inr (), d) t))"
proof (cases c)
  case (Tp_op op)
  then show ?thesis
  proof (cases op)
    case (Op_start n n' p v k x r s f)
    obtain w where w: "tp_register (tc_archive_candidate ''replaced'') (Inr (), d) t = (Inr (), w)"
      "tp_collector w = tc_archive_candidate ''replaced'' (tp_collector t)"
      using register_ordinary [OF assms(3), of "tc_archive_candidate ''replaced''" t] by (metis prod.collapse)
    have mw: "mirrors w" using register_mirrors [OF assms(1), of "tc_archive_candidate ''replaced''" d] w(1) by simp
    show ?thesis
    proof (cases "tc_active_candidate (tp_collector t) = None")
      case True
      then show ?thesis using assms(2) update_mirrors [of t] start_counts [OF True]
        by (simp add: Tp_op Op_start tp_start_candidate_def eseq_def)
    next
      case False
      then have "tc_active_candidate (tp_collector w) = None" by (auto simp: w(2) tc_archive_candidate_def
          tc_register_false_wake_def Let_def)
      from False mw update_mirrors [of w] start_counts [OF this] show ?thesis
        by (simp add: Tp_op Op_start tp_start_candidate_def eseq_def w(1))
    qed
  next
    case Op_drop
    then show ?thesis using assms by (simp add: Tp_op tp_drop_candidate_def register_mirrors)
  next
    case (Op_update n x r s f)
    then show ?thesis using assms(2)
      by (simp add: Tp_op) (rule update_mirrors, auto simp: tc_update_candidate_def split: option.splits)
  next
    case Op_confirm
    then show ?thesis using assms(2)
      by (simp add: Tp_op) (rule update_mirrors, auto simp: tc_confirm_candidate_def split: option.splits)
  next
    case (Op_asr_latency ms)
    then show ?thesis using assms(2)
      by (simp add: Tp_op) (rule update_mirrors, auto simp: tc_register_asr_latency_def)
  qed (use assms in \<open>simp_all add: register_mirrors\<close>)
next
  case (Tp_inference ms)
  then show ?thesis using assms(2) by simp (rule update_mirrors, auto simp: tc_register_inference_latency_def)
next
  case (Tp_depth n)
  then show ?thesis using assms(2) by simp (rule update_mirrors, auto simp: tc_register_queue_depth_def)
qed (use assms in \<open>simp_all add: register_mirrors\<close>)

lemma persist_config:
  "tp_metrics_to_disk (snd (tp_persist o' t)) = tp_metrics_to_disk t"
  by (auto simp: tp_persist_def tp_export_def Let_def split: sum.splits)

lemma register_config: "tp_metrics_to_disk (snd (tp_register f o' t)) = tp_metrics_to_disk t"
  by (simp add: tp_register_def persist_config tp_update_def)

lemma exec_config: "tp_metrics_to_disk (snd (tp_exec c o' t)) = tp_metrics_to_disk t"
proof -
  have start: "tp_metrics_to_disk (snd (tp_start_candidate n n' p v k x r s f o' t)) = tp_metrics_to_disk t"
    for n n' p v k x r s f
    using register_config [of "tc_archive_candidate ''replaced''" o' t]
    by (auto simp: tp_start_candidate_def eseq_def tp_update_def split: prod.splits sum.splits)
  show ?thesis
  proof (cases c)
    case (Tp_op op)
    then show ?thesis
      by (cases op) (simp_all add: start tp_drop_candidate_def register_config tp_update_def)
  qed (simp_all add: register_config tp_update_def)
qed

text \<open>Writing metrics never disturbs the collector. Whatever ordinary exceptions opening and writing the file
  raise, no call raises and the collector is the one it would be without a disk; without
  \<open>metrics_to_disk\<close> the disk is not touched; and as long as the file can be opened, a file that was
  written completely shows the collector's wake and false-wake counts and stream resets.\<close>

theorem persistence_is_harmless:
  assumes "\<forall>(c, o')\<in>set cs. ordinary o'"
  shows "tp_collector (tp_run cs (new_telemetry on path d)) = fold (\<lambda>(c, o'). tp_pure c) cs tc_reset
     \<and> (\<not> on \<longrightarrow> tp_disk (tp_run cs (new_telemetry on path d)) = d)
     \<and> (on \<and> d path = None \<and> (\<forall>(c, o')\<in>set cs. fst o' = Inr ()) \<longrightarrow>
          mirrors (tp_run cs (new_telemetry on path d)))"
proof -
  have coll: "tp_collector (tp_run cs t) = fold (\<lambda>(c, o'). tp_pure c) cs (tp_collector t)"
    if "\<forall>(c, o')\<in>set cs. ordinary o'" for cs t
    using that
  proof (induction cs arbitrary: t)
    case (Cons co cs)
    then show ?case using exec_ordinary [of "snd co" "fst co" t] by (cases co) (simp add: tp_run_def)
  qed (simp add: tp_run_def)
  have off: "tp_disk (tp_run cs t) = tp_disk t"
    if "\<forall>(c, o')\<in>set cs. ordinary o'" "\<not> tp_metrics_to_disk t" for cs t
    using that
  proof (induction cs arbitrary: t)
    case (Cons co cs)
    obtain c o' where co: "co = (c, o')" by (cases co) blast
    have reg: "tp_disk (snd (tp_register f o' t)) = tp_disk t" for f
      using Cons.prems by (simp add: tp_register_def tp_persist_def tp_update_def)
    have start: "tp_disk (snd (tp_start_candidate n n' p v k x r s f o' t)) = tp_disk t" for n n' p v k x r s f
      using reg [of "tc_archive_candidate ''replaced''"]
      by (auto simp: tp_start_candidate_def eseq_def tp_update_def split: prod.splits sum.splits)
    have "tp_disk (snd (tp_exec c o' t)) = tp_disk t"
    proof (cases c)
      case (Tp_op op)
      then show ?thesis by (cases op) (simp_all add: start reg tp_drop_candidate_def tp_update_def)
    qed (simp_all add: reg tp_update_def)
    with Cons show ?case by (simp add: tp_run_def co exec_config)
  qed (simp add: tp_run_def)
  have mirror: "mirrors (tp_run cs t)"
    if "\<forall>(c, o')\<in>set cs. ordinary o' \<and> fst o' = Inr ()" "tp_metrics_to_disk t" "mirrors t" for cs t
    using that
  proof (induction cs arbitrary: t)
    case (Cons co cs)
    obtain c w where co: "co = (c, Inr (), w)" using Cons.prems(1) by (cases co) auto
    then show ?case
      using Cons exec_mirrors [OF Cons.prems(2,3), of w c] exec_config [of c "(Inr (), w)" t] by (simp add: tp_run_def)
  qed (simp add: tp_run_def)
  show ?thesis
  proof (intro conjI impI)
    show "tp_collector (tp_run cs (new_telemetry on path d)) = fold (\<lambda>(c, o'). tp_pure c) cs tc_reset"
      using coll [OF assms, of "new_telemetry on path d"] by (simp add: new_telemetry_def)
    show "tp_disk (tp_run cs (new_telemetry on path d)) = d" if "\<not> on"
      using off [OF assms, of "new_telemetry on path d"] that by (simp add: new_telemetry_def)
    assume a: "on \<and> d path = None \<and> (\<forall>(c, o')\<in>set cs. fst o' = Inr ())"
    then have "\<forall>(c, o')\<in>set cs. ordinary o' \<and> fst o' = Inr ()" using assms by blast
    with a show "mirrors (tp_run cs (new_telemetry on path d))"
      by (intro mirror) (auto simp: new_telemetry_def mirrors_def)
  qed
qed

text \<open>But a confirmed candidate is not in the file: the engine registers the wake, which writes the file, and
  confirms the candidate after that, which does not.\<close>

lemma confirmed_session_not_on_disk:
  assumes "tc_active_candidate c = Some a"
    and "t = \<lparr>tp_metrics_to_disk = True, tp_metrics_path = p, tp_collector = c, tp_disk = d\<rparr>"
  shows "(case tp_disk (tp_run [(Tp_op (Op_wake ms), (Inr (), Inr ())), (Tp_op Op_confirm, (Inr (), Inr ()))] t) p of
      Some (Some m) \<Rightarrow> mt_candidate_sessions m = tc_candidate_sessions c | _ \<Rightarrow> False)"
    and "length (tc_candidate_sessions (tp_collector
      (tp_run [(Tp_op (Op_wake ms), (Inr (), Inr ())), (Tp_op Op_confirm, (Inr (), Inr ()))] t)))
      = Suc (length (tc_candidate_sessions c))"
  using assms
  by (simp_all add: tp_run_def tp_register_def tp_persist_def tp_export_def tp_update_def tc_get_metrics_def
      tc_register_wake_def tc_confirm_candidate_def Let_def)

end
