(* ===== verification/Command_Line.thy ===== *)
theory Command_Line
  imports Process_Entry Json_Text
begin

text \<open>
  The command lines of the two processes: the parsers of \<^verbatim>\<open>main\<close> in \<^verbatim>\<open>src/runtime/supervisor/supervisor.py\<close> and
  \<^verbatim>\<open>src/runtime/worker/worker_process.py\<close>, with what \<open>argparse\<close> documents of the options they declare: long
  options, a value in the argument that follows, conversion by the option's type, a flag. An argument
  that starts with a dash and is no option by itself (an abbreviation, \<open>--name=value\<close>, a negative
  number) is outside the model (\<open>None\<close>), as is a number that is not written with digits alone.
  A refused command line exits the process.
\<close>

section \<open>Options\<close>

datatype opt_kind = Opt_str | Opt_int | Opt_float | Opt_flag

datatype arg_value = A_str string | A_int nat | A_float pyfloat | A_set

type_synonym opt_table = "(string \<times> opt_kind) list"
type_synonym namespace = "(string, arg_value) dict"

text \<open>An argument that is not taken for an option.\<close>

definition plain_arg :: "string \<Rightarrow> bool" where
  "plain_arg t \<longleftrightarrow> take 1 t \<noteq> ''-'' \<or> t = ''-''"

text \<open>The conversions. \<open>None\<close>: outside the model; \<open>Some None\<close>: the conversion raises \<open>ValueError\<close>.\<close>

definition all_digits :: "string \<Rightarrow> bool" where
  "all_digits s \<longleftrightarrow> s \<noteq> '''' \<and> list_all is_digit s"

definition read_int_arg :: "string \<Rightarrow> nat option option" where
  "read_int_arg s =
     (if all_digits s then Some (Some (digits_value s)) else if list_ex is_digit s then None else Some None)"

definition read_float_arg :: "string \<Rightarrow> pyfloat option option" where
  "read_float_arg s =
     (let ip = takeWhile is_digit s; r = drop (length ip) s in
      if ip = '''' then None
      else if r = '''' then Some (Some (of_nat (digits_value ip)))
      else if hd r = CHR ''.'' \<and> all_digits (tl r)
        then Some (Some (of_nat (digits_value ip) + of_nat (digits_value (tl r)) / 10 ^ length (tl r)))
      else None)"

definition convert_arg :: "opt_kind \<Rightarrow> string \<Rightarrow> arg_value option option" where
  "convert_arg k v =
     (case k of
        Opt_str \<Rightarrow> Some (Some (A_str v))
      | Opt_int \<Rightarrow> map_option (map_option A_int) (read_int_arg v)
      | Opt_float \<Rightarrow> map_option (map_option A_float) (read_float_arg v)
      | Opt_flag \<Rightarrow> Some (Some A_set))"

text \<open>\<open>parse_known_args\<close>: the namespace (an option given twice keeps its last value) and the arguments that
  belong to no option.\<close>

fun parse_known_args ::
  "opt_table \<Rightarrow> string list \<Rightarrow> namespace \<times> string list \<Rightarrow> (py_exc + namespace \<times> string list) option" where
  "parse_known_args tab [] (ns, rest) = Some (Inr (ns, rest))"
| "parse_known_args tab (t # ts) (ns, rest) =
     (case map_of tab t of
        None \<Rightarrow> if plain_arg t then parse_known_args tab ts (ns, rest @ [t]) else None
      | Some k \<Rightarrow>
          if k = Opt_flag then parse_known_args tab ts (AList.update t A_set ns, rest)
          else (case ts of
             [] \<Rightarrow> Some (Inl SystemExit)
           | v # ts' \<Rightarrow>
               if map_of tab v \<noteq> None then Some (Inl SystemExit)
               else if \<not> plain_arg v then None
               else case convert_arg k v of
                      None \<Rightarrow> None
                    | Some None \<Rightarrow> Some (Inl SystemExit)
                    | Some (Some x) \<Rightarrow> parse_known_args tab ts' (AList.update t x ns, rest)))"

text \<open>\<open>parse_args\<close> also refuses arguments that are left over.\<close>

definition parse_args :: "opt_table \<Rightarrow> string list \<Rightarrow> (py_exc + namespace) option" where
  "parse_args tab argv =
     map_option (\<lambda>r. sbind r (\<lambda>(ns, rest). if rest = [] then Inr ns else Inl SystemExit))
       (parse_known_args tab argv ([], []))"

fun arg_str :: "arg_value option \<Rightarrow> string option" where
  "arg_str (Some (A_str s)) = Some s"
| "arg_str _ = None"

fun arg_int :: "nat \<Rightarrow> arg_value option \<Rightarrow> nat" where
  "arg_int d (Some (A_int n)) = n"
| "arg_int d _ = d"

fun arg_float :: "pyfloat \<Rightarrow> arg_value option \<Rightarrow> pyfloat" where
  "arg_float d (Some (A_float x)) = x"
| "arg_float d _ = d"

section \<open>The two parsers\<close>

definition SUPERVISOR_OPTIONS :: opt_table where
  "SUPERVISOR_OPTIONS =
     [(''--profile'', Opt_str), (''--max-restarts'', Opt_int), (''--restart-window'', Opt_int),
      (''--heartbeat-timeout'', Opt_float), (''--ws-port'', Opt_int), (''--debug'', Opt_flag)]"

definition supervisor_args :: "string list \<Rightarrow> (py_exc + sup_args) option" where
  "supervisor_args argv =
     map_option (\<lambda>r. sbind r (\<lambda>(ns, _). Inr
         \<lparr>sg_profile = arg_str (map_of ns ''--profile''),
          sg_max_restarts = arg_int 5 (map_of ns ''--max-restarts''),
          sg_restart_window = arg_int 60 (map_of ns ''--restart-window''),
          sg_heartbeat_timeout = arg_float 12 (map_of ns ''--heartbeat-timeout''),
          sg_ws_port = arg_int 5050 (map_of ns ''--ws-port''),
          sg_debug = (map_of ns ''--debug'' \<noteq> None)\<rparr>))
       (parse_known_args SUPERVISOR_OPTIONS argv ([], []))"

record worker_args =
  wg_profile :: "string option"
  wg_ipc_host :: string
  wg_ipc_port :: nat
  wg_debug :: bool

definition WORKER_OPTIONS :: opt_table where
  "WORKER_OPTIONS =
     [(''--profile'', Opt_str), (''--ipc-host'', Opt_str), (''--ipc-port'', Opt_int), (''--debug'', Opt_flag)]"

definition worker_main_args :: "string list \<Rightarrow> (py_exc + worker_args) option" where
  "worker_main_args argv =
     map_option (\<lambda>r. sbind r (\<lambda>ns. Inr
         \<lparr>wg_profile = arg_str (map_of ns ''--profile''),
          wg_ipc_host = (case arg_str (map_of ns ''--ipc-host'') of None \<Rightarrow> ''127.0.0.1'' | Some h \<Rightarrow> h),
          wg_ipc_port = arg_int 0 (map_of ns ''--ipc-port''),
          wg_debug = (map_of ns ''--debug'' \<noteq> None)\<rparr>))
       (parse_args WORKER_OPTIONS argv)"

text \<open>\<^verbatim>\<open>start_worker\<close> of \<^verbatim>\<open>src/runtime/worker/bootstrap.py\<close> has no parameter for the debug flag.\<close>

definition start_worker :: "string option \<Rightarrow> string \<Rightarrow> nat \<Rightarrow> worker_args" where
  "start_worker profile ipc_host ipc_port =
     \<lparr>wg_profile = profile, wg_ipc_host = ipc_host, wg_ipc_port = ipc_port, wg_debug = False\<rparr>"

text \<open>\<^verbatim>\<open>python -m module\<close> leaves the arguments after the module's name in \<^verbatim>\<open>sys.argv[1:]\<close>.\<close>

definition module_argv :: "string list \<Rightarrow> string list" where
  "module_argv cmd = drop 3 cmd"

section \<open>From the supervisor's command line to the worker's\<close>

definition strings_plain :: "namespace \<Rightarrow> bool" where
  "strings_plain ns \<longleftrightarrow> (\<forall>t v. map_of ns t = Some (A_str v) \<longrightarrow> plain_arg v)"

lemma strings_plain_update: "strings_plain ns \<Longrightarrow> (\<And>v. x = A_str v \<Longrightarrow> plain_arg v) \<Longrightarrow> strings_plain (AList.update t x ns)"
  by (simp add: strings_plain_def update_conv)

lemma convert_str: "convert_arg k v = Some (Some (A_str s)) \<Longrightarrow> s = v"
  by (cases k) (auto simp: convert_arg_def)

lemma parsed_strings_plain:
  "parse_known_args tab ts (ns, rest) = Some (Inr (ns', rest')) \<Longrightarrow> strings_plain ns \<Longrightarrow> strings_plain ns'"
proof (induction tab ts "(ns, rest)" arbitrary: ns rest rule: parse_known_args.induct)
  case (2 tab t ts ns rest)
  show ?case
  proof (cases "map_of tab t")
    case None
    then show ?thesis using 2(1) [OF None] 2(4,5) by (simp split: if_splits)
  next
    case (Some k)
    show ?thesis
    proof (cases "k = Opt_flag")
      case True
      then show ?thesis using 2(2) [OF Some True] 2(4,5) Some strings_plain_update [of ns A_set t] by simp
    next
      case False
      obtain v ts' x where v: "ts = v # ts'" "\<not> map_of tab v \<noteq> None" "\<not> \<not> plain_arg v"
        "convert_arg k v = Some (Some x)"
        and run: "parse_known_args tab ts' (AList.update t x ns, rest) = Some (Inr (ns', rest'))"
        using 2(4) Some False by (auto split: list.splits if_splits option.splits)
      have "strings_plain (AList.update t x ns)"
        using 2(5) v(3,4) convert_str [of k v] by (auto intro: strings_plain_update)
      then show ?thesis by (rule 2(3) [OF Some False v refl run])
    qed
  qed
qed simp

lemma arg_str_eq: "arg_str x = Some s \<longleftrightarrow> x = Some (A_str s)"
  by (cases x rule: arg_str.cases) auto

lemma nat_text_arg: "plain_arg (nat_text n)" "read_int_arg (nat_text n) = Some (Some n)"
  "map_of WORKER_OPTIONS (nat_text n) = None"
proof -
  obtain c cs where c: "nat_text n = c # cs" "is_digit c" using nat_text_head [of n] by blast
  have d: "c \<noteq> CHR ''-''" using c(2) by (auto simp: is_digit_def)
  then show "plain_arg (nat_text n)" by (simp add: plain_arg_def c(1))
  show "read_int_arg (nat_text n) = Some (Some n)"
  proof -
    have "all_digits (nat_text n)" using nat_text_digits [of n] c(1) by (simp add: all_digits_def list_all_iff)
    then show ?thesis by (simp add: read_int_arg_def digits_value_nat_text)
  qed
  show "map_of WORKER_OPTIONS (nat_text n) = None" using d by (simp add: WORKER_OPTIONS_def c(1))
qed

lemma plain_no_option: "plain_arg p \<Longrightarrow> map_of WORKER_OPTIONS p = None"
proof -
  assume p: "plain_arg p"
  have "\<not> plain_arg ''--profile''" "\<not> plain_arg ''--ipc-host''" "\<not> plain_arg ''--ipc-port''" "\<not> plain_arg ''--debug''"
    by (simp_all add: plain_arg_def)
  with p have "p \<notin> {''--profile'', ''--ipc-host'', ''--ipc-port'', ''--debug''}" by blast
  then show ?thesis by (simp add: WORKER_OPTIONS_def)
qed

lemma worker_reads:
  assumes "\<And>p. sg_profile a = Some p \<Longrightarrow> p \<noteq> '''' \<Longrightarrow> plain_arg p" "plain_arg host"
  shows "worker_main_args (module_argv (spawn_cmd (main_worker_cmd exe a) (Some (host, nat_text port)))) =
     Some (Inr \<lparr>wg_profile = (case sg_profile a of Some p \<Rightarrow> if p \<noteq> '''' then Some p else None | None \<Rightarrow> None),
       wg_ipc_host = host, wg_ipc_port = port, wg_debug = sg_debug a\<rparr>)"
proof -
  note parse = worker_main_args_def parse_args_def module_argv_def spawn_cmd_def main_worker_cmd_def
    convert_arg_def nat_text_arg plain_no_option assms(2) Let_def update_conv
  have opts: "map_of WORKER_OPTIONS ''--profile'' = Some Opt_str" "map_of WORKER_OPTIONS ''--debug'' = Some Opt_flag"
    "map_of WORKER_OPTIONS ''--ipc-host'' = Some Opt_str" "map_of WORKER_OPTIONS ''--ipc-port'' = Some Opt_int"
    by (simp_all add: WORKER_OPTIONS_def)
  show ?thesis
  proof (cases "\<exists>p. sg_profile a = Some p \<and> p \<noteq> ''''")
    case True
    then obtain p where p: "sg_profile a = Some p" "p \<noteq> ''''" "plain_arg p" using assms(1) by blast
    then show ?thesis by (cases "sg_debug a") (simp_all add: parse opts)
  next
    case False
    then have c: "(case sg_profile a of Some p \<Rightarrow> if p \<noteq> '''' then Some p else None | None \<Rightarrow> None) = None"
      "main_worker_cmd exe a = [exe, ''-m'', ''runtime.worker.worker_process''] @ (if sg_debug a then [''--debug''] else [])"
      by (auto simp: main_worker_cmd_def Let_def split: option.splits)
    show ?thesis unfolding c
      by (cases "sg_debug a") (simp_all add: worker_main_args_def parse_args_def module_argv_def spawn_cmd_def
          convert_arg_def nat_text_arg plain_no_option assms(2) update_conv opts)
  qed
qed

section \<open>Property\<close>



end
