(* ===== verification/Modularize.thy ===== *)
theory Modularize
  imports Ava_Prelude
begin

text \<open>
  \<^verbatim>\<open>src/scripts/do_modularize.py\<close>: the script that moved the modules into \<^verbatim>\<open>runtime/\<close>, left a wrapper
  that re-exports the new module at each old path, and created stubs. The repository is a map from
  paths below the base directory to file contents; directories exist as soon as a file is written
  below them (\<^verbatim>\<open>makedirs\<close>), and \<^verbatim>\<open>shutil.move\<close> onto an existing file replaces it. What the script prints is
  not modelled.
\<close>

section \<open>The script\<close>

type_synonym tree = "string \<rightharpoonup> string"

definition MAPPING :: "(string \<times> string) list" where
  "MAPPING =
    [(''utils/logger.py'', ''runtime/logging/logger.py''),
     (''audio/mic.py'', ''runtime/audio/stream.py''),
     (''audio/buffer.py'', ''runtime/audio/realtime/ring_buffer.py''),
     (''audio/vad.py'', ''runtime/vad/pipeline.py''),
     (''asr/sherpa_stream.py'', ''runtime/asr/streaming.py''),
     (''confidence/scorer.py'', ''runtime/matcher/scorers/phonetic.py''),
     (''detection/matcher.py'', ''runtime/matcher/evaluator.py''),
     (''detection/variants.py'', ''runtime/matcher/variants.py''),
     (''decision/cooldown.py'', ''runtime/matcher/cooldown.py''),
     (''core/engine.py'', ''runtime/kernel/orchestrator.py''),
     (''config/settings.py'', ''runtime/config/defaults.py''),
     (''config/schema.py'', ''runtime/config/schema.py''),
     (''config/validation.py'', ''runtime/config/validation.py''),
     (''telemetry/collector.py'', ''runtime/telemetry/collector.py''),
     (''integration/stdout_bridge.py'', ''runtime/transport/stream/handler.py''),
     (''runtime/state_machine.py'', ''runtime/kernel/lifecycle.py''),
     (''runtime/watchdog.py'', ''runtime/supervisor/watchdog.py'')]"

definition STUBS :: "string list" where
  "STUBS =
    [''runtime/supervisor/supervisor.py'',
     ''runtime/supervisor/restart_policy.py'',
     ''runtime/supervisor/health_monitor.py'',
     ''runtime/supervisor/heartbeat.py'',
     ''runtime/kernel/dispatcher.py'',
     ''runtime/kernel/runtime_state.py'',
     ''runtime/kernel/startup.py'',
     ''runtime/kernel/shutdown.py'',
     ''runtime/pipeline/linear.py'',
     ''runtime/session/manager.py'',
     ''runtime/session/context.py'',
     ''runtime/events/bus.py'',
     ''runtime/events/emitter.py'',
     ''runtime/events/priority.py'',
     ''runtime/events/types.py'',
     ''runtime/transport/websocket_server.py'',
     ''runtime/transport/control/handler.py'',
     ''runtime/transport/control/messages.py'',
     ''runtime/transport/stream/messages.py'',
     ''runtime/audio/backends/portaudio.py'',
     ''runtime/audio/backends/base.py'',
     ''runtime/vad/providers/base.py'',
     ''runtime/vad/providers/silero.py'',
     ''runtime/vad/providers/webrtc.py'',
     ''runtime/asr/providers/base.py'',
     ''runtime/asr/providers/sherpa.py'',
     ''runtime/matcher/engine.py'',
     ''runtime/matcher/ema.py'',
     ''runtime/matcher/scorers/base.py'',
     ''runtime/matcher/scorers/fuzzy.py'',
     ''runtime/models/registry.py'',
     ''runtime/models/verifier.py'',
     ''runtime/models/cache.py'',
     ''runtime/config/loader.py'',
     ''runtime/config/versioning.py'',
     ''runtime/resources/pools.py'',
     ''runtime/resources/budget.py'',
     ''runtime/resources/cleanup.py'',
     ''runtime/security/enforcer.py'',
     ''runtime/security/tokens.py'',
     ''runtime/security/validator.py'',
     ''runtime/security/limits.py'',
     ''runtime/health/scorer.py'',
     ''runtime/health/signals.py'',
     ''runtime/health/reporter.py'',
     ''runtime/manifest/manifest.py'',
     ''runtime/logging/context.py'',
     ''runtime/logging/formatters.py'',
     ''runtime/logging/sinks.py'',
     ''runtime/timing/clock.py'',
     ''runtime/timing/latency.py'',
     ''runtime/debug/crash_snapshot.py'']"

definition path_dirname :: "string \<Rightarrow> string" where
  "path_dirname p = rev (drop 1 (dropWhile (\<lambda>c. c \<noteq> CHR ''/'') (rev p)))"

definition init_of :: "string \<Rightarrow> string" where
  "init_of p = path_dirname p @ ''/__init__.py''"

definition ensure_dir :: "string \<Rightarrow> tree \<Rightarrow> tree" where
  "ensure_dir p t = (if t (init_of p) = None then t(init_of p \<mapsto> '''') else t)"

text \<open>\<open>str.replace\<close> of a non-empty string: leftmost occurrences first, without overlap.\<close>

function py_replace :: "string \<Rightarrow> string \<Rightarrow> string \<Rightarrow> string" where
  "py_replace old new s =
     (if s = [] \<or> old = [] then s
      else if prefix old s then new @ py_replace old new (drop (length old) s)
      else hd s # py_replace old new (tl s))"
  by pat_completeness auto
termination
  by (relation "measure (\<lambda>(old, new, s). length s)") auto

declare py_replace.simps [simp del]

definition wrapper_of :: "string \<Rightarrow> string" where
  "wrapper_of new_rel =
     ''# Compatibility wrapper (Phase 1 Modularization)'' @ [CHR 0x0A] @ ''from ''
       @ py_replace ''.py'' '''' (py_replace ''/'' ''.'' new_rel) @ '' import *'' @ [CHR 0x0A]"

definition stub_text :: string where
  "stub_text = (let q = CHR 0x22 in
     [q, q, q] @ ''Stub file created during Phase 1 Modularization.'' @ [q, q, q, CHR 0x0A])"

definition move_module :: "string \<times> string \<Rightarrow> tree \<Rightarrow> tree" where
  "move_module on t =
     (let (old, new) = on in
      case t old of
        None \<Rightarrow> t
      | Some content \<Rightarrow>
          let t = ensure_dir new t;
              t = t(old := None, new \<mapsto> content)
          in t(old \<mapsto> wrapper_of new))"

definition make_stub :: "string \<Rightarrow> tree \<Rightarrow> tree" where
  "make_stub p t = (if t p = None then (ensure_dir p t)(p \<mapsto> stub_text) else t)"

definition modularize :: "tree \<Rightarrow> tree" where
  "modularize t = fold make_stub STUBS (fold move_module MAPPING t)"

section \<open>One move, one stub\<close>

text \<open>A list of moves whose paths do not collide: no source is moved twice, no target is written twice, no
  target is a source, and no package file is either.\<close>

definition moves_ok :: "(string \<times> string) list \<Rightarrow> bool" where
  "moves_ok m \<longleftrightarrow> distinct (map fst m @ map snd m)
     \<and> list_all (\<lambda>n. init_of n \<notin> set (map fst m @ map snd m)) (map snd m)"

lemma move_module_other:
  "p \<noteq> old \<Longrightarrow> p \<noteq> new \<Longrightarrow> p \<noteq> init_of new \<Longrightarrow> move_module (old, new) t p = t p"
  by (simp add: move_module_def ensure_dir_def Let_def split: option.split)

lemma moves_other:
  "p \<notin> set (map fst m @ map snd m @ map (init_of \<circ> snd) m) \<Longrightarrow> fold move_module m t p = t p"
proof (induction m arbitrary: t)
  case (Cons on m)
  then show ?case using move_module_other [of p "fst on" "snd on" t] by (cases on) simp
qed simp

text \<open>A package file that a move may create is never replaced.\<close>

lemma moves_keep_inits:
  "p \<notin> set (map fst m @ map snd m) \<Longrightarrow> t p = Some c \<Longrightarrow> fold move_module m t p = Some c"
proof (induction m arbitrary: t)
  case (Cons on m)
  obtain old new where on: "on = (old, new)" by fastforce
  have "move_module on t p = Some c"
    using Cons.prems by (auto simp: on move_module_def ensure_dir_def Let_def split: option.split)
  with Cons show ?case by simp
qed simp

lemma moves_ok_Cons:
  assumes "moves_ok ((old, new) # m)"
  shows "moves_ok m" "old \<notin> set (map fst m @ map snd m @ map (init_of \<circ> snd) m)"
    "new \<notin> set (map fst m @ map snd m @ map (init_of \<circ> snd) m)" "old \<noteq> new"
    "init_of new \<notin> set (map fst m @ map snd m)" "init_of new \<noteq> old" "init_of new \<noteq> new"
  using assms by (auto simp: moves_ok_def list_all_iff)

lemma moves_exact:
  "moves_ok m \<Longrightarrow> (old, new) \<in> set m \<Longrightarrow>
     (case t old of
        None \<Rightarrow> fold move_module m t old = None \<and> fold move_module m t new = t new
      | Some c \<Rightarrow> fold move_module m t old = Some (wrapper_of new) \<and> fold move_module m t new = Some c)"
proof (induction m arbitrary: t)
  case (Cons on m)
  obtain o' n' where on: "on = (o', n')" by fastforce
  note ok = moves_ok_Cons [OF Cons.prems(1) [unfolded on]]
  show ?case
  proof (cases "(old, new) = on")
    case True
    then have eq: "old = o'" "new = n'" by (simp_all add: on)
    have one: "move_module on t o' = map_option (\<lambda>_. wrapper_of n') (t o')"
      "move_module on t n' = (case t o' of None \<Rightarrow> t n' | Some c \<Rightarrow> Some c)"
      using ok(4,6,7) by (auto simp: on move_module_def ensure_dir_def Let_def split: option.split)
    show ?thesis
      using moves_other [OF ok(2), of "move_module on t"] moves_other [OF ok(3), of "move_module on t"]
      by (simp add: eq one split: option.split)
  next
    case False
    then have mem: "(old, new) \<in> set m" using Cons.prems(2) by simp
    then have in_m: "old \<in> set (map fst m @ map snd m)" "new \<in> set (map fst m @ map snd m)" by force+
    then have "old \<noteq> o'" "old \<noteq> n'" "old \<noteq> init_of n'" "new \<noteq> o'" "new \<noteq> n'" "new \<noteq> init_of n'"
      using ok(2,3,5) by auto
    then have "move_module on t old = t old" "move_module on t new = t new"
      by (simp_all add: on move_module_other)
    then show ?thesis using Cons.IH [OF ok(1) mem, of "move_module on t"] by (cases "t old") simp_all
  qed
qed simp

lemma stubs_keep: "t p = Some c \<Longrightarrow> fold make_stub ps t p = Some c"
proof (induction ps arbitrary: t)
  case (Cons q ps)
  have "make_stub q t p = Some c" using Cons.prems by (auto simp: make_stub_def ensure_dir_def)
  with Cons.IH show ?case by simp
qed simp

lemma stubs_other:
  "p \<notin> set ps \<Longrightarrow> p \<notin> set (map init_of ps) \<Longrightarrow> fold make_stub ps t p = t p"
  by (induction ps arbitrary: t) (auto simp: make_stub_def ensure_dir_def)

lemma stubs_made:
  "p \<in> set ps \<Longrightarrow> p \<notin> set (map init_of ps) \<Longrightarrow> t p = None \<Longrightarrow> fold make_stub ps t p = Some stub_text"
proof (induction ps arbitrary: t)
  case (Cons q ps)
  show ?case
  proof (cases "p = q")
    case True
    then have "make_stub q t p = Some stub_text" using Cons.prems by (simp add: make_stub_def)
    then show ?thesis by (simp add: stubs_keep)
  next
    case False
    then have "make_stub q t p = None" using Cons.prems by (auto simp: make_stub_def ensure_dir_def)
    with Cons False show ?thesis by simp
  qed
qed simp

section \<open>The lists of the script\<close>

text \<open>No path of the script is a package file, and the three lists of paths are apart.\<close>

lemma init_of_package: "suffix ''__init__.py'' (init_of p)"
  by (simp add: init_of_def suffix_def)

lemma no_package_file:
  "list_all (\<lambda>p. rev (take 11 (rev p)) \<noteq> ''__init__.py'') (map fst MAPPING @ map snd MAPPING @ STUBS)"
  by (simp add: MAPPING_def STUBS_def)

lemma paths_apart: "distinct (map fst MAPPING @ map snd MAPPING @ STUBS)"
  by (simp add: MAPPING_def STUBS_def)

lemma not_init: "p \<in> set (map fst MAPPING @ map snd MAPPING @ STUBS) \<Longrightarrow> p \<noteq> init_of q"
proof
  assume p: "p \<in> set (map fst MAPPING @ map snd MAPPING @ STUBS)" "p = init_of q"
  have "rev (take 11 (rev (init_of q))) = ''__init__.py''" by (simp add: init_of_def)
  with p no_package_file show False by (auto simp: list_all_iff)
qed

lemma mapping_ok: "moves_ok MAPPING"
proof -
  have "distinct (map fst MAPPING @ map snd MAPPING)" using paths_apart by (simp only: distinct_append set_append) blast
  moreover have "init_of n \<notin> set (map fst MAPPING @ map snd MAPPING)" for n
    using not_init by auto
  ultimately show ?thesis by (auto simp: moves_ok_def list_all_iff)
qed

lemma stubs_apart:
  "p \<in> set STUBS \<Longrightarrow>
     p \<notin> set (map fst MAPPING @ map snd MAPPING @ map (init_of \<circ> snd) MAPPING) \<and> p \<notin> set (map init_of STUBS)"
  "p \<in> set (map fst MAPPING @ map snd MAPPING) \<Longrightarrow> p \<notin> set STUBS \<and> p \<notin> set (map init_of STUBS)"
  using paths_apart not_init [of p] by (auto simp del: map_append)

section \<open>Property\<close>

text \<open>C40: what the script does to a repository, and why it must not run twice. A module found at an old path
  is moved to its new path and replaced by the wrapper, a missing one is skipped and its new path left
  alone; a stub is written where there is no file, and nowhere else. But the old path now holds
  a file again, so a second run moves the wrapper over the module: the implementation is replaced by
  a module that imports itself, while the stubs are safe.\<close>

theorem modularize_exact:
  "(\<forall>old new. (old, new) \<in> set MAPPING \<longrightarrow>
      (case t old of
         None \<Rightarrow> modularize t old = None \<and> modularize t new = t new
       | Some c \<Rightarrow> modularize t old = Some (wrapper_of new) \<and> modularize t new = Some c
           \<and> modularize (modularize t) new = Some (wrapper_of new)))
   \<and> (\<forall>p. p \<in> set STUBS \<longrightarrow>
        modularize t p = (case t p of None \<Rightarrow> Some stub_text | Some c \<Rightarrow> Some c)
      \<and> modularize (modularize t) p = modularize t p)"
proof -
  have run: "modularize t p = fold move_module MAPPING t p"
    if "(old, new) \<in> set MAPPING" "p = old \<or> p = new" for old new p t
  proof -
    have "p \<in> set (map fst MAPPING @ map snd MAPPING)" using that by force
    then show ?thesis using stubs_apart(2) by (simp add: modularize_def stubs_other)
  qed
  have stub: "modularize t p = (case t p of None \<Rightarrow> Some stub_text | Some c \<Rightarrow> Some c)" if "p \<in> set STUBS" for p t
  proof -
    have p: "p \<notin> set (map fst MAPPING @ map snd MAPPING @ map (init_of \<circ> snd) MAPPING)" "p \<notin> set (map init_of STUBS)"
      using stubs_apart(1) [OF that] by blast+
    have "fold move_module MAPPING t p = t p" by (rule moves_other [OF p(1)])
    with that p(2) show ?thesis
      by (cases "t p") (simp_all add: modularize_def stubs_made stubs_keep)
  qed
  have "case t old of
         None \<Rightarrow> modularize t old = None \<and> modularize t new = t new
       | Some c \<Rightarrow> modularize t old = Some (wrapper_of new) \<and> modularize t new = Some c
           \<and> modularize (modularize t) new = Some (wrapper_of new)"
    if mem: "(old, new) \<in> set MAPPING" for old new
    using moves_exact [OF mapping_ok mem, of t] moves_exact [OF mapping_ok mem, of "modularize t"]
      run [OF mem] by (auto split: option.splits)
  moreover have "modularize (modularize t) p = modularize t p" if "p \<in> set STUBS" for p
    using stub [OF that, of t] stub [OF that, of "modularize t"] by (simp split: option.splits)
  ultimately show ?thesis using stub by blast
qed

theorem modularize_exact_witness:
  "modularize (modularize [''core/engine.py'' \<mapsto> ''class WakeEngine'']) ''runtime/kernel/orchestrator.py''
     = Some (wrapper_of ''runtime/kernel/orchestrator.py'')"
proof -
  have "(''core/engine.py'', ''runtime/kernel/orchestrator.py'') \<in> set MAPPING" by code_simp
  with modularize_exact [of "[''core/engine.py'' \<mapsto> ''class WakeEngine'']"] show ?thesis by fastforce
qed

end
