(* ===== verification/Linear_Pipeline.thy ===== *)
theory Linear_Pipeline
  imports Streamer
begin

text \<open>
  \<^verbatim>\<open>src/runtime/pipeline/linear.py\<close>: the scaffolding of a pipeline object around the streamer. Its
  \<open>process\<close> does nothing yet, and the two stages raise.
\<close>

record audio_frame =
  af_samples :: chunk
  af_sample_rate :: nat
  af_timestamp :: time_s

record hypothesis_result =
  hr_text :: string
  hr_stability :: nat
  hr_peak :: string
  hr_generation_id :: nat
  hr_correlation_id :: string

record ('o, 's) linear_pipeline =
  lp_streamer :: "('o, 's) streamer"

definition new_linear_pipeline :: "('o, 's) streamer \<Rightarrow> ('o, 's) linear_pipeline" where
  "new_linear_pipeline s = \<lparr>lp_streamer = s\<rparr>"

text \<open>The callback is a step of the caller's state; it is never called.\<close>

definition lp_process ::
  "audio_frame \<Rightarrow> (hypothesis_result \<Rightarrow> 'u \<Rightarrow> 'u) \<Rightarrow> ('o, 's) linear_pipeline \<times> 'u
     \<Rightarrow> hypothesis_result option \<times> ('o, 's) linear_pipeline \<times> 'u" where
  "lp_process frame callback s = (None, s)"

definition lp_run_vad :: "audio_frame \<Rightarrow> ('o, 's) linear_pipeline \<Rightarrow> py_exc + bool" where
  "lp_run_vad frame p = Inl (OtherException ''NotImplementedError: VAD stage not yet extracted from SherpaStreamer'')"

definition lp_run_asr :: "audio_frame \<Rightarrow> ('o, 's) linear_pipeline \<Rightarrow> py_exc + string option" where
  "lp_run_asr frame p = Inl (OtherException ''NotImplementedError: ASR stage not yet extracted from SherpaStreamer'')"

text \<open>However many frames go through the pipeline, nothing is heard: the streamer and the caller's state stay
  as they are, and every result is \<open>None\<close>.\<close>

lemma pipeline_is_inert:
  "snd (fold (\<lambda>frame (rs, s). let (r, s) = lp_process frame callback s in (rs @ [r], s)) frames (rs, s)) = s
   \<and> fst (fold (\<lambda>frame (rs, s). let (r, s) = lp_process frame callback s in (rs @ [r], s)) frames (rs, s))
       = rs @ replicate (length frames) None"
  by (induction frames arbitrary: rs) (simp_all add: lp_process_def replicate_app_Cons_same)

end
