(* ===== verification/Defaults_Module.thy ===== *)
theory Defaults_Module
  imports Settings
begin

text \<open>
  \<^verbatim>\<open>src/runtime/config/defaults.py\<close> as Python runs it. The file holds its configuration twice, one copy
  after the other, and importing it runs the assignments of both in order; the model is that run, over
  an environment of names. The paths the file computes are parameters: the platform's \<open>join\<close>, the
  directory three levels above the file, and the cache root (\<open>Settings.MODELS_DIR\<close> says how it is found).
\<close>

section \<open>Running the assignments\<close>

datatype cfg_value = CV_num pyfloat | CV_bool bool | CV_str string | CV_dict "(string, bool) dict"

type_synonym cfg_env = "string \<rightharpoonup> cfg_value"
type_synonym assignment = "string \<times> (cfg_env \<Rightarrow> cfg_value)"

abbreviation num_const :: "pyfloat \<Rightarrow> cfg_env \<Rightarrow> cfg_value" where
  "num_const x \<equiv> \<lambda>_. CV_num x"

abbreviation bool_const :: "bool \<Rightarrow> cfg_env \<Rightarrow> cfg_value" where
  "bool_const x \<equiv> \<lambda>_. CV_bool x"

abbreviation str_const :: "string \<Rightarrow> cfg_env \<Rightarrow> cfg_value" where
  "str_const x \<equiv> \<lambda>_. CV_str x"

fun cv_str :: "cfg_value option \<Rightarrow> string" where
  "cv_str (Some (CV_str s)) = s"
| "cv_str _ = ''''"

definition run_assignments :: "assignment list \<Rightarrow> cfg_env \<Rightarrow> cfg_env" where
  "run_assignments xs e = fold (\<lambda>(n, f) e. e(n \<mapsto> f e)) xs e"

definition defaults_first :: "(string list \<Rightarrow> string) \<Rightarrow> string \<Rightarrow> assignment list" where
  "defaults_first join base_dir =
     [(''BASE_DIR'', \<lambda>_. CV_str base_dir),
      (''MODELS_DIR'', \<lambda>e. CV_str (join [cv_str (e ''BASE_DIR''), ''models''])),
      (''SAMPLE_RATE'', num_const 16000),
      (''BLOCK_SIZE'', num_const 1600),
      (''TRAILING_PAD_FRAMES'', num_const 2),
      (''NUM_THREADS'', num_const 2),
      (''ENDPOINT_RULE1_SILENCE'', num_const (3/5)),
      (''ENDPOINT_RULE2_SILENCE'', num_const (6/5)),
      (''ENDPOINT_RULE3_UTTERANCE'', num_const 20),
      (''SILENCE_RESET_FRAMES'', num_const 30),
      (''VAD_AGGRESSIVENESS'', num_const 1),
      (''VAD_FRAME_SAMPLES'', num_const 480),
      (''RMS_FLOOR'', num_const (1/200)),
      (''SILERO_THRESHOLD'', num_const (3/20)),
      (''DEBUG_VAD_BYPASS'', bool_const True),
      (''NOISE_FLOOR_MULTIPLIER'', num_const (9/5)),
      (''NOISE_HISTORY_FRAMES'', num_const 40),
      (''MIN_SPEECH_FRAMES'', num_const 3),
      (''MIN_SILENCE_FRAMES'', num_const 8),
      (''MIN_SPEECH_MS'', num_const 250),
      (''MIN_VALID_UTTERANCE_MS'', num_const 600),
      (''RESET_COOLDOWN_SECONDS'', num_const 15),
      (''IDLE_STREAM_TIMEOUT_S'', num_const 60),
      (''JARO_THRESHOLD'', num_const (41/50)),
      (''FUZZY_THRESHOLD'', num_const 65),
      (''REQUIRE_FULL_PHRASE'', bool_const True),
      (''ALLOW_PREFIX_MATCHING'', bool_const False),
      (''DEFAULT_THRESHOLD'', num_const (39/50)),
      (''CONFIDENCE_THRESHOLD'', \<lambda>e. the (e ''DEFAULT_THRESHOLD'')),
      (''WINDOW_SECONDS'', num_const (7/2)),
      (''WEIGHT_MATCH'', num_const (13/20)),
      (''WEIGHT_CONTEXT'', num_const (1/5)),
      (''WEIGHT_STABILITY'', num_const (3/20)),
      (''EMA_RISE_ALPHA'', num_const (7/10)),
      (''EMA_DECAY_ALPHA'', num_const (3/10)),
      (''STABILITY_CAP'', num_const 12),
      (''COOLDOWN_SECONDS'', num_const 2),
      (''AUDIO_QUEUE_MAX'', num_const 20),
      (''WORKER_QUEUE_TIMEOUT'', num_const 1),
      (''HEARTBEAT_INTERVAL_S'', num_const 5),
      (''PHRASE_PRIORITY_MODE'', str_const ''longest''),
      (''METRICS_TO_DISK'', bool_const False),
      (''METRICS_FILE_PATH'', \<lambda>e. CV_str (join [cv_str (e ''BASE_DIR''), ''runtime_metrics.json''])),
      (''LOG_LEVEL'', str_const ''info''),
      (''LOG_DEBUG_SUBSYSTEMS'', \<lambda>_. CV_dict [(''vad'', False), (''asr'', False), (''matcher'', False), (''transport'', False), (''telemetry'', False)]),
      (''DEBUG_TRANSCRIPTS'', bool_const False),
      (''DEBUG_TRANSCRIPT_PARTIAL'', bool_const False),
      (''DEBUG_TRANSCRIPT_FINAL'', bool_const False)]"

definition defaults_second :: "(string list \<Rightarrow> string) \<Rightarrow> string \<Rightarrow> string \<Rightarrow> assignment list" where
  "defaults_second join base_dir cache_root =
     [(''BASE_DIR'', \<lambda>_. CV_str base_dir),
      (''_CACHE_ROOT'', \<lambda>_. CV_str cache_root),
      (''MODELS_DIR'', \<lambda>e. CV_str (join [cv_str (e ''_CACHE_ROOT''), ''models''])),
      (''SAMPLE_RATE'', num_const 16000),
      (''BLOCK_SIZE'', num_const 1600),
      (''TRAILING_PAD_FRAMES'', num_const 2),
      (''NUM_THREADS'', num_const 2),
      (''ENDPOINT_RULE1_SILENCE'', num_const (3/5)),
      (''ENDPOINT_RULE2_SILENCE'', num_const (6/5)),
      (''ENDPOINT_RULE3_UTTERANCE'', num_const 20),
      (''SILENCE_RESET_FRAMES'', num_const 30),
      (''VAD_AGGRESSIVENESS'', num_const 1),
      (''VAD_FRAME_SAMPLES'', num_const 480),
      (''RMS_FLOOR'', num_const (1/200)),
      (''SILERO_THRESHOLD'', num_const (3/20)),
      (''NOISE_FLOOR_MULTIPLIER'', num_const (9/5)),
      (''NOISE_HISTORY_FRAMES'', num_const 40),
      (''MIN_SPEECH_FRAMES'', num_const 3),
      (''MIN_SILENCE_FRAMES'', num_const 8),
      (''MIN_SPEECH_MS'', num_const 250),
      (''MIN_VALID_UTTERANCE_MS'', num_const 600),
      (''RESET_COOLDOWN_SECONDS'', num_const 15),
      (''IDLE_STREAM_TIMEOUT_S'', num_const 60),
      (''JARO_THRESHOLD'', num_const (41/50)),
      (''FUZZY_THRESHOLD'', num_const 65),
      (''REQUIRE_FULL_PHRASE'', bool_const True),
      (''ALLOW_PREFIX_MATCHING'', bool_const False),
      (''DEFAULT_THRESHOLD'', num_const (39/50)),
      (''CONFIDENCE_THRESHOLD'', \<lambda>e. the (e ''DEFAULT_THRESHOLD'')),
      (''WINDOW_SECONDS'', num_const (7/2)),
      (''WEIGHT_MATCH'', num_const (13/20)),
      (''WEIGHT_CONTEXT'', num_const (1/5)),
      (''WEIGHT_STABILITY'', num_const (3/20)),
      (''EMA_RISE_ALPHA'', num_const (7/10)),
      (''EMA_DECAY_ALPHA'', num_const (3/10)),
      (''STABILITY_CAP'', num_const 12),
      (''COOLDOWN_SECONDS'', num_const 2),
      (''AUDIO_QUEUE_MAX'', num_const 20),
      (''WORKER_QUEUE_TIMEOUT'', num_const 1),
      (''HEARTBEAT_INTERVAL_S'', num_const 5),
      (''PHRASE_PRIORITY_MODE'', str_const ''longest''),
      (''METRICS_TO_DISK'', bool_const False),
      (''METRICS_FILE_PATH'', \<lambda>e. CV_str (join [cv_str (e ''BASE_DIR''), ''runtime_metrics.json''])),
      (''LOG_LEVEL'', str_const ''info''),
      (''LOG_DEBUG_SUBSYSTEMS'', \<lambda>_. CV_dict [(''vad'', False), (''asr'', False), (''matcher'', False), (''transport'', False), (''telemetry'', False)]),
      (''DEBUG_TRANSCRIPTS'', bool_const False),
      (''DEBUG_TRANSCRIPT_PARTIAL'', bool_const False),
      (''DEBUG_TRANSCRIPT_FINAL'', bool_const False)]"

definition defaults_module :: "(string list \<Rightarrow> string) \<Rightarrow> string \<Rightarrow> string \<Rightarrow> cfg_env" where
  "defaults_module join base_dir cache_root =
     run_assignments (defaults_second join base_dir cache_root)
       (run_assignments (defaults_first join base_dir) Map.empty)"

section \<open>What the second copy changes\<close>

text \<open>The names of the first copy in order, and their values, in terms of the constants of \<open>Settings\<close>.\<close>

definition first_names :: "string list" where
  "first_names =
     [''BASE_DIR'',
      ''MODELS_DIR'',
      ''SAMPLE_RATE'',
      ''BLOCK_SIZE'',
      ''TRAILING_PAD_FRAMES'',
      ''NUM_THREADS'',
      ''ENDPOINT_RULE1_SILENCE'',
      ''ENDPOINT_RULE2_SILENCE'',
      ''ENDPOINT_RULE3_UTTERANCE'',
      ''SILENCE_RESET_FRAMES'',
      ''VAD_AGGRESSIVENESS'',
      ''VAD_FRAME_SAMPLES'',
      ''RMS_FLOOR'',
      ''SILERO_THRESHOLD'',
      ''DEBUG_VAD_BYPASS'',
      ''NOISE_FLOOR_MULTIPLIER'',
      ''NOISE_HISTORY_FRAMES'',
      ''MIN_SPEECH_FRAMES'',
      ''MIN_SILENCE_FRAMES'',
      ''MIN_SPEECH_MS'',
      ''MIN_VALID_UTTERANCE_MS'',
      ''RESET_COOLDOWN_SECONDS'',
      ''IDLE_STREAM_TIMEOUT_S'',
      ''JARO_THRESHOLD'',
      ''FUZZY_THRESHOLD'',
      ''REQUIRE_FULL_PHRASE'',
      ''ALLOW_PREFIX_MATCHING'',
      ''DEFAULT_THRESHOLD'',
      ''CONFIDENCE_THRESHOLD'',
      ''WINDOW_SECONDS'',
      ''WEIGHT_MATCH'',
      ''WEIGHT_CONTEXT'',
      ''WEIGHT_STABILITY'',
      ''EMA_RISE_ALPHA'',
      ''EMA_DECAY_ALPHA'',
      ''STABILITY_CAP'',
      ''COOLDOWN_SECONDS'',
      ''AUDIO_QUEUE_MAX'',
      ''WORKER_QUEUE_TIMEOUT'',
      ''HEARTBEAT_INTERVAL_S'',
      ''PHRASE_PRIORITY_MODE'',
      ''METRICS_TO_DISK'',
      ''METRICS_FILE_PATH'',
      ''LOG_LEVEL'',
      ''LOG_DEBUG_SUBSYSTEMS'',
      ''DEBUG_TRANSCRIPTS'',
      ''DEBUG_TRANSCRIPT_PARTIAL'',
      ''DEBUG_TRANSCRIPT_FINAL'']"

definition first_values :: "(string list \<Rightarrow> string) \<Rightarrow> string \<Rightarrow> cfg_value list" where
  "first_values join base_dir =
     [CV_str base_dir,
      CV_str (join [base_dir, ''models'']),
      CV_num (of_nat SAMPLE_RATE),
      CV_num (of_nat BLOCK_SIZE),
      CV_num (of_nat TRAILING_PAD_FRAMES),
      CV_num (of_nat NUM_THREADS),
      CV_num ENDPOINT_RULE1_SILENCE,
      CV_num ENDPOINT_RULE2_SILENCE,
      CV_num ENDPOINT_RULE3_UTTERANCE,
      CV_num (of_nat SILENCE_RESET_FRAMES),
      CV_num (of_nat VAD_AGGRESSIVENESS),
      CV_num (of_nat VAD_FRAME_SAMPLES),
      CV_num RMS_FLOOR,
      CV_num SILERO_THRESHOLD,
      CV_bool True,
      CV_num NOISE_FLOOR_MULTIPLIER,
      CV_num (of_nat NOISE_HISTORY_FRAMES),
      CV_num (of_nat MIN_SPEECH_FRAMES),
      CV_num (of_nat MIN_SILENCE_FRAMES),
      CV_num (of_nat MIN_SPEECH_MS),
      CV_num (of_nat MIN_VALID_UTTERANCE_MS),
      CV_num RESET_COOLDOWN_SECONDS,
      CV_num IDLE_STREAM_TIMEOUT_S,
      CV_num JARO_THRESHOLD,
      CV_num FUZZY_THRESHOLD,
      CV_bool REQUIRE_FULL_PHRASE,
      CV_bool ALLOW_PREFIX_MATCHING,
      CV_num DEFAULT_THRESHOLD,
      CV_num CONFIDENCE_THRESHOLD,
      CV_num WINDOW_SECONDS,
      CV_num WEIGHT_MATCH,
      CV_num WEIGHT_CONTEXT,
      CV_num WEIGHT_STABILITY,
      CV_num EMA_RISE_ALPHA,
      CV_num EMA_DECAY_ALPHA,
      CV_num (of_nat STABILITY_CAP),
      CV_num COOLDOWN_SECONDS,
      CV_num (of_nat AUDIO_QUEUE_MAX),
      CV_num WORKER_QUEUE_TIMEOUT,
      CV_num HEARTBEAT_INTERVAL_S,
      CV_str PHRASE_PRIORITY_MODE,
      CV_bool METRICS_TO_DISK,
      CV_str (join [base_dir, ''runtime_metrics.json'']),
      CV_str LOG_LEVEL,
      CV_dict LOG_DEBUG_SUBSYSTEMS,
      CV_bool False,
      CV_bool False,
      CV_bool False]"

text \<open>The environment as a table, newest entry first.\<close>

fun run_table :: "assignment list \<Rightarrow> (string \<times> cfg_value) list \<Rightarrow> (string \<times> cfg_value) list" where
  "run_table [] t = t"
| "run_table ((n, f) # xs) t = run_table xs ((n, f (map_of t)) # t)"

lemma run_table: "run_assignments xs (map_of t) = map_of (run_table xs t)"
proof (induction xs t rule: run_table.induct)
  case (2 n f xs t)
  have "(map_of t)(n \<mapsto> f (map_of t)) = map_of ((n, f (map_of t)) # t)" by simp
  with 2 show ?case by (simp add: run_assignments_def del: map_of.simps)
qed (simp add: run_assignments_def)

lemma lookup_table:
  "k = n \<Longrightarrow> map_of ((n, v) # t) k = Some v" "k \<noteq> n \<Longrightarrow> map_of ((n, v) # t) k = map_of t k" "map_of [] k = None"
  by simp_all

text \<open>Running assignments whose names have their values already changes nothing.\<close>

lemma run_idem: "list_all (\<lambda>(n, f). e n = Some (f e)) xs \<Longrightarrow> run_assignments xs e = e"
proof (induction xs)
  case (Cons x xs)
  obtain n f where x: "x = (n, f)" by fastforce
  with Cons.prems have "e(n \<mapsto> f e) = e" "list_all (\<lambda>(n, f). e n = Some (f e)) xs"
    by (simp_all add: fun_upd_idem)
  then show ?case using Cons.IH by (simp add: x run_assignments_def)
qed (simp add: run_assignments_def)

lemma first_names_distinct: "distinct first_names"
  by (simp add: first_names_def)

lemma first_run:
  "run_assignments (defaults_first join base_dir) Map.empty = map_of (rev (zip first_names (first_values join base_dir)))"
proof -
  have "run_table (defaults_first join base_dir) [] = rev (zip first_names (first_values join base_dir))"
    by (simp add: defaults_first_def first_names_def first_values_def lookup_table settings del: map_of.simps)
  then show ?thesis using run_table [of "defaults_first join base_dir" "[]"] by simp
qed

lemma map_of_zip_all: "distinct ks \<Longrightarrow> length ks = length vs \<Longrightarrow> map (map_of (zip ks vs)) ks = map Some vs"
  by (rule nth_equalityI) (auto simp: map_of_zip_nth)

text \<open>The constants the rest of the development uses are the values of the file.\<close>

theorem settings_are_file_values:
  "map (run_assignments (defaults_first join base_dir) Map.empty) first_names = map Some (first_values join base_dir)"
proof -
  have len: "length first_names = length (first_values join base_dir)"
    by (simp add: first_names_def first_values_def)
  then have "map_of (rev (zip first_names (first_values join base_dir))) = map_of (zip first_names (first_values join base_dir))"
    by (subst map_of_inject_set) (simp_all add: first_names_distinct rev_map flip: rev_map)
  with map_of_zip_all [OF first_names_distinct len] show ?thesis by (simp add: first_run)
qed

lemma first_lookup:
  "i < length first_names \<Longrightarrow>
     run_assignments (defaults_first join base_dir) Map.empty (first_names ! i) = Some (first_values join base_dir ! i)"
  using arg_cong [OF settings_are_file_values [of join base_dir], of "\<lambda>xs. xs ! i"]
    arg_cong [OF settings_are_file_values [of join base_dir], of length] by simp

text \<open>The two copies of the file agree: the second changes nothing but the models' directory, which moves to
  the cache, and adds the name it computes that from.\<close>

theorem second_copy_moves_models:
  "defaults_module join base_dir cache_root =
     (run_assignments (defaults_first join base_dir) Map.empty)
       (''_CACHE_ROOT'' \<mapsto> CV_str cache_root, ''MODELS_DIR'' \<mapsto> CV_str (join [cache_root, ''models'']))"
proof -
  define e where "e = run_assignments (defaults_first join base_dir) Map.empty"
  define e' where "e' = e(''_CACHE_ROOT'' \<mapsto> CV_str cache_root, ''MODELS_DIR'' \<mapsto> CV_str (join [cache_root, ''models'']))"
  define rest where "rest = drop 3 (defaults_second join base_dir cache_root)"
  let ?vs = "first_values join base_dir"
  have base: "e ''BASE_DIR'' = Some (CV_str base_dir)"
    using first_lookup [of 0 join base_dir] by (simp add: e_def first_names_def first_values_def)
  have thr: "e ''DEFAULT_THRESHOLD'' = Some (CV_num DEFAULT_THRESHOLD)"
    using first_lookup [of 27 join base_dir] by (simp add: e_def first_names_def first_values_def)
  have names: "map fst rest = take 12 (drop 2 first_names) @ drop 15 first_names"
    by (simp add: rest_def defaults_second_def first_names_def)
  have away: "list_all (\<lambda>n. n \<noteq> ''_CACHE_ROOT'' \<and> n \<noteq> ''MODELS_DIR'') (map fst rest)"
    by (simp add: names) (simp add: first_names_def)
  have "map e' (map fst rest) = map e (map fst rest)"
    by (rule map_cong) (use away in \<open>auto simp: e'_def list_all_iff\<close>)
  also have "\<dots> = map Some (take 12 (drop 2 ?vs) @ drop 15 ?vs)"
    using settings_are_file_values [of join base_dir]
    by (simp add: names e_def flip: take_map drop_map)
  also have "\<dots> = map Some (map (\<lambda>(n, f). f e') rest)"
    using base thr by (simp add: rest_def defaults_second_def first_values_def e'_def settings)
  finally have "list_all (\<lambda>(n, f). e' n = Some (f e')) rest"
    by (auto simp: list_all_iff map_eq_conv)
  then have rest: "run_assignments rest e' = e'" by (rule run_idem)
  have split: "defaults_second join base_dir cache_root =
      [(''BASE_DIR'', \<lambda>_. CV_str base_dir), (''_CACHE_ROOT'', \<lambda>_. CV_str cache_root),
       (''MODELS_DIR'', \<lambda>e. CV_str (join [cv_str (e ''_CACHE_ROOT''), ''models'']))] @ rest"
    by (simp add: rest_def defaults_second_def)
  have "run_assignments (defaults_second join base_dir cache_root) e = run_assignments rest e'"
    unfolding split e'_def by (simp add: run_assignments_def fun_upd_idem [of e, OF base])
  with rest show ?thesis by (simp add: defaults_module_def e_def e'_def)
qed

end
