(* ===== verification/Module_Aliases.thy ===== *)
theory Module_Aliases
  imports Runtime_Logging Modularize
begin

text \<open>
  The modules at the old import paths (\<^verbatim>\<open>core/engine.py\<close>, \<^verbatim>\<open>detection/matcher.py\<close> and the others,
  \<^verbatim>\<open>utils/logger.py\<close>): each copies the names of the module it stands for when it is imported. A module is
  the dictionary of its global names, in the order Python lists them, and \<^verbatim>\<open>sys.modules\<close> a dictionary of
  modules; a value stands for an object, so equal values are one object. None of the modules copied
  defines \<^verbatim>\<open>__all__\<close>. The second part is what the copies mean for the debugging flags of
  \<^verbatim>\<open>runtime/telemetry/logging.py\<close>.
\<close>

section \<open>Copying a module\<close>

datatype 'v pyobj = Obj 'v | Mod string | Name string

type_synonym 'v ns = "(string, 'v pyobj) dict"
type_synonym 'v modules = "(string, 'v ns) dict"

definition dunder :: "string \<Rightarrow> bool" where
  "dunder n \<longleftrightarrow> prefix ''__'' n"

text \<open>\<^verbatim>\<open>from impl import *\<close> takes the names without a leading underscore.\<close>

definition star_import :: "'v ns \<Rightarrow> 'v ns \<Rightarrow> 'v ns" where
  "star_import ns g = fold (\<lambda>(n, v) g. if prefix ''_'' n then g else AList.update n v g) ns g"

text \<open>The loop over \<^verbatim>\<open>dir(_impl)\<close>; its variable \<open>name\<close> is a global of the module too.\<close>

definition copy_names :: "'v ns \<Rightarrow> 'v ns \<Rightarrow> 'v ns" where
  "copy_names ns g =
     fold (\<lambda>(n, v) g.
             let g = AList.update ''name'' (Name n) g
             in if dunder n then g else AList.update n v g) ns g"

definition find_module :: "string \<Rightarrow> 'v modules \<Rightarrow> py_exc + 'v ns" where
  "find_module m ms =
     (case map_of ms m of Some ns \<Rightarrow> Inr ns | None \<Rightarrow> Inl (OtherException (''ModuleNotFoundError: '' @ m)))"

definition reexport :: "string \<Rightarrow> 'v modules \<Rightarrow> py_exc + 'v ns" where
  "reexport impl ms =
     sbind (find_module impl ms) (\<lambda>ns.
       Inr (copy_names ns (AList.update ''_impl'' (Mod impl) (star_import ns [(''sys'', Mod ''sys'')]))))"

definition alias_asr_sherpa_stream :: "'v modules \<Rightarrow> py_exc + 'v ns" where
  "alias_asr_sherpa_stream = reexport ''runtime.asr.streaming''"

definition alias_audio_buffer :: "'v modules \<Rightarrow> py_exc + 'v ns" where
  "alias_audio_buffer = reexport ''runtime.audio.realtime.ring_buffer''"

definition alias_audio_mic :: "'v modules \<Rightarrow> py_exc + 'v ns" where
  "alias_audio_mic = reexport ''runtime.audio.stream''"

definition alias_audio_vad :: "'v modules \<Rightarrow> py_exc + 'v ns" where
  "alias_audio_vad = reexport ''runtime.vad.pipeline''"

definition alias_confidence_scorer :: "'v modules \<Rightarrow> py_exc + 'v ns" where
  "alias_confidence_scorer = reexport ''runtime.matcher.scorers.phonetic''"

definition alias_config_schema :: "'v modules \<Rightarrow> py_exc + 'v ns" where
  "alias_config_schema = reexport ''runtime.config.schema''"

definition alias_config_settings :: "'v modules \<Rightarrow> py_exc + 'v ns" where
  "alias_config_settings = reexport ''runtime.config.defaults''"

definition alias_config_validation :: "'v modules \<Rightarrow> py_exc + 'v ns" where
  "alias_config_validation = reexport ''runtime.config.validation''"

definition alias_core_engine :: "'v modules \<Rightarrow> py_exc + 'v ns" where
  "alias_core_engine = reexport ''runtime.kernel.orchestrator''"

definition alias_decision_cooldown :: "'v modules \<Rightarrow> py_exc + 'v ns" where
  "alias_decision_cooldown = reexport ''runtime.matcher.cooldown''"

definition alias_detection_matcher :: "'v modules \<Rightarrow> py_exc + 'v ns" where
  "alias_detection_matcher = reexport ''runtime.matcher.evaluator''"

definition alias_detection_variants :: "'v modules \<Rightarrow> py_exc + 'v ns" where
  "alias_detection_variants = reexport ''runtime.matcher.variants''"

definition alias_integration_stdout_bridge :: "'v modules \<Rightarrow> py_exc + 'v ns" where
  "alias_integration_stdout_bridge = reexport ''runtime.transport.stream.handler''"

definition alias_runtime_state_machine :: "'v modules \<Rightarrow> py_exc + 'v ns" where
  "alias_runtime_state_machine = reexport ''runtime.kernel.lifecycle''"

definition alias_runtime_watchdog :: "'v modules \<Rightarrow> py_exc + 'v ns" where
  "alias_runtime_watchdog = reexport ''runtime.supervisor.watchdog''"

definition alias_telemetry_collector :: "'v modules \<Rightarrow> py_exc + 'v ns" where
  "alias_telemetry_collector = reexport ''runtime.telemetry.collector''"

text \<open>\<^verbatim>\<open>utils/logger.py\<close> only has the star import, and of another module than the script moved it to.\<close>

definition alias_utils_logger :: "'v modules \<Rightarrow> py_exc + 'v ns" where
  "alias_utils_logger ms =
     sbind (find_module ''runtime.telemetry.logging'' ms) (\<lambda>ns. Inr (star_import ns [(''sys'', Mod ''sys'')]))"

definition ALIASES :: "(string \<times> ('v modules \<Rightarrow> py_exc + 'v ns) \<times> string) list" where
  "ALIASES =
     [(''asr.sherpa_stream'', alias_asr_sherpa_stream, ''runtime.asr.streaming''),
      (''audio.buffer'', alias_audio_buffer, ''runtime.audio.realtime.ring_buffer''),
      (''audio.mic'', alias_audio_mic, ''runtime.audio.stream''),
      (''audio.vad'', alias_audio_vad, ''runtime.vad.pipeline''),
      (''confidence.scorer'', alias_confidence_scorer, ''runtime.matcher.scorers.phonetic''),
      (''config.schema'', alias_config_schema, ''runtime.config.schema''),
      (''config.settings'', alias_config_settings, ''runtime.config.defaults''),
      (''config.validation'', alias_config_validation, ''runtime.config.validation''),
      (''core.engine'', alias_core_engine, ''runtime.kernel.orchestrator''),
      (''decision.cooldown'', alias_decision_cooldown, ''runtime.matcher.cooldown''),
      (''detection.matcher'', alias_detection_matcher, ''runtime.matcher.evaluator''),
      (''detection.variants'', alias_detection_variants, ''runtime.matcher.variants''),
      (''integration.stdout_bridge'', alias_integration_stdout_bridge, ''runtime.transport.stream.handler''),
      (''runtime.state_machine'', alias_runtime_state_machine, ''runtime.kernel.lifecycle''),
      (''runtime.watchdog'', alias_runtime_watchdog, ''runtime.supervisor.watchdog''),
      (''telemetry.collector'', alias_telemetry_collector, ''runtime.telemetry.collector'')]"

text \<open>\<^verbatim>\<open>import\<close>: a module that is in \<^verbatim>\<open>sys.modules\<close> is not run again.\<close>

definition import_alias :: "string \<Rightarrow> ('v modules \<Rightarrow> py_exc + 'v ns) \<Rightarrow> 'v modules \<Rightarrow> py_exc + 'v modules" where
  "import_alias a run ms =
     (if map_of ms a \<noteq> None then Inr ms else sbind (run ms) (\<lambda>ns. Inr (AList.update a ns ms)))"

section \<open>Both paths lead to the same objects\<close>

lemma map_of_star:
  "dict_wf ns \<Longrightarrow> map_of (star_import ns g) n =
     (if prefix ''_'' n then map_of g n else case map_of ns n of Some v \<Rightarrow> Some v | None \<Rightarrow> map_of g n)"
proof (induction ns arbitrary: g)
  case (Cons p ns)
  obtain k v where p: "p = (k, v)" by (cases p)
  have k: "map_of ns k = None" "dict_wf ns"
    using Cons.prems by (auto simp: p dict_wf_def map_of_eq_None_iff)
  have step: "star_import (p # ns) g = star_import ns (if prefix ''_'' k then g else AList.update k v g)"
    by (simp add: star_import_def p)
  show ?case
    unfolding step Cons.IH [OF k(2)] using k(1)
    by (auto simp: p update_conv split: option.splits)
qed (simp add: star_import_def)

lemma map_of_copy:
  assumes "dict_wf ns" "\<not> dunder n" "n \<noteq> ''name''"
  shows "map_of (copy_names ns g) n = (case map_of ns n of Some v \<Rightarrow> Some v | None \<Rightarrow> map_of g n)"
  using assms(1)
proof (induction ns arbitrary: g)
  case (Cons p ns)
  obtain k v where p: "p = (k, v)" by (cases p)
  have k: "map_of ns k = None" "dict_wf ns"
    using Cons.prems by (auto simp: p dict_wf_def map_of_eq_None_iff)
  let ?g = "AList.update ''name'' (Name k) g"
  have step: "copy_names (p # ns) g = copy_names ns (if dunder k then ?g else AList.update k v ?g)"
    by (simp add: copy_names_def p Let_def)
  show ?case
    unfolding step Cons.IH [OF k(2)] using k(1) assms(2,3)
    by (auto simp: p update_conv split: option.splits)
qed (simp add: copy_names_def)

text \<open>An alias has every name of its module that is not reserved, bound to the same object, and of other
  names only those of its own code.\<close>

lemma reexport_same:
  assumes "reexport impl ms = Inr ns'" "map_of ms impl = Some ns" "dict_wf ns" "\<not> dunder n"
    "n \<notin> {''name'', ''sys'', ''_impl''}"
  shows "map_of ns' n = map_of ns n"
  using assms map_of_copy [OF assms(3,4)] map_of_star [OF assms(3)]
  by (auto simp: reexport_def find_module_def update_conv split: option.splits)

theorem aliases_share_objects:
  assumes "(a, run, impl) \<in> set ALIASES" "map_of ms a = None" "map_of ms impl = Some ns" "dict_wf ns"
  shows "\<exists>ms' ns'. import_alias a run ms = Inr ms' \<and> map_of ms' a = Some ns'
    \<and> (\<forall>n. \<not> dunder n \<and> n \<notin> {''name'', ''sys'', ''_impl''} \<longrightarrow> map_of ns' n = map_of ns n)
    \<and> import_alias a run ms' = Inr ms'"
proof -
  have run: "run = reexport impl" using assms(1) by (auto simp: ALIASES_def alias_asr_sherpa_stream_def alias_audio_buffer_def alias_audio_mic_def alias_audio_vad_def alias_confidence_scorer_def alias_config_schema_def alias_config_settings_def alias_config_validation_def alias_core_engine_def alias_decision_cooldown_def alias_detection_matcher_def alias_detection_variants_def alias_integration_stdout_bridge_def alias_runtime_state_machine_def alias_runtime_watchdog_def alias_telemetry_collector_def)
  obtain ns' where ns': "reexport impl ms = Inr ns'" using assms(3) by (simp add: reexport_def find_module_def)
  then show ?thesis
    using reexport_same [OF ns' assms(3,4)] assms(2)
    by (intro exI [of _ "AList.update a ns' ms"] exI [of _ ns']) (simp add: import_alias_def run update_conv)
qed

text \<open>The table is what the refactoring script set up, but for the logger, whose alias re-exports another
  module now.\<close>

definition module_of :: "string \<Rightarrow> string" where
  "module_of p = py_replace ''.py'' '''' (py_replace ''/'' ''.'' p)"

lemma aliases_follow_script:
  "set (map (\<lambda>(a, _, impl). (a, impl)) (ALIASES :: (string \<times> ('v modules \<Rightarrow> _) \<times> string) list))
     = set (map (\<lambda>(old, new). (module_of old, module_of new)) MAPPING) - {(''utils.logger'', ''runtime.logging.logger'')}"
proof -
  have "set (map (\<lambda>(old, new). (module_of old, module_of new)) MAPPING) =
      insert (''utils.logger'', ''runtime.logging.logger'')
        (set (map (\<lambda>(a, _, impl). (a, impl)) (ALIASES :: (string \<times> ('v modules \<Rightarrow> _) \<times> string) list)))"
    unfolding ALIASES_def list.map prod.case by code_simp
  moreover have "(''utils.logger'', ''runtime.logging.logger'')
      \<notin> set (map (\<lambda>(a, _, impl). (a, impl)) (ALIASES :: (string \<times> ('v modules \<Rightarrow> _) \<times> string) list))"
    by (simp add: ALIASES_def)
  ultimately show ?thesis by blast
qed

section \<open>The debugging flags\<close>

text \<open>The flags are names that the logging module rebinds. The engine's modules take them from
  \<^verbatim>\<open>utils.logger\<close> when they are imported, and that took them from the logging module when it was: both keep
  what they saw.\<close>

record flag_views =
  fv_log :: log_state
  fv_alias :: "debug_flags option"
  fv_engine :: "debug_flags option"

definition new_flag_views :: flag_views where
  "new_flag_views = \<lparr>fv_log = new_log_state, fv_alias = None, fv_engine = None\<rparr>"

datatype flag_event =
    Import_logger
  | Import_engine
  | Enable_trace
  | Disable_trace
  | Enable_subsystem string
  | Disable_subsystem string

definition import_logger :: "flag_views \<Rightarrow> flag_views" where
  "import_logger v = (if fv_alias v = None then v\<lparr>fv_alias := Some (ls_flags (fv_log v))\<rparr> else v)"

definition import_engine :: "flag_views \<Rightarrow> flag_views" where
  "import_engine v =
     (let v = import_logger v in if fv_engine v = None then v\<lparr>fv_engine := fv_alias v\<rparr> else v)"

fun flag_exec :: "flag_event \<Rightarrow> flag_views \<Rightarrow> flag_views" where
  "flag_exec Import_logger v = import_logger v"
| "flag_exec Import_engine v = import_engine v"
| "flag_exec Enable_trace v = v\<lparr>fv_log := enable_trace (fv_log v)\<rparr>"
| "flag_exec Disable_trace v = v\<lparr>fv_log := disable_trace (fv_log v)\<rparr>"
| "flag_exec (Enable_subsystem s) v = v\<lparr>fv_log := enable_subsystem_debug s (fv_log v)\<rparr>"
| "flag_exec (Disable_subsystem s) v = v\<lparr>fv_log := disable_subsystem_debug s (fv_log v)\<rparr>"

text \<open>The entry of the worker: its module imports the logger, \<^verbatim>\<open>--debug\<close> enables the trace, and only then
  \<^verbatim>\<open>run_worker\<close> imports the engine.\<close>

definition worker_entry_flags :: "bool \<Rightarrow> flag_event list" where
  "worker_entry_flags debug = [Import_logger] @ (if debug then [Enable_trace] else []) @ [Import_engine]"

lemma engine_imported: "fv_engine v \<noteq> None \<Longrightarrow> fv_engine (fold flag_exec es v) = fv_engine v"
proof (induction es arbitrary: v)
  case (Cons e es)
  have "fv_engine (flag_exec e v) = fv_engine v"
    using Cons.prems by (cases e) (auto simp: import_logger_def import_engine_def Let_def)
  with Cons show ?case by simp
qed simp

text \<open>No switch of the debugging output reaches the engine: in a worker, started with \<^verbatim>\<open>--debug\<close> or not, the
  flags its modules test are all off, whatever is enabled before or after they are imported, while the
  logging module reports them on.\<close>

theorem debug_flags_never_reach_engine:
  "fv_engine (fold flag_exec (worker_entry_flags debug @ es) new_flag_views) = Some (all_flags False)
   \<and> ls_flags (fv_log (fold flag_exec (worker_entry_flags True) new_flag_views)) = all_flags True"
proof -
  have "fv_engine (fold flag_exec (worker_entry_flags debug) new_flag_views) = Some (all_flags False)"
    by (simp add: worker_entry_flags_def import_logger_def import_engine_def new_flag_views_def new_log_state_def Let_def)
  then show ?thesis
    using engine_imported [of "fold flag_exec (worker_entry_flags debug) new_flag_views" es]
    by (simp add: worker_entry_flags_def import_logger_def import_engine_def Let_def enable_trace_def)
qed

end
