(* ===== verification/Text_Format.thy ===== *)
theory Text_Format
  imports Command_Line
begin

text \<open>
  The format specifications the reports use: \<^verbatim>\<open>:.df\<close> of a float, \<^verbatim>\<open>:+d\<close> and \<^verbatim>\<open>:,\<close> of an integer, and
  \<^verbatim>\<open>join\<close> over lines. What \<^verbatim>\<open>:.df\<close> prints is read back as the rounded number.
\<close>

definition zero_pad :: "nat \<Rightarrow> string \<Rightarrow> string" where
  "zero_pad d s = replicate (d - length s) CHR ''0'' @ s"

definition fixed_text :: "nat \<Rightarrow> pyfloat \<Rightarrow> string" where
  "fixed_text d x =
     (let n = nat \<lfloor>py_round d \<bar>x\<bar> * 10 ^ d\<rfloor>
      in (if x < 0 then ''-'' else '''') @ nat_text (n div 10 ^ d)
         @ (if d = 0 then '''' else CHR ''.'' # zero_pad d (nat_text (n mod 10 ^ d))))"

definition fixed_plus :: "nat \<Rightarrow> pyfloat \<Rightarrow> string" where
  "fixed_plus d x = (if x < 0 then '''' else ''+'') @ fixed_text d x"

definition plus_text :: "int \<Rightarrow> string" where
  "plus_text i = (if i < 0 then '''' else ''+'') @ int_text i"

fun comma_text :: "nat \<Rightarrow> string" where
  "comma_text n =
     (if n < 1000 then nat_text n else comma_text (n div 1000) @ CHR '','' # zero_pad 3 (nat_text (n mod 1000)))"

declare comma_text.simps [simp del]

abbreviation join_lines :: "string list \<Rightarrow> string" where
  "join_lines \<equiv> py_join [CHR 0x0A]"

section \<open>Printed numbers\<close>

lemma py_round_scaled: "\<exists>k::int. py_round d x * 10 ^ d = of_int k \<and> (0 \<le> x \<longrightarrow> 0 \<le> k)"
proof -
  let ?f = "\<lfloor>x * 10 ^ d\<rfloor>"
  have "0 \<le> x \<longrightarrow> 0 \<le> ?f" by simp
  then show ?thesis
    unfolding py_round_def Let_def
    by (intro exI [of _ "if x * 10 ^ d - of_int ?f < 1/2 then ?f
        else if 1/2 < x * 10 ^ d - of_int ?f then ?f + 1 else if even ?f then ?f else ?f + 1"]) auto
qed

lemma digits_value_pad: "digits_value (zero_pad d s) = digits_value s"
proof -
  have "digits_value (replicate k CHR ''0'' @ s) = digits_value s" for k
    by (induction k) (simp_all add: digits_value_def)
  then show ?thesis by (simp add: zero_pad_def)
qed

lemma nat_text_length: "n < 10 ^ d \<Longrightarrow> 0 < d \<Longrightarrow> length (nat_text n) \<le> d"
proof (induction d arbitrary: n)
  case (Suc d)
  show ?case
  proof (cases "n < 10")
    case False
    then have "n div 10 < 10 ^ d" using Suc.prems(1) by (simp add: less_mult_imp_div_less)
    moreover have "0 < d" using False Suc.prems(1) by (cases d) auto
    ultimately have "length (nat_text (n div 10)) \<le> d" by (rule Suc.IH)
    then show ?thesis using False by (subst nat_text.simps) simp
  qed (subst nat_text.simps, simp)
qed simp

text \<open>What \<^verbatim>\<open>:.df\<close> prints of a number that is not negative is the rounded number, with \<open>d\<close> digits after the
  point.\<close>

lemma fixed_text_read:
  assumes "0 \<le> x" "0 < d"
  shows "read_float_arg (fixed_text d x) = Some (Some (py_round d x))"
proof -
  obtain k where k: "py_round d x * 10 ^ d = of_int k" "0 \<le> k" using py_round_scaled [of d x] assms(1) by blast
  define n where "n = nat k"
  let ?ip = "nat_text (n div 10 ^ d)" and ?fp = "zero_pad d (nat_text (n mod 10 ^ d))"
  have len: "length ?fp = d"
    using nat_text_length [of "n mod 10 ^ d" d] assms(2) by (simp add: zero_pad_def)
  have txt_eq: "fixed_text d x = ?ip @ CHR ''.'' # ?fp"
    using assms k by (simp add: fixed_text_def Let_def n_def)
  have ip: "\<forall>c\<in>set ?ip. is_digit c" "?ip \<noteq> []"
    using nat_text_digits nat_text_head [of "n div 10 ^ d"] by auto
  have fp: "all_digits ?fp"
    using nat_text_digits [of "n mod 10 ^ d"] len assms(2)
    by (auto simp: all_digits_def list_all_iff zero_pad_def is_digit_def)
  have dot: "\<not> is_digit (CHR ''.'')" by (simp add: is_digit_def)
  have tw: "takeWhile is_digit (fixed_text d x) = ?ip" unfolding txt_eq using ip(1) dot by (simp add: takeWhile_append2)
  have "read_float_arg (fixed_text d x) = Some (Some (of_nat (n div 10 ^ d) + of_nat (n mod 10 ^ d) / 10 ^ d))"
    unfolding read_float_arg_def Let_def tw
    using ip(2) fp len by (simp add: txt_eq digits_value_pad digits_value_nat_text)
  moreover have "(of_nat (n div 10 ^ d) + of_nat (n mod 10 ^ d) / 10 ^ d :: rat) = py_round d x"
  proof -
    have "(of_nat n :: rat) = of_nat (n div 10 ^ d * 10 ^ d + n mod 10 ^ d)"
      by (simp only: div_mult_mod_eq)
    also have "\<dots> = of_nat (n div 10 ^ d) * 10 ^ d + of_nat (n mod 10 ^ d)"
      by (simp only: of_nat_add of_nat_mult of_nat_power of_nat_numeral)
    finally have "(of_nat n :: rat) = of_nat (n div 10 ^ d) * 10 ^ d + of_nat (n mod 10 ^ d)" .
    then have "(of_nat (n div 10 ^ d) + of_nat (n mod 10 ^ d) / 10 ^ d :: rat) = of_nat n / 10 ^ d"
      by (simp add: add_divide_distrib)
    also have "\<dots> = py_round d x" using k by (simp add: n_def field_simps)
    finally show ?thesis .
  qed
  ultimately show ?thesis by simp
qed

end
