(* ===== verification/Stress_Runs.thy ===== *)
theory Stress_Runs
  imports Stress_Gates Text_Format Orchestrator Runtime_Threads
begin

text \<open>
  The stress gates on the program's own engine: \<^verbatim>\<open>src/scripts/lifecycle_stress.py\<close> and
  \<^verbatim>\<open>src/scripts/stress_monitor.py\<close> replace \<^verbatim>\<open>SherpaStreamer.start\<close> by a start without a microphone, feed
  synthetic audio into its queue, read samples from its parts and call \<open>stop\<close>. \<open>Stress_Gates\<close> decides on
  what they observe; this theory says what they observe of \<open>WakeEngine\<close>, and the reports they write.
\<close>

section \<open>The engine under test\<close>

text \<open>\<open>_fake_start\<close> up to its waiting loop, and what follows the loop once the event is set.\<close>

definition fake_start ::
  "time_s \<Rightarrow> (py_exc + 'o) \<Rightarrow> ('o, 's) streamer \<Rightarrow> (py_exc + unit) \<times> ('o, 's) streamer" where
  "fake_start now created s =
     eseq (st_provider_reset now created (s\<lparr>st_stop := False\<rparr>)) (\<lambda>_ s.
     eseq (st_asr_transition SS_INITIALIZING s) (\<lambda>_ s.
     eseq (st_asr_transition SS_READY s) (\<lambda>_ s.
     eseq (st_worker_enter s) (\<lambda>_ s.
     eseq (st_audio_transition SS_INITIALIZING s) (\<lambda>_ s.
     eseq (st_audio_transition SS_READY s) (\<lambda>_ s.
     st_audio_transition SS_ACTIVE s))))))"

definition fake_end :: "bool \<Rightarrow> ('o, 's) streamer \<times> thread option \<Rightarrow> (py_exc + bool) \<times> ('o, 's) streamer \<times> thread option" where
  "fake_end ends s =
     (let (r, th) = aw_thread_stop ends (snd s) in (r, (fst s)\<lparr>st_stop := True\<rparr>, th))"

text \<open>The methods of \<open>WakeEngine\<close>. A call of any other raises \<open>AttributeError\<close>.\<close>

definition WAKE_ENGINE_METHODS :: "string list" where
  "WAKE_ENGINE_METHODS =
     [''__init__'', ''load_profile'', ''get_effective_config'', ''update_config'', ''start'', ''_start_candidate'',
      ''_update_candidate'', ''_confirm_candidate'', ''export_metrics_json'', ''_drop_candidate'', ''_on_hypothesis'']"

definition missing_attribute :: "string \<Rightarrow> string" where
  "missing_attribute name = [CHR 0x27] @ ''WakeEngine'' @ [CHR 0x27] @ '' object has no attribute '' @ [CHR 0x27] @ name @ [CHR 0x27]"

definition engine_attribute :: "string \<Rightarrow> string + unit" where
  "engine_attribute name = (if name \<in> set WAKE_ENGINE_METHODS then Inr () else Inl (missing_attribute name))"

text \<open>A cycle of the lifecycle test on the engine: what its constructor with \<open>load_profile\<close> gives, and the
  machine's answers.\<close>

record cycle_env =
  ce_create :: "string + unit"
  ce_alive :: bool
  ce_elapsed :: pyfloat
  ce_before :: int
  ce_after :: int

definition engine_cycle :: "cycle_env \<Rightarrow> cycle_obs" where
  "engine_cycle e =
     \<lparr>co_create = ce_create e, co_stop = engine_attribute ''stop'', co_alive = ce_alive e,
      co_elapsed = ce_elapsed e, co_before = ce_before e, co_after = ce_after e\<rparr>"

section \<open>Synthetic audio\<close>

text \<open>The injector: three seconds of noise, two of silence, again and again, until the stop event is set.\<close>

definition inject_chunk :: "(nat \<Rightarrow> chunk) \<Rightarrow> nat \<Rightarrow> chunk" where
  "inject_chunk noise k = (if k mod 50 < 30 then map (\<lambda>x. x * (5/100)) (noise k) else replicate 1600 0)"

text \<open>\<open>k\<close> counts the chunks; the thread ends with an exception of \<open>enqueue\<close>.\<close>

fun inject_loop :: "(nat \<Rightarrow> chunk) \<Rightarrow> bool list \<Rightarrow> nat \<times> audio_queue \<Rightarrow> (py_exc + unit) \<times> nat \<times> audio_queue" where
  "inject_loop noise [] (k, q) = (Inr (), k, q)"
| "inject_loop noise (stop # stops) (k, q) =
     (if stop then (Inr (), k, q)
      else case aq_enqueue (inject_chunk noise k) q of
             (Inl e, q) \<Rightarrow> (Inl e, k, q)
           | (Inr _, q) \<Rightarrow> inject_loop noise stops (k + 1, q))"

text \<open>The five silent blocks of a lifecycle cycle; the script ignores what \<open>enqueue\<close> raises.\<close>

definition inject_cycle :: "audio_queue \<Rightarrow> audio_queue" where
  "inject_cycle q =
     fst (fold (\<lambda>_ (q, ok). if ok then (case aq_enqueue (replicate 1600 0) q of
                                         (Inl e, q) \<Rightarrow> (q, False) | (Inr _, q) \<Rightarrow> (q, True)) else (q, ok))
            [0..<5::nat] (q, True))"

section \<open>Samples\<close>

text \<open>The memory reading: \<open>tracemalloc\<close> in MiB, or a count of objects when it fails.\<close>

definition mem_mb :: "py_exc + nat \<Rightarrow> nat \<Rightarrow> pyfloat" where
  "mem_mb traced objects =
     (case traced of Inr cur \<Rightarrow> of_nat cur / 1048576
      | Inl e \<Rightarrow> of_nat objects / 10000)"

text \<open>The health entries, from the dictionary of \<open>getDiagnostics\<close>: a value of another type than the code
  expects raises, which sets the score to -1 and leaves the rest of the entries out.\<close>

definition snap_health :: "py_exc + (string, json) dict \<Rightarrow> snap \<Rightarrow> snap" where
  "snap_health diag s =
     (let failed = \<lambda>s. s\<lparr>sx_health := -1\<rparr> in
      case diag of
        Inl e \<Rightarrow> failed s
      | Inr d \<Rightarrow>
          (case jget d ''health'' (JObj []) of
             JObj health_block \<Rightarrow>
               (case jget health_block ''runtimeHealth'' (JNum (-1)) of
                  JNum x \<Rightarrow>
                    let s = s\<lparr>sx_health := py_round 3 x, sx_state := Some (jget d ''current_state'' (JStr ''?''))\<rparr> in
                    (case jget health_block ''subsystems'' (JObj []) of
                       JObj sub \<Rightarrow> s\<lparr>sx_asr := Some (jget sub ''ASR'' (JStr ''?'')),
                                     sx_audio := Some (jget sub ''Audio'' (JStr ''?'')),
                                     sx_vad := Some (jget sub ''VAD'' (JStr ''?''))\<rparr>
                     | _ \<Rightarrow> failed s)
                | _ \<Rightarrow> failed s)
           | _ \<Rightarrow> failed s))"

text \<open>The entries read from the streamer: queue, provider, worker thread, and the averages.\<close>

definition snap_streamer :: "('o, 's) streamer \<Rightarrow> thread option \<Rightarrow> pyfloat \<Rightarrow> pyfloat \<Rightarrow> snap \<Rightarrow> snap" where
  "snap_streamer st th idle proc s =
     s\<lparr>sx_qd := Some (aq_depth (pp_queue (st_pipe st))),
       sx_gen := Some (sp_generation_id (pp_provider (st_pipe st))),
       sx_resets := Some (sp_reset_count (pp_provider (st_pipe st))),
       sx_worker := Some (case th of None \<Rightarrow> False | Some t \<Rightarrow> th_alive t),
       sx_idle_ms := Some (py_round 2 idle), sx_proc_ms := Some (py_round 2 proc)\<rparr>"

definition take_snap ::
  "nat \<Rightarrow> time_s \<Rightarrow> time_s \<Rightarrow> string \<Rightarrow> (py_exc + nat) \<times> nat \<Rightarrow> nat \<Rightarrow> py_exc + (string, json) dict
     \<Rightarrow> ('o, 's) streamer \<Rightarrow> thread option \<Rightarrow> pyfloat \<Rightarrow> pyfloat \<Rightarrow> snap" where
  "take_snap n now t0 ts mem threads diag st th idle proc =
     snap_streamer st th idle proc (snap_health diag
       \<lparr>sx_n = n, sx_elapsed = py_round 1 (now - t0), sx_mem_mb = py_round 2 (mem_mb (fst mem) (snd mem)),
        sx_threads = threads, sx_ts = ts, sx_health = 0, sx_state = None, sx_asr = None, sx_audio = None,
        sx_vad = None, sx_qd = None, sx_gen = None, sx_resets = None, sx_worker = None, sx_idle_ms = None,
        sx_proc_ms = None\<rparr>)"

section \<open>The reports\<close>

definition ok_cell :: "bool \<Rightarrow> string" where
  "ok_cell b = (if b then ''OK'' else ''FAIL'')"

text \<open>A value of a dictionary in a cell: Python's \<open>str\<close>, which is a string itself; \<open>pstr\<close> for the rest.\<close>

definition cell :: "(json \<Rightarrow> string) \<Rightarrow> json option \<Rightarrow> string" where
  "cell pstr v = (case v of None \<Rightarrow> ''?'' | Some (JStr s) \<Rightarrow> s | Some j \<Rightarrow> pstr j)"

definition num_cell :: "nat option \<Rightarrow> string" where
  "num_cell v = (case v of None \<Rightarrow> ''?'' | Some n \<Rightarrow> nat_text n)"

definition snap_row :: "snap \<Rightarrow> string" where
  "snap_row s =
     ''| '' @ nat_text (sx_n s) @ '' | '' @ sx_ts s @ '' | '' @ fixed_text 0 (sx_elapsed s) @ ''s | '' @ fixed_text 2 (sx_mem_mb s)
     @ '' | '' @ nat_text (case sx_qd s of None \<Rightarrow> 0 | Some q \<Rightarrow> q) @ '' | '' @ nat_text (sx_threads s)
     @ '' | '' @ fixed_text 3 (sx_health s) @ '' | '' @ (if sx_worker s = Some False then ''DEAD'' else ''Y'')
     @ '' | '' @ num_cell (sx_gen s) @ '' | '' @ num_cell (sx_resets s) @ '' |''"

definition state_row :: "(json \<Rightarrow> string) \<Rightarrow> snap \<Rightarrow> string" where
  "state_row pstr s =
     ''| '' @ nat_text (sx_n s) @ '' | '' @ cell pstr (sx_asr s) @ '' | '' @ cell pstr (sx_audio s)
     @ '' | '' @ cell pstr (sx_vad s) @ '' | '' @ cell pstr (sx_state s) @ '' |''"

text \<open>The report of the stress monitor. The trend of a short run has no entry \<open>delta\<close>.\<close>

definition monitor_lines ::
  "(json \<Rightarrow> string) \<Rightarrow> string \<Rightarrow> string \<Rightarrow> string \<Rightarrow> pyfloat \<Rightarrow> nat \<Rightarrow> nat \<Rightarrow> nat \<Rightarrow> trend \<Rightarrow> pyfloat \<Rightarrow> snap list
     \<Rightarrow> string list" where
  "monitor_lines pstr date t_start t_end dur frames deaths overflows tr delta snaps =
    [''# Memory Stability Report -- AVAListener Runtime Stress (F2)'',
     '''',
     ''> **Date:** '' @ date @ ''  |  **Start:** '' @ t_start @ ''  |  **End:** '' @ t_end,
     ''> **Duration:** '' @ fixed_text 0 dur @
        ''s  |  **Audio:** Synthetic (no microphone)  |  **Verdict:** '' @
        (if sm_ok snaps deaths overflows then ''PASS'' else ''FAIL''),
     '''',
     ''---'',
     '''',
     ''## 1. Summary'',
     '''',
     ''| Metric | Value | Status |'',
     ''|--------|-------|--------|'',
     ''| Worker deaths | '' @ nat_text deaths @ '' | '' @ ok_cell (deaths = 0) @ '' |'',
     ''| Queue overflow events | '' @ nat_text overflows @ '' | '' @ ok_cell (overflows = 0) @ '' |'',
     ''| Memory trend | '' @ tr_verdict tr @ '' ('' @ fixed_plus 3 (tr_slope tr) @ '' MB/min) | '' @
        (if tr_verdict tr = ''STABLE'' then ''OK'' else ''WARN'') @ '' |'',
     ''| Total frames injected | '' @ comma_text frames @ '' | -- |'',
     ''| Samples collected | '' @ nat_text (length snaps) @ '' | -- |'',
     '''',
     ''## 2. Memory Trend'',
     '''',
     ''| Slope (MB/min) | R2 | Min MB | Max MB | Delta MB | Verdict |'',
     ''|---|---|---|---|---|---|'',
     ''| '' @ fixed_plus 3 (tr_slope tr) @ '' | '' @ fixed_text 3 (tr_r2 tr) @ '' | '' @
        fixed_text 2 (tr_min tr) @ '' | '' @ fixed_text 2 (tr_max tr) @ '' | '' @ fixed_text 2 delta @
        '' | **'' @ tr_verdict tr @ ''** |'',
     '''',
     ''## 3. Per-Sample Metrics'',
     '''',
     ''| # | Time | Elapsed | Memory MB | Queue | Threads | Health | Worker | Gen | Resets |'',
     ''|---|------|---------|-----------|-------|---------|--------|--------|-----|--------|'',
     join_lines (map snap_row snaps),
     '''',
     ''## 4. State Timeline'',
     '''',
     ''| # | ASR | Audio | VAD | Engine State |'',
     ''|---|-----|-------|-----|-------------|'',
     join_lines (map (state_row pstr) snaps),
     '''',
     ''## 5. Findings'',
     '''',
     (if sm_ok snaps deaths overflows then ''All criteria passed.'' else ''FAILURES: workers='' @
        nat_text deaths @ '' overflows='' @ nat_text overflows @ '' memory='' @ tr_verdict tr),
     '''']"

definition monitor_report ::
  "(json \<Rightarrow> string) \<Rightarrow> string \<Rightarrow> string \<Rightarrow> string \<Rightarrow> pyfloat \<Rightarrow> nat \<Rightarrow> nat \<Rightarrow> nat \<Rightarrow> snap list \<Rightarrow> py_exc + string" where
  "monitor_report pstr date t_start t_end dur frames deaths overflows snaps =
     (let tr = sm_trend snaps in
      case tr_delta tr of
        None \<Rightarrow> Inl (KeyError ''delta'')
      | Some delta \<Rightarrow>
          Inr (join_lines (monitor_lines pstr date t_start t_end dur frames deaths overflows tr delta snaps)))"

text \<open>The report of the lifecycle test, over at least one cycle.\<close>

definition passed_count :: "cycle_result list \<Rightarrow> nat" where
  "passed_count rs = length (filter cy_pass rs)"

definition baseline_count :: "cycle_result list \<Rightarrow> nat" where
  "baseline_count rs = length (filter (\<lambda>r. cy_status r = ''BASELINE_INITIALIZATION'') rs)"

definition mean_elapsed :: "cycle_result list \<Rightarrow> pyfloat" where
  "mean_elapsed rs = sum_list (map cy_elapsed rs) / of_nat (length rs)"

definition lifecycle_row :: "cycle_result \<Rightarrow> string" where
  "lifecycle_row r =
     ''| '' @ nat_text (cy_cycle r) @ '' | '' @ fixed_text 3 (cy_elapsed r) @ ''s | '' @ (if cy_orphan r then ''YES'' else ''no'')
     @ '' | '' @ plus_text (int (cy_leak r)) @ '' | '' @ nat_text (cy_residue r) @ '' | '' @ cy_status r @ '' |''"

definition lifecycle_lines :: "string \<Rightarrow> pyfloat \<Rightarrow> int \<Rightarrow> nat \<Rightarrow> cycle_result list \<Rightarrow> string list" where
  "lifecycle_lines date run_s growth daemons rs =
    [''# Lifecycle Stress Report -- AVAListener (F4)'',
     '''',
     ''> **Date:** '' @ date,
     ''> **Cycles:** '' @ nat_text (length rs) @ ''  |  **Total time:** '' @ fixed_text 1 run_s @
        ''s  |  **Verdict:** '' @ (if all_pass rs then ''PASS'' else ''FAIL''),
     '''',
     ''---'',
     '''',
     ''## 1. Summary'',
     '''',
     ''| Metric | Value | Target | Status |'',
     ''|--------|-------|--------|--------|'',
     ''| Total cycles | '' @ nat_text (length rs) @ '' | '' @ nat_text (length rs) @ '' | -- |'',
     ''| Passed | '' @ nat_text (passed_count rs) @ '' | '' @ nat_text (length rs) @ '' | '' @
        ok_cell (passed_count rs = length rs) @ '' |'',
     ''| Baseline initialization events | '' @ nat_text (baseline_count rs) @ '' | 1 | OK |'',
     ''| Orphan threads | '' @ nat_text (orphan_count rs) @ '' | 0 | '' @ ok_cell (orphan_count rs = 0) @ '' |'',
     ''| Engine errors | '' @ nat_text (error_count rs) @ '' | 0 | '' @ ok_cell (error_count rs = 0) @ '' |'',
     ''| Net thread growth (total) | '' @ plus_text growth @ '' | -- | note |'',
     ''| Daemon threads remaining | '' @ nat_text daemons @ '' | -- | exit-safe |'',
     ''| Avg cycle time | '' @ fixed_text 3 (mean_elapsed rs) @ ''s | -- | -- |'',
     ''| Min / Max cycle | '' @ fixed_text 3 (py_min (cy_elapsed (hd rs)) (map cy_elapsed (tl rs))) @
        ''s / '' @ fixed_text 3 (py_max (cy_elapsed (hd rs)) (map cy_elapsed (tl rs))) @ ''s | -- | -- |'',
     '''',
     ''> **Thread note:** Daemon threads (watchdog, heartbeat emitter) accumulate across cycles'',
     ''> and are killed on process exit. Non-daemon orphan threads must be 0.'',
     '''',
     ''## 2. Cycle Detail (first 10, last 10, failures)'',
     '''',
     ''| Cycle | Time | Orphan | Thr+/- | Queue Residue | Result |'',
     ''|-------|------|--------|--------|---------------|--------|'',
     join_lines (map lifecycle_row (shown (length rs) rs)),
     (if 20 < length rs then ''_(only first 10 + last 10 + failures shown)_'' else ''''),
     '''',
     ''## 3. Findings'',
     '''',
     (if all_pass rs then ''All lifecycle stress criteria passed:'' else ''**FAILURES DETECTED:**''),
     '''',
     ''- Orphan threads: '' @ nat_text (orphan_count rs) @ '' ('' @
        (if orphan_count rs = 0 then ''none -- all workers joined cleanly'' else ''REVIEW REQUIRED'') @ '')'',
     ''- Engine errors: '' @ nat_text (error_count rs) @ '' ('' @
        (if error_count rs = 0 then ''none'' else ''REVIEW REQUIRED'') @ '')'',
     ''- Net thread growth over '' @ nat_text (length rs) @ '' cycles: '' @ plus_text growth @ '' ('' @
        (if growth \<le> 2 then ''acceptable'' else ''POSSIBLE LEAK'') @ '')'',
     ''- Average cycle time: '' @ fixed_text 3 (mean_elapsed rs) @ ''s (including model-skipped start overhead)'',
     '''',
     ''## 4. Thread Safety Notes'',
     '''',
     ''Each cycle exercises:'',
     ''  1. SherpaStreamer.__init__ (builds QueueManager, AudioWorker, SherpaProvider)'',
     ''  2. SherpaStreamer.start (fake audio path -- transitions FSMs, starts worker thread)'',
     ''  3. 5x frame injection via QueueManager'',
     ''  4. WakeEngine.stop -> SherpaStreamer.stop -> AudioWorker.stop -> thread.join(5s)'',
     ''  5. Object destruction and GC collection'',
     '''',
     ''The test validates that the stop/join/GC cycle fully reclaims thread resources'',
     ''without residual queue entries or zombie threads.'',
     '''']"

definition lifecycle_report :: "string \<Rightarrow> pyfloat \<Rightarrow> int \<Rightarrow> nat \<Rightarrow> cycle_result list \<Rightarrow> py_exc + string" where
  "lifecycle_report date run_s growth daemons rs =
     (if rs = [] then Inl (OtherException ''ZeroDivisionError'')
      else Inr (join_lines (lifecycle_lines date run_s growth daemons rs)))"

section \<open>What the gates observe\<close>

text \<open>The start the gates install is the streamer's own with a microphone that opens.\<close>

lemma fake_start_is_start: "fake_start now created s = st_start now created (Inr ()) s"
  by (simp add: fake_start_def st_start_def)

text \<open>The injector fills an unbounded queue: until it is stopped it counts the chunks it enqueues, and they
  are the pattern in order.\<close>

lemma inject_fills:
  assumes "aq_maxsize q = 0"
  shows "\<exists>q'. inject_loop noise stops (k, q) = (Inr (), k + length (takeWhile Not stops), q')
     \<and> aq_maxsize q' = 0
     \<and> aq_queue q' = aq_queue q @ map (inject_chunk noise) [k..<k + length (takeWhile Not stops)]"
  using assms
proof (induction stops arbitrary: k q)
  case (Cons stop stops)
  show ?case
  proof (cases stop)
    case False
    obtain q1 where q1: "aq_enqueue (inject_chunk noise k) q = (Inr (), q1)" "aq_maxsize q1 = 0"
      "aq_queue q1 = aq_queue q @ [inject_chunk noise k]"
      using Cons.prems by (auto simp: aq_enqueue_def Let_def)
    then show ?thesis
      using Cons.IH [OF q1(2), of "Suc k"] False
      by (auto simp: upt_conv_Cons simp del: upt_Suc)
  qed (use Cons.prems in simp)
qed simp

text \<open>With nobody taking chunks out, the monitor's overflow limit is passed after three seconds of audio.\<close>

corollary inject_overflows:
  "\<exists>q'. inject_loop noise (replicate n False) (0, new_audio_queue 0 w) = (Inr (), n, q') \<and> aq_depth q' = n"
  using inject_fills [of "new_audio_queue 0 w" noise "replicate n False" 0]
  by (auto simp: new_audio_queue_def aq_depth_def takeWhile_replicate)

text \<open>\<open>WakeEngine\<close> has neither \<open>stop\<close> nor \<open>getDiagnostics\<close>.\<close>

lemma engine_attribute_missing:
  "engine_attribute ''stop'' = Inl (missing_attribute ''stop'')"
  "engine_attribute ''getDiagnostics'' = Inl (missing_attribute ''getDiagnostics'')"
  by (simp_all add: engine_attribute_def WAKE_ENGINE_METHODS_def)

lemma engine_cycle_fails: "\<not> cy_pass (run_one_cycle (engine_cycle e) i)"
  by (simp add: run_one_cycle_pass engine_cycle_def engine_attribute_missing)

lemma engine_cycle_error:
  "\<exists>t. cy_error (run_one_cycle (engine_cycle e) i) = Some t \<and> (ce_create e = Inr () \<longrightarrow> t = missing_attribute ''stop'')"
  by (cases "ce_create e") (auto simp: run_one_cycle_def engine_cycle_def engine_attribute_missing Let_def)

text \<open>The number of cycles that passed is the number of cycles exactly when the verdict is PASS.\<close>

lemma passed_row_agrees: "passed_count (run_cycles i xs) = length xs \<longleftrightarrow> all_pass (run_cycles i xs)"
proof -
  have "length (filter cy_pass rs) = length rs \<longleftrightarrow> (\<forall>r\<in>set rs. cy_pass r)" for rs
  proof
    assume l: "length (filter cy_pass rs) = length rs"
    show "\<forall>r\<in>set rs. cy_pass r"
    proof (rule ccontr)
      assume "\<not> (\<forall>r\<in>set rs. cy_pass r)"
      then obtain r where "r \<in> set rs" "\<not> cy_pass r" by blast
      then have "length (filter cy_pass rs) < length rs" by (rule length_filter_less)
      with l show False by simp
    qed
  qed (simp add: filter_id_conv)
  from this [of "run_cycles i xs"] show ?thesis using all_pass_iff [of i xs] by (simp add: passed_count_def)
qed

text \<open>A sample of the engine has no diagnostics: its health is -1, its state and subsystems are unknown.\<close>

lemma snap_of_engine:
  "take_snap n now t0 ts mem threads (Inl e) st th idle proc = s \<Longrightarrow>
     sx_health s = -1 \<and> sx_state s = None \<and> sx_asr s = None \<and> sx_audio s = None \<and> sx_vad s = None
   \<and> sx_worker s = Some (case th of None \<Rightarrow> False | Some t \<Rightarrow> th_alive t)"
  by (auto simp: take_snap_def snap_health_def snap_streamer_def Let_def)

text \<open>The two gates on the engine. The lifecycle test fails in every cycle, whatever the machine does, and
  its table lists every cycle; the stress monitor ends with the missing attribute instead of a report.\<close>

theorem gates_cannot_pass:
  assumes "envs \<noteq> []"
  shows "lifecycle_main (map engine_cycle envs) = Inr 1
     \<and> shown (length envs) (run_cycles 1 (map engine_cycle envs)) = run_cycles 1 (map engine_cycle envs)
     \<and> sm_finish (case engine_attribute ''stop'' of Inl e \<Rightarrow> Inl (OtherException e) | Inr u \<Rightarrow> Inr u) a
         = Inl (OtherException (missing_attribute ''stop''))"
proof (intro conjI)
  have fails: "\<not> cy_pass r" if "r \<in> set (run_cycles i (map engine_cycle es))" for r i and es :: "cycle_env list"
    using that by (induction es arbitrary: i) (auto simp: engine_cycle_fails)
  obtain e es where e: "envs = e # es" using assms by (cases envs) auto
  show "lifecycle_main (map engine_cycle envs) = Inr 1"
    using engine_without_stop_fails [of "engine_cycle e" "missing_attribute ''stop''" "map engine_cycle es"]
    by (simp add: e engine_cycle_def engine_attribute_missing)
  show "shown (length envs) (run_cycles 1 (map engine_cycle envs)) = run_cycles 1 (map engine_cycle envs)"
    using fails [of _ 1 envs] by (auto simp: shown_def Let_def intro!: filter_True)
qed (simp add: sm_finish_def engine_attribute_missing)

theorem gates_cannot_pass_example:
  "lifecycle_main (map engine_cycle [\<lparr>ce_create = Inr (), ce_alive = False, ce_elapsed = 1, ce_before = 2, ce_after = 2\<rparr>])
     = Inr 1"
  using gates_cannot_pass [of "[\<lparr>ce_create = Inr (), ce_alive = False, ce_elapsed = 1, ce_before = 2, ce_after = 2\<rparr>]"]
  by blast

end
