(* ===== verification/Gate_Reports.thy ===== *)
theory Gate_Reports
  imports Repo_Gates Text_Format
begin

text \<open>
  The rest of two gates that \<open>Repo_Gates\<close> decides on: the report of \<^verbatim>\<open>src/scripts/wake_regression.py\<close> with
  its totals, and the process \<^verbatim>\<open>src/scripts/verify_startup.py\<close> spawns, reads and ends, with its command line.
  The text printed on the terminal is left out, except for the lines of the startup checks.
\<close>

section \<open>The regression report\<close>

text \<open>What a run of \<open>main\<close> has collected before it aggregates.\<close>

record regression =
  rg_smoke :: string
  rg_replay_out :: string
  rg_replay :: "nat \<times> nat"
  rg_oks :: "bool \<times> bool \<times> bool"
  rg_pipeline :: string
  rg_elapsed :: "pyfloat \<times> pyfloat \<times> pyfloat"

definition counts_replay :: "regression \<Rightarrow> counts" where
  "counts_replay rg =
     (let (rp, rf) = rg_replay rg in \<lparr>ct_passed = rp, ct_total = rp + rf, ct_failed = int rf\<rparr>)"

definition smoke_ok :: "regression \<Rightarrow> bool" where
  "smoke_ok rg \<longleftrightarrow> ct_failed (parse_counts (rg_smoke rg)) = 0 \<and> 0 < ct_total (parse_counts (rg_smoke rg))"

definition replay_ok :: "regression \<Rightarrow> bool" where
  "replay_ok rg \<longleftrightarrow> snd (rg_replay rg) = 0 \<and> 0 < fst (rg_replay rg) + snd (rg_replay rg)"

definition pipeline_pass :: "regression \<Rightarrow> bool" where
  "pipeline_pass rg \<longleftrightarrow>
     (case rg_oks rg of (anchor_ok, variant_ok, pipeline_ok) \<Rightarrow>
        anchor_ok \<and> variant_ok \<and> pipeline_ok \<and> ct_failed (parse_counts (rg_pipeline rg)) = 0)"

definition rg_all_pass :: "regression \<Rightarrow> bool" where
  "rg_all_pass rg \<longleftrightarrow> smoke_ok rg \<and> replay_ok rg \<and> pipeline_pass rg"

definition rg_total_pass :: "regression \<Rightarrow> nat" where
  "rg_total_pass rg = ct_passed (parse_counts (rg_smoke rg)) + ct_passed (counts_replay rg)
     + ct_passed (parse_counts (rg_pipeline rg))"

definition rg_total_tests :: "regression \<Rightarrow> nat" where
  "rg_total_tests rg = ct_total (parse_counts (rg_smoke rg)) + ct_total (counts_replay rg)
     + ct_total (parse_counts (rg_pipeline rg))"

definition rg_total_fail :: "regression \<Rightarrow> int" where
  "rg_total_fail rg = ct_failed (parse_counts (rg_smoke rg)) + ct_failed (counts_replay rg)
     + ct_failed (parse_counts (rg_pipeline rg))"

definition rg_suites :: "regression \<Rightarrow> (string \<times> counts \<times> pyfloat \<times> bool) list" where
  "rg_suites rg =
     (let (e1, e2, e3) = rg_elapsed rg in
      [(''Smoke (SMOKE-01..10)'', parse_counts (rg_smoke rg), e1, smoke_ok rg),
       (''Replay (Phase 0 Fixtures)'', counts_replay rg, e2, replay_ok rg),
       (''Pipeline (25 cases)'', parse_counts (rg_pipeline rg), e3, pipeline_pass rg)])"

definition pass_text :: "bool \<Rightarrow> string" where
  "pass_text b = (if b then ''PASS'' else ''FAIL'')"

definition suite_row :: "string \<times> counts \<times> pyfloat \<times> bool \<Rightarrow> string" where
  "suite_row x =
     (let (label, c, e, ok) = x in
      ''| '' @ label @ '' | '' @ nat_text (ct_passed c) @ ''/'' @ nat_text (ct_total c) @ '' | '' @ int_text (ct_failed c)
      @ '' | '' @ fixed_text 1 e @ ''s | '' @ pass_text ok @ '' |'')"

definition output_tail :: "nat \<Rightarrow> string \<Rightarrow> string" where
  "output_tail n s = (let ls = py_splitlines s in join_lines (drop (length ls - n) ls))"

definition regression_lines :: "string \<Rightarrow> regression \<Rightarrow> string list" where
  "regression_lines date rg =
    [''# Wake Regression Report -- AVAListener (F3)'',
     '''',
     ''> **Date:** '' @ date,
     ''> **Overall:** '' @ pass_text (rg_all_pass rg) @ ''  |  **Total:** '' @ nat_text (rg_total_pass rg) @
        ''/'' @ nat_text (rg_total_tests rg) @ '' passed  |  **Failed:** '' @ int_text (rg_total_fail rg),
     '''',
     ''---'',
     '''',
     ''## 1. Suite Results'',
     '''',
     ''| Suite | Passed/Total | Failed | Elapsed | Status |'',
     ''|-------|-------------|--------|---------|--------|'',
     join_lines (map suite_row (rg_suites rg)),
     '''',
     ''## 2. Coverage'',
     '''',
     ''| Suite | What It Tests |'',
     ''|-------|--------------|'',
     ''| Smoke (79 checks) | Environment, imports, config, model integrity, matcher, cooldown, buffer, FSM |'',
     ''| Replay (23 fixtures) | Phase 0 ASR hypothesis sequences replayed through full detection pipeline |'',
     ''| Pipeline (25 cases) | Anchor gate, EMA confidence scoring, variant schema correctness |'',
     '''',
     ''## 3. False Positive / Negative Baseline (Replay Fixtures)'',
     '''',
     ''| Category | Count | Behavior |'',
     ''|----------|-------|----------|'',
     ''| True Positives -- canonical | 4 | Trigger correctly |'',
     ''| True Positives -- phonetic variants | 6 | Trigger to correct canonical |'',
     ''| True Positives -- multi-chunk buildup | 2 | Trigger correctly |'',
     ''| Phrase boundary (listen / listen-arv) | 2 | Trigger as 'listen' (expected baseline) |'',
     ''| Known false positive (wake-up-ourselves) | 1 | Triggers 'wake up arvsal' -- frozen baseline |'',
     ''| True Negatives (noise, unrelated, partial) | 8 | No trigger |'',
     '''',
     ''> All outcomes match the frozen Phase 0 baseline exactly -- zero regression.'',
     '''',
     ''## 4. Wake Accuracy Deltas vs Baseline'',
     '''',
     ''| Metric | Baseline | Current | Delta |'',
     ''|--------|----------|---------|-------|'',
     ''| True positives | 12 | '' @ int_text (int (fst (rg_replay rg)) - 3) @ '' | 0 |'',
     ''| Known false positives | 1 | 1 | 0 |'',
     ''| True negatives | 8 | 8 | 0 |'',
     ''| False negatives | 0 | 0 | 0 |'',
     '''',
     ''## 5. Detailed Output'',
     '''',
     ''### Smoke'',
     '''',
     ''```'',
     output_tail 50 (rg_smoke rg),
     ''```'',
     '''',
     ''### Replay'',
     '''',
     ''```'',
     output_tail 30 (rg_replay_out rg),
     ''```'',
     '''',
     ''### Pipeline'',
     '''',
     ''```'',
     output_tail 40 (rg_pipeline rg),
     ''```'',
     '''']"

text \<open>\<open>main\<close>: the file it writes and the exit code.\<close>

definition regression_report :: "string \<Rightarrow> regression \<Rightarrow> string \<times> nat" where
  "regression_report date rg = (join_lines (regression_lines date rg), if rg_all_pass rg then 0 else 1)"

section \<open>The process under verification\<close>

definition startup_cmd :: "string \<Rightarrow> string \<Rightarrow> string list" where
  "startup_cmd python_exe main_py = [python_exe, ''-u'', main_py, ''--mode'', ''direct'', ''--debug'']"

definition startup_env :: "(string \<rightharpoonup> string) \<Rightarrow> (string \<rightharpoonup> string)" where
  "startup_env env = env(''PYTHONPATH'' := None, ''PYTHONHOME'' := None)"

text \<open>A reader thread: what it appends of the lines of a stream that breaks off at some point, or ends.\<close>

definition read_stream :: "string list \<Rightarrow> string list \<Rightarrow> string list" where
  "read_stream lines buf = buf @ map py_rstrip lines"

text \<open>The end of the child: terminate and wait, or kill it when that fails. Only an exception that is no
  \<open>Exception\<close> leaves.\<close>

definition end_child :: "bool \<Rightarrow> py_exc + unit \<Rightarrow> py_exc + unit \<Rightarrow> py_exc + unit \<Rightarrow> py_exc + unit" where
  "end_child kill_after terminate wait kill =
     (if \<not> kill_after then Inr ()
      else case sbind terminate (\<lambda>_. wait) of
             Inr _ \<Rightarrow> Inr ()
           | Inl e \<Rightarrow>
               if \<not> is_exception e then Inl e
               else (case kill of
                       Inr _ \<Rightarrow> Inr ()
                     | Inl e \<Rightarrow> if is_exception e then Inr () else Inl e))"

definition check_lines :: "child \<Rightarrow> string list" where
  "check_lines c =
     map (\<lambda>(desc, on_stdout, needle).
            ''  '' @ pass_text (signal_found c (desc, on_stdout, needle)) @ ''  '' @ desc) STARTUP_SIGNALS"

definition last_stderr :: "child \<Rightarrow> string list" where
  "last_stderr c = (if 30 < length (ch_err c) then drop (length (ch_err c) - 30) (ch_err c) else ch_err c)"

definition python_candidates :: "(string list \<Rightarrow> string) \<Rightarrow> string \<Rightarrow> string \<Rightarrow> string list" where
  "python_candidates join repo_root project_root =
     [join [repo_root, ''venv'', ''Scripts'', ''python.exe''], join [repo_root, ''venv'', ''bin'', ''python''],
      join [repo_root, ''venv'', ''bin'', ''python3''], join [project_root, ''venv'', ''Scripts'', ''python.exe''],
      join [project_root, ''venv'', ''bin'', ''python'']]"

definition STARTUP_OPTIONS :: opt_table where
  "STARTUP_OPTIONS = [(''--timeout'', Opt_float), (''--python'', Opt_str), (''--no-kill'', Opt_flag)]"

text \<open>\<open>main\<close>: the interpreter, the timeout and whether to kill, with which \<open>verify_startup\<close> is called.\<close>

definition startup_main :: "string \<Rightarrow> string list \<Rightarrow> (py_exc + string \<times> pyfloat \<times> bool) option" where
  "startup_main found_python argv =
     map_option (\<lambda>r. sbind r (\<lambda>ns. Inr
        (case arg_str (map_of ns ''--python'') of
           Some p \<Rightarrow> if p \<noteq> '''' then p else found_python
         | None \<Rightarrow> found_python,
         arg_float 15 (map_of ns ''--timeout''),
         map_of ns ''--no-kill'' = None)))
       (parse_args STARTUP_OPTIONS argv)"

section \<open>What the report says\<close>

text \<open>The exit code and the totals are those of the gate: nothing is lost between the suites and the sum.\<close>

lemma report_exit_code:
  "snd (regression_report date rg) = regression_main (rg_smoke rg) (rg_replay rg) (rg_oks rg) (rg_pipeline rg)"
  by (cases "rg_replay rg"; cases "rg_oks rg")
    (auto simp: regression_report_def regression_main_def rg_all_pass_def smoke_ok_def replay_ok_def pipeline_pass_def Let_def)

lemma parse_lines_sum: "int (ct_total (parse_lines ls)) = int (ct_passed (parse_lines ls)) + ct_failed (parse_lines ls)"
  by (induction ls) (auto split: option.splits)

lemma totals_add: "int (rg_total_tests rg) = int (rg_total_pass rg) + rg_total_fail rg"
  by (simp add: rg_total_tests_def rg_total_pass_def rg_total_fail_def counts_replay_def parse_counts_def
      parse_lines_sum case_prod_unfold Let_def)

text \<open>The report claims the absence of a regression whatever the suites said, and a failed run is told apart
  from a passed one only by its verdict, counts and tails: the accuracy table is a constant.\<close>

theorem report_claims_no_regression:
  "''> All outcomes match the frozen Phase 0 baseline exactly -- zero regression.'' \<in> set (regression_lines date rg)
   \<and> ''| False negatives | 0 | 0 | 0 |'' \<in> set (regression_lines date rg)
   \<and> ''| True positives | 12 | '' @ int_text (int (fst (rg_replay rg)) - 3) @ '' | 0 |'' \<in> set (regression_lines date rg)"
  unfolding regression_lines_def by simp

text \<open>A check is printed as failed exactly when the verification counts the signal as missing, so a run that
  exits with 0 prints no failed check.\<close>

lemma checks_agree:
  assumes "\<And>c. c \<in> set looks \<Longrightarrow> seen_before c final" "verify_startup True k looks final = 0"
  shows "check_lines final = map (\<lambda>(desc, _). ''  PASS  '' @ desc) STARTUP_SIGNALS"
proof -
  have "startup_wait looks" using verify_startup_codes [OF assms(1)] assms(2) by blast
  then obtain c where "c \<in> set looks" "all_signals c" using startup_wait_seen by blast
  then have "\<forall>s\<in>set STARTUP_SIGNALS. signal_found final s"
    using assms(1) signal_found_later unfolding all_signals_iff by blast
  then show ?thesis by (auto simp: check_lines_def pass_text_def)
qed

lemma reader_only_appends: "prefix buf (read_stream lines buf)"
  by (simp add: read_stream_def)

lemma end_child_ordinary:
  assumes "\<forall>e. terminate = Inl e \<longrightarrow> is_exception e" "\<forall>e. wait = Inl e \<longrightarrow> is_exception e"
    "\<forall>e. kill = Inl e \<longrightarrow> is_exception e"
  shows "end_child k terminate wait kill = Inr ()"
  using assms by (cases terminate) (auto simp: end_child_def split: sum.splits)

end
