(* ===== verification/Worker_Timing.thy ===== *)
theory Worker_Timing
  imports Runtime_Threads
begin

text \<open>
  The time the speech worker measures (\<^verbatim>\<open>src/runtime/audio/worker.py\<close>): how long it waits for a chunk and
  how long it works on one, and the properties of \<^verbatim>\<open>src/runtime/asr/streaming.py\<close> that show the worker's state
  to the watchdog and the monitors. The durations are inputs of an iteration. At the end the demo engine
  of \<^verbatim>\<open>src/engine.py\<close>, whose callback the worker cannot call.
\<close>

section \<open>The counters\<close>

record worker_timing =
  wt_total_idle_time_s :: pyfloat
  wt_idle_count :: nat
  wt_total_processing_time_s :: pyfloat
  wt_processing_count :: nat

definition new_timing :: worker_timing where
  "new_timing = \<lparr>wt_total_idle_time_s = 0, wt_idle_count = 0, wt_total_processing_time_s = 0, wt_processing_count = 0\<rparr>"

definition avg_idle_ms :: "worker_timing \<Rightarrow> pyfloat" where
  "avg_idle_ms t = (if wt_idle_count t = 0 then 0 else wt_total_idle_time_s t / of_nat (wt_idle_count t) * 1000)"

definition avg_processing_ms :: "worker_timing \<Rightarrow> pyfloat" where
  "avg_processing_ms t =
     (if wt_processing_count t = 0 then 0
      else wt_total_processing_time_s t / of_nat (wt_processing_count t) * 1000)"

definition wt_idle :: "pyfloat \<Rightarrow> worker_timing \<Rightarrow> worker_timing" where
  "wt_idle d t = t\<lparr>wt_total_idle_time_s := wt_total_idle_time_s t + d, wt_idle_count := wt_idle_count t + 1\<rparr>"

definition wt_processed :: "pyfloat \<Rightarrow> worker_timing \<Rightarrow> worker_timing" where
  "wt_processed d t =
     t\<lparr>wt_total_processing_time_s := wt_total_processing_time_s t + d, wt_processing_count := wt_processing_count t + 1\<rparr>"

text \<open>An iteration with its callback: the wait counts always, the work only when there was a chunk and nothing
  raised. \<open>None\<close>: the decoding loop does not end.\<close>

definition timed_iteration ::
  "'o recognizer \<Rightarrow> 's vad_models \<Rightarrow> (delivery \<Rightarrow> py_exc + unit) \<Rightarrow> 'o aw_input \<Rightarrow> pyfloat \<times> pyfloat
     \<Rightarrow> ('o, 's) pipe \<times> worker_timing \<Rightarrow> ((py_exc + delivery option) \<times> ('o, 's) pipe \<times> worker_timing) option" where
  "timed_iteration rz m cb i ds st =
     (let (idle, proc) = ds; (s, t) = st; chunk = fst (aq_dequeue (pp_queue s)); t = wt_idle idle t in
      case aw_iteration rz m i s of
        None \<Rightarrow> None
      | Some (x, s) \<Rightarrow>
          let x = (case x of
                     Inr (Some d) \<Rightarrow> (case cb d of Inl e \<Rightarrow> Inl e | Inr _ \<Rightarrow> Inr (Some d))
                   | _ \<Rightarrow> x)
          in Some (x, s, if chunk \<noteq> None \<and> \<not> (\<exists>e. x = Inl e) then wt_processed proc t else t))"

section \<open>What the streamer shows\<close>

definition st_audio_queue :: "('o, 's) streamer \<Rightarrow> chunk list" where
  "st_audio_queue s = aq_queue (pp_queue (st_pipe s))"

definition st_worker_heartbeat :: "('o, 's) streamer \<Rightarrow> time_s" where
  "st_worker_heartbeat s = aw_heartbeat (pp_worker (st_pipe s))"

definition st_processing_active :: "('o, 's) streamer \<Rightarrow> bool" where
  "st_processing_active s = aw_processing_active (pp_worker (st_pipe s))"

definition avg_worker_idle_ms :: "('o, 's) streamer \<times> worker_timing \<Rightarrow> pyfloat" where
  "avg_worker_idle_ms s = avg_idle_ms (snd s)"

definition avg_worker_processing_ms :: "('o, 's) streamer \<times> worker_timing \<Rightarrow> pyfloat" where
  "avg_worker_processing_ms s = avg_processing_ms (snd s)"

section \<open>The averages are averages\<close>

text \<open>Durations between 0 and \<open>b\<close> keep both totals between 0 and \<open>b\<close> times their count, and every chunk that
  was worked on was waited for.\<close>

definition timing_ok :: "pyfloat \<Rightarrow> worker_timing \<Rightarrow> bool" where
  "timing_ok b t \<longleftrightarrow>
     0 \<le> wt_total_idle_time_s t \<and> wt_total_idle_time_s t \<le> of_nat (wt_idle_count t) * b
   \<and> 0 \<le> wt_total_processing_time_s t \<and> wt_total_processing_time_s t \<le> of_nat (wt_processing_count t) * b
   \<and> wt_processing_count t \<le> wt_idle_count t"

lemma timing_ok_new: "timing_ok b new_timing"
  by (simp add: timing_ok_def new_timing_def)

lemma timing_ok_step:
  assumes "timing_ok b t" "0 \<le> d" "d \<le> b" "0 \<le> d'" "d' \<le> b"
  shows "timing_ok b (wt_idle d t)" "timing_ok b (wt_processed d' (wt_idle d t))"
  using assms by (simp_all add: timing_ok_def wt_idle_def wt_processed_def algebra_simps)

lemma timed_iteration_ok:
  assumes "timed_iteration rz m cb i (d, d') (s, t) = Some (x, s', t')" "timing_ok b t"
    and "0 \<le> d" "d \<le> b" "0 \<le> d'" "d' \<le> b"
  shows "timing_ok b t' \<and> wt_idle_count t' = wt_idle_count t + 1"
proof -
  have "t' \<in> {wt_idle d t, wt_processed d' (wt_idle d t)}"
    using assms(1) by (auto simp: timed_iteration_def Let_def split: option.splits if_splits)
  then show ?thesis
    using timing_ok_step [OF assms(2-6)] by (auto simp: wt_idle_def wt_processed_def)
qed

lemma average_bounds:
  assumes "0 \<le> x" "x \<le> of_nat n * b" "0 \<le> (b :: rat)"
  shows "0 \<le> (if n = 0 then 0 else x / of_nat n * 1000) \<and> (if n = 0 then 0 else x / of_nat n * 1000) \<le> b * 1000"
proof (cases "n = 0")
  case False
  then have "x / of_nat n \<le> b" using assms(2) by (simp add: divide_le_eq mult.commute)
  then have "x / of_nat n * 1000 \<le> b * 1000" by (rule mult_right_mono) simp
  moreover have "0 \<le> x / of_nat n * 1000" using assms(1) by simp
  ultimately show ?thesis using False by (simp only: if_False)
qed (use assms(3) in simp)

text \<open>Over any sequence of iterations, raising callbacks and empty queues included, whose durations lie between
  0 and \<open>b\<close> seconds, the two averages lie between 0 and \<open>b\<close> in milliseconds, and the idle count is the number
  of iterations.\<close>

definition timed_run ::
  "'o recognizer \<Rightarrow> 's vad_models \<Rightarrow> (delivery \<Rightarrow> py_exc + unit) \<Rightarrow> ('o aw_input \<times> pyfloat \<times> pyfloat) list
     \<Rightarrow> ('o, 's) pipe \<times> worker_timing \<Rightarrow> ('o, 's) pipe \<times> worker_timing" where
  "timed_run rz m cb xs st =
     fold (\<lambda>(i, ds) st. case timed_iteration rz m cb i ds st of None \<Rightarrow> st | Some (x, st) \<Rightarrow> st) xs st"

lemma timed_run_ok:
  assumes "\<forall>(i, d, d')\<in>set xs. 0 \<le> d \<and> d \<le> b \<and> 0 \<le> d' \<and> d' \<le> b" "timing_ok b (snd st)"
  shows "timing_ok b (snd (timed_run rz m cb xs st))"
  using assms
proof (induction xs arbitrary: st)
  case (Cons x xs)
  obtain i d d' where x: "x = (i, d, d')" by (cases x)
  obtain s t where st: "st = (s, t)" by (cases st)
  let ?st = "case timed_iteration rz m cb i (d, d') (s, t) of None \<Rightarrow> (s, t) | Some (y, u) \<Rightarrow> u"
  have "timing_ok b (snd ?st)"
    using timed_iteration_ok [of rz m cb i d d' s t] Cons.prems by (auto simp: x st split: option.splits)
  with Cons.IH [of ?st] Cons.prems(1) show ?case by (simp add: timed_run_def x st)
qed (simp add: timed_run_def)

theorem worker_averages_bounded:
  assumes "\<forall>(i, d, d')\<in>set xs. 0 \<le> d \<and> d \<le> b \<and> 0 \<le> d' \<and> d' \<le> b" "0 \<le> b"
    and "t = snd (timed_run rz m cb xs (s, new_timing))"
  shows "0 \<le> avg_idle_ms t \<and> avg_idle_ms t \<le> b * 1000 \<and> 0 \<le> avg_processing_ms t \<and> avg_processing_ms t \<le> b * 1000
    \<and> wt_processing_count t \<le> wt_idle_count t"
proof -
  have "timing_ok b t" unfolding assms(3) by (rule timed_run_ok [OF assms(1)]) (simp add: timing_ok_new)
  then show ?thesis
    using average_bounds [of "wt_total_idle_time_s t" "wt_idle_count t" b]
      average_bounds [of "wt_total_processing_time_s t" "wt_processing_count t" b] assms(2)
    by (simp add: timing_ok_def avg_idle_ms_def avg_processing_ms_def)
qed

section \<open>The demo engine\<close>

text \<open>\<open>WakeEngine.on_text\<close> of the demo takes the text alone; the worker calls it with five arguments.\<close>

definition DEMO_PARAMETERS :: "string list" where
  "DEMO_PARAMETERS = [''text'']"

definition demo_call :: "nat \<Rightarrow> py_exc + unit" where
  "demo_call n = (if n = length DEMO_PARAMETERS then Inr ()
     else Inl (TypeError ''on_text() takes 2 positional arguments but 6 were given''))"

definition demo_callback :: "delivery \<Rightarrow> py_exc + unit" where
  "demo_callback d = demo_call 5"

text \<open>So the first hypothesis ends the worker's thread.\<close>

lemma demo_dies_at_first_delivery:
  assumes "k < length (rn_workers r)" "th_alive (rn_workers r ! k)" "\<not> st_stop (rn_streamer r)"
    and "aw_iteration rz m i (st_pipe (rn_streamer r)) = Some (Inr (Some d), p)"
  shows "rn_workers (rn_worker rz m k i demo_callback r) ! k = Th_finished"
  using assms by (simp add: rn_worker_def demo_callback_def demo_call_def DEMO_PARAMETERS_def Let_def)

end
