(* ===== verification/Worker_System.thy ===== *)
theory Worker_System
  imports Runtime_Threads Orchestrator
begin

text \<open>
  The worker process as one machine: the wake engine, the streamer it owns, the watchdog that resets
  the same streamer, the phrase registry and the variant index. \<open>Runtime_Threads\<close> runs the speech
  worker with an arbitrary callback; here the callback is \<^verbatim>\<open>WakeEngine._on_hypothesis\<close>
  (\<^verbatim>\<open>src/runtime/kernel/orchestrator.py\<close>), called by \<^verbatim>\<open>AudioWorker._run\<close>
  (\<^verbatim>\<open>src/runtime/audio/worker.py\<close>) on the worker's thread with the text, stability, peak and
  generation of the delivery, and a wake resets the stream the worker is reading. A step is one
  iteration of the worker with its callback, one microphone callback, one pass of the watchdog, or a
  \<open>CONFIGURE\<close> message that replaces the phrases; steps of different threads are not interleaved
  within each other.
\<close>

section \<open>State and steps\<close>

record ('o, 's) system =
  sy_engine :: "('o, 's) engine"
  sy_watchdog :: watchdog
  sy_matcher :: "phrase_registry \<times> variant_index"
  sy_alive :: bool
  sy_watching :: bool
  sy_wakes :: "(nat \<times> time_s) list"

text \<open>The call of the callback: what the worker passes, the rest (clock readings, the outcome of a later
  \<open>create_stream\<close>) is the input of the step.\<close>

definition hyp_of :: "delivery \<Rightarrow> 'o hyp_input \<Rightarrow> 'o hyp_input" where
  "hyp_of d h = h\<lparr>hi_text := dl_text d, hi_stability := dl_stability d, hi_peak := dl_peak d,
                  hi_generation_id := dl_generation_id d\<rparr>"

definition engine_pipe :: "('o, 's) engine \<Rightarrow> ('o, 's) pipe" where
  "engine_pipe e = st_pipe (we_streamer e)"

definition put_pipe :: "('o, 's) pipe \<Rightarrow> ('o, 's) engine \<Rightarrow> ('o, 's) engine" where
  "put_pipe p e = e\<lparr>we_streamer := (we_streamer e)\<lparr>st_pipe := p\<rparr>\<rparr>"

text \<open>The callback on the worker's thread; an exception in it ends the thread. Likewise a pass of the
  watchdog that raises what \<open>except Exception\<close> does not catch.\<close>

definition sy_callback ::
  "(string \<Rightarrow> string \<Rightarrow> pyfloat) \<Rightarrow> (string \<Rightarrow> string \<Rightarrow> pyfloat) \<Rightarrow> 's vad_models \<Rightarrow> 'o hyp_input
     \<Rightarrow> ('o, 's) system \<Rightarrow> ('o, 's) system" where
  "sy_callback jw tsr m h s =
     (let (wake, x, e) = on_hypothesis jw tsr m (fst (sy_matcher s)) (snd (sy_matcher s)) h (sy_engine s)
      in s\<lparr>sy_engine := e, sy_alive := (x = Inr ()),
           sy_wakes := (case wake of None \<Rightarrow> sy_wakes s
                        | Some _ \<Rightarrow> (hi_generation_id h, hi_t_mark h) # sy_wakes s)\<rparr>)"

definition sy_work ::
  "(string \<Rightarrow> string \<Rightarrow> pyfloat) \<Rightarrow> (string \<Rightarrow> string \<Rightarrow> pyfloat) \<Rightarrow> 'o recognizer \<Rightarrow> 's vad_models
     \<Rightarrow> 'o aw_input \<Rightarrow> 'o hyp_input \<Rightarrow> ('o, 's) system \<Rightarrow> ('o, 's) system" where
  "sy_work jw tsr rz m i h s =
     (if \<not> sy_alive s then s
      else if st_stop (we_streamer (sy_engine s)) then s\<lparr>sy_alive := False\<rparr>
      else case aw_iteration rz m i (engine_pipe (sy_engine s)) of
             None \<Rightarrow> s
           | Some (x, p) \<Rightarrow>
               let s = s\<lparr>sy_engine := put_pipe p (sy_engine s)\<rparr> in
               case x of
                 Inl _ \<Rightarrow> s\<lparr>sy_alive := False\<rparr>
               | Inr None \<Rightarrow> s
               | Inr (Some d) \<Rightarrow> sy_callback jw tsr m (hyp_of d h) s)"

definition sy_watch :: "'s vad_models \<Rightarrow> 'o watch_pass \<Rightarrow> ('o, 's) system \<Rightarrow> ('o, 's) system" where
  "sy_watch m x s =
     (if \<not> sy_watching s then s
      else let (r, w, st) = wd_monitor_pass m (x\<lparr>wp_thread := Some (sy_alive s)\<rparr>)
                 (sy_watchdog s, we_streamer (sy_engine s))
           in s\<lparr>sy_watching := (r = Inr ()), sy_watchdog := w, sy_engine := (sy_engine s)\<lparr>we_streamer := st\<rparr>\<rparr>)"

definition sy_audio :: "chunk \<Rightarrow> ('o, 's) system \<Rightarrow> ('o, 's) system" where
  "sy_audio c s =
     s\<lparr>sy_engine := (sy_engine s)\<lparr>we_streamer := snd (st_audio_callback c (we_streamer (sy_engine s)))\<rparr>\<rparr>"

definition sy_profile :: "phrase_data list \<Rightarrow> ('o, 's) system \<Rightarrow> ('o, 's) system" where
  "sy_profile ds s =
     (case load_phrases ds (sy_matcher s) of Inl _ \<Rightarrow> s | Inr g \<Rightarrow> s\<lparr>sy_matcher := g\<rparr>)"

datatype 'o sy_event =
    Sy_audio chunk
  | Sy_work "'o aw_input" "'o hyp_input"
  | Sy_watch "'o watch_pass"
  | Sy_profile "phrase_data list"

fun sy_exec ::
  "(string \<Rightarrow> string \<Rightarrow> pyfloat) \<Rightarrow> (string \<Rightarrow> string \<Rightarrow> pyfloat) \<Rightarrow> 'o recognizer \<Rightarrow> 's vad_models
     \<Rightarrow> 'o sy_event \<Rightarrow> ('o, 's) system \<Rightarrow> ('o, 's) system" where
  "sy_exec jw tsr rz m (Sy_audio c) s = sy_audio c s"
| "sy_exec jw tsr rz m (Sy_work i h) s = sy_work jw tsr rz m i h s"
| "sy_exec jw tsr rz m (Sy_watch x) s = sy_watch m x s"
| "sy_exec jw tsr rz m (Sy_profile ds) s = sy_profile ds s"

text \<open>The process just after \<^verbatim>\<open>WakeEngine.start\<close> returned from opening the microphone.\<close>

definition sy_start ::
  "'s vad_models \<Rightarrow> bool \<Rightarrow> time_s \<Rightarrow> (py_exc + 'o) \<Rightarrow> (py_exc + unit) \<Rightarrow> phrase_registry \<times> variant_index
     \<Rightarrow> (py_exc + unit) \<times> ('o, 's) system" where
  "sy_start m session now created mic g =
     (let (r, e) = engine_start now created mic (new_engine (new_streamer m session now) now)
      in (r, \<lparr>sy_engine = e, sy_watchdog = new_watchdog, sy_matcher = g, sy_alive = True, sy_watching = True, sy_wakes = []\<rparr>))"

section \<open>Generations only grow\<close>

lemma sp_accept_mono: "sp_accept rz i sr x p = (r, p') \<Longrightarrow> sp_generation_id p \<le> sp_generation_id p'"
  using sp_accept_generation [of rz i sr x p] by (simp split: if_splits)

lemma accept_all_mono: "accept_all rz i cs p = (r, p') \<Longrightarrow> sp_generation_id p \<le> sp_generation_id p'"
proof (induction cs arbitrary: p)
  case (Cons c cs)
  then show ?case by (fastforce split: prod.splits sum.splits dest: sp_accept_mono)
qed simp

lemma hysteresis_mono: "aw_hysteresis rz i b w p = (r, w', p') \<Longrightarrow> sp_generation_id p \<le> sp_generation_id p'"
  by (auto simp: aw_hysteresis_def Let_def split: if_splits prod.splits sum.splits dest: accept_all_mono)

lemma feed_mono: "aw_feed rz i c w p = (r, w', p') \<Longrightarrow> sp_generation_id p \<le> sp_generation_id p'"
  by (auto simp: aw_feed_def split: if_splits prod.splits sum.splits dest: sp_accept_mono)

lemma timeout_mono:
  "aw_timeout i s = (r, s') \<Longrightarrow> sp_generation_id (pp_provider s) \<le> sp_generation_id (pp_provider s')"
proof -
  have p: "sp_reset x p = (y, q) \<Longrightarrow> sp_generation_id p \<le> sp_generation_id q" for x y p and q :: "'a provider"
    using sp_reset_fields(1) [of x p] by simp
  show "aw_timeout i s = (r, s') \<Longrightarrow> sp_generation_id (pp_provider s) \<le> sp_generation_id (pp_provider s')"
    by (auto simp: aw_timeout_def aw_do_stream_reset_def fsm_moves_eq Let_def
        split: if_splits prod.splits sum.splits dest: p)
qed

lemma transcribe_mono:
  assumes "aw_transcribe rz i c s = Some (r, s')"
  shows "sp_generation_id (pp_provider s) \<le> sp_generation_id (pp_provider s')
     \<and> (\<forall>d. r = Inr (Some d) \<longrightarrow> dl_generation_id d = sp_generation_id (pp_provider s'))"
proof -
  obtain x w p where f: "aw_feed rz i c (pp_worker s) (pp_provider s) = (x, w, p)" by (metis prod.exhaust)
  have diag: "pp_provider (aw_diag i t) = pp_provider t" for t :: "('a, 'b) pipe" by (simp add: aw_diag_def)
  show ?thesis
    using assms feed_mono [OF f]
    by (auto simp: aw_transcribe_def f diag Let_def aw_deliver_def dest: sp_decode_fields
        split: sum.splits option.splits prod.splits if_splits)
qed

lemma iteration_mono:
  assumes "aw_iteration rz m i s = Some (r, s')"
  shows "sp_generation_id (pp_provider s) \<le> sp_generation_id (pp_provider s')"
    and "r = Inr (Some d) \<Longrightarrow> dl_generation_id d = sp_generation_id (pp_provider s')"
proof -
  have proc: "sp_generation_id (pp_provider t) \<le> sp_generation_id (pp_provider s')
      \<and> (\<forall>d. r = Inr (Some d) \<longrightarrow> dl_generation_id d = sp_generation_id (pp_provider s'))"
    if "aw_process rz m i c t = Some (r, s')" for c and t :: "('a, 'b) pipe"
    using that
    by (fastforce simp: aw_process_def Let_def split: sum.splits prod.splits if_splits
        dest: hysteresis_mono timeout_mono transcribe_mono)
  show "sp_generation_id (pp_provider s) \<le> sp_generation_id (pp_provider s')"
    "r = Inr (Some d) \<Longrightarrow> dl_generation_id d = sp_generation_id (pp_provider s')"
    using assms proc by (auto simp: aw_iteration_def Let_def split: prod.splits option.splits; fastforce)+
qed

section \<open>The engine of the process is a run of the engine\<close>

text \<open>The worker's clock: the gate is read after the last wake was marked, and marked after it is read.\<close>

fun clock_ok :: "time_s \<Rightarrow> 'o sy_event list \<Rightarrow> bool" where
  "clock_ok t [] \<longleftrightarrow> True"
| "clock_ok t (Sy_work i h # es) \<longleftrightarrow> t \<le> hi_t_gate h \<and> hi_t_gate h \<le> hi_t_mark h \<and> clock_ok (hi_t_mark h) es"
| "clock_ok t (e # es) \<longleftrightarrow> clock_ok t es"

lemma clock_ok_tail:
  assumes "clock_ok t (ev # es)"
  shows "\<exists>t'. t \<le> t' \<and> clock_ok t' es"
proof (cases ev)
  case (Sy_work i h)
  then show ?thesis using assms by (intro exI [of _ "hi_t_mark h"]) simp
qed (use assms in \<open>auto intro!: exI [of _ t]\<close>)

lemma hyp_of_fields [simp]:
  "hi_generation_id (hyp_of d h) = dl_generation_id d" "hi_t_gate (hyp_of d h) = hi_t_gate h"
  "hi_t_mark (hyp_of d h) = hi_t_mark h" "hi_created (hyp_of d h) = hi_created h"
  by (simp_all add: hyp_of_def)

lemma put_pipe_fields [simp]:
  "we_streamer (put_pipe p e) = (we_streamer e)\<lparr>st_pipe := p\<rparr>" "engine_pipe (put_pipe p e) = p"
  "engine_wf (put_pipe p e) = engine_wf e" "we_detection_paused (put_pipe p e) = we_detection_paused e"
  "we_wake_count (put_pipe p e) = we_wake_count e"
  "we_last_trigger_generation (put_pipe p e) = we_last_trigger_generation e"
  by (simp_all add: put_pipe_def engine_pipe_def engine_wf_def)

abbreviation sy_generation :: "('o, 's) system \<Rightarrow> nat" where
  "sy_generation s \<equiv> st_generation (we_streamer (sy_engine s))"

lemma put_pipe_generation: "st_generation (we_streamer (put_pipe p e)) = sp_generation_id (pp_provider p)"
  by (simp add: st_generation_def)

lemma on_hypothesis_generation:
  assumes "engine_wf e" "ratio_ok tsr" "on_hypothesis jw tsr m r ix i e = (wake, x, e')"
  shows "st_generation (we_streamer e') = st_generation (we_streamer e) + (if wake = None then 0 else 1)"
    and "we_wake_count e' = we_wake_count e + (if wake = None then 0 else 1)"
    and "we_detection_paused e' = we_detection_paused e" and "engine_wf e'"
    and "wake = None \<Longrightarrow> we_last_trigger_generation e' = we_last_trigger_generation e"
    and "wake \<noteq> None \<Longrightarrow> we_last_trigger_generation e' = int (hi_generation_id i)"
    and "wake \<noteq> None \<Longrightarrow> int (hi_generation_id i) \<noteq> we_last_trigger_generation e"
    and "x = Inl y \<Longrightarrow> hi_created i = Inl y"
proof -
  have "st_generation (we_streamer e') = st_generation (we_streamer e) + (if wake = None then 0 else 1)
     \<and> we_wake_count e' = we_wake_count e + (if wake = None then 0 else 1)
     \<and> we_detection_paused e' = we_detection_paused e \<and> engine_wf e'
     \<and> (wake = None \<longrightarrow> we_last_trigger_generation e' = we_last_trigger_generation e)
     \<and> (wake \<noteq> None \<longrightarrow> we_last_trigger_generation e' = int (hi_generation_id i)
          \<and> int (hi_generation_id i) \<noteq> we_last_trigger_generation e)
     \<and> (x = Inl y \<longrightarrow> hi_created i = Inl y)"
    using assms
  proof (cases rule: on_hypothesis_cases)
    case quiet
    then show ?thesis by (simp add: same_gates_def)
  next
    case (fire w e1 score phrase variant raw k)
    note o = on_fire_outcome [OF fire(8)]
    from o fire(6) have "engine_wf e'" by blast
    with o fire(7,10) show ?thesis by (auto simp: same_gates_def)
  qed
  then show "st_generation (we_streamer e') = st_generation (we_streamer e) + (if wake = None then 0 else 1)"
    "we_wake_count e' = we_wake_count e + (if wake = None then 0 else 1)"
    "we_detection_paused e' = we_detection_paused e" "engine_wf e'"
    "wake = None \<Longrightarrow> we_last_trigger_generation e' = we_last_trigger_generation e"
    "wake \<noteq> None \<Longrightarrow> we_last_trigger_generation e' = int (hi_generation_id i)"
    "wake \<noteq> None \<Longrightarrow> int (hi_generation_id i) \<noteq> we_last_trigger_generation e"
    "x = Inl y \<Longrightarrow> hi_created i = Inl y" by simp_all
qed

text \<open>What one event does, seen from the engine: nothing but a change of its streamer that keeps or raises
  the generation, or a hypothesis of the generation that the streamer has then.\<close>

lemma sy_exec_cases:
  assumes "sy_exec jw tsr rz m ev s = s'"
  obtains (env) st where "sy_engine s' = (sy_engine s)\<lparr>we_streamer := st\<rparr>" "sy_wakes s' = sy_wakes s"
      "wd_resets_total (sy_watchdog s') + sy_generation s \<le> wd_resets_total (sy_watchdog s) + st_generation st"
      "wd_resets_total (sy_watchdog s) \<le> wd_resets_total (sy_watchdog s')"
  | (hyp) i h d p wake x e where "ev = Sy_work i h" "dl_generation_id d = sp_generation_id (pp_provider p)"
      "sy_generation s \<le> sp_generation_id (pp_provider p)"
      "on_hypothesis jw tsr m (fst (sy_matcher s)) (snd (sy_matcher s)) (hyp_of d h) (put_pipe p (sy_engine s))
         = (wake, x, e)"
      "sy_engine s' = e" "sy_watchdog s' = sy_watchdog s" "sy_matcher s' = sy_matcher s"
      "sy_alive s' \<longleftrightarrow> x = Inr ()"
      "sy_wakes s' = (case wake of None \<Rightarrow> sy_wakes s | Some _ \<Rightarrow> (dl_generation_id d, hi_t_mark h) # sy_wakes s)"
proof -
  have same: thesis if "sy_engine s' = sy_engine s" "sy_wakes s' = sy_wakes s" "sy_watchdog s' = sy_watchdog s"
    using env [of "we_streamer (sy_engine s)"] that by simp
  show thesis
  proof (cases ev)
    case (Sy_audio c)
    have "st_generation (snd (st_audio_callback c st)) = st_generation st" for st :: "('a, 'b) streamer"
      by (simp add: st_audio_callback_def st_generation_def Let_def case_prod_unfold split: sum.splits)
    then show thesis
      using env [of "snd (st_audio_callback c (we_streamer (sy_engine s)))"] assms Sy_audio
      by (auto simp: sy_audio_def)
  next
    case (Sy_profile ds)
    then show thesis using same assms by (auto simp: sy_profile_def split: sum.splits)
  next
    case (Sy_watch y)
    show thesis
    proof (cases "sy_watching s")
      case False
      then show thesis using same assms Sy_watch by (auto simp: sy_watch_def)
    next
      case True
      define ws where "ws = (sy_watchdog s, we_streamer (sy_engine s))"
      define out where "out = snd (wd_monitor_pass m (y\<lparr>wp_thread := Some (sy_alive s)\<rparr>) ws)"
      have "(\<lambda>us. wd_resets_total (fst us) + sy_generation s = wd_resets_total (sy_watchdog s) + st_generation (snd us)
          \<and> wd_resets_total (sy_watchdog s) \<le> wd_resets_total (fst us)) out"
        unfolding out_def
      proof (rule wd_pass_preserves)
        fix i reason and us :: "watchdog \<times> ('a, 'b) streamer"
        assume a: "wd_resets_total (fst us) + sy_generation s = wd_resets_total (sy_watchdog s) + st_generation (snd us)
          \<and> wd_resets_total (sy_watchdog s) \<le> wd_resets_total (fst us)"
        have g: "st_generation (snd us) \<le> st_generation (snd (snd (wd_recover_stream m i reason us)))"
          by (cases i; cases us) (auto simp: wd_recover_stream_def Let_def case_prod_unfold st_reset_generation
              split: sum.splits)
        show "wd_resets_total (fst (snd (wd_recover_stream m i reason us))) + sy_generation s
            = wd_resets_total (sy_watchdog s) + st_generation (snd (snd (wd_recover_stream m i reason us)))
          \<and> wd_resets_total (sy_watchdog s) \<le> wd_resets_total (fst (snd (wd_recover_stream m i reason us)))"
          using a g wd_recover_generation [of m i reason "fst us" "snd us"] by simp
      qed (simp add: ws_def)
      moreover have "sy_watchdog s' = fst out" "sy_engine s' = (sy_engine s)\<lparr>we_streamer := snd out\<rparr>"
          "sy_wakes s' = sy_wakes s"
        using assms Sy_watch True by (auto simp: sy_watch_def out_def ws_def case_prod_unfold Let_def)
      ultimately show thesis using env [of "snd out"] by simp
    qed
  next
    case (Sy_work i h)
    have ex: "sy_work jw tsr rz m i h s = s'" using assms Sy_work by simp
    show thesis
    proof (cases "\<not> sy_alive s \<or> st_stop (we_streamer (sy_engine s))
        \<or> aw_iteration rz m i (engine_pipe (sy_engine s)) = None")
      case True
      then show thesis using same ex by (auto simp: sy_work_def split: if_splits)
    next
      case False
      then obtain x p where it: "aw_iteration rz m i (engine_pipe (sy_engine s)) = Some (x, p)" by fastforce
      let ?s = "s\<lparr>sy_engine := put_pipe p (sy_engine s)\<rparr>"
      have g: "sy_generation s \<le> sp_generation_id (pp_provider p)"
        using iteration_mono(1) [OF it] by (simp add: engine_pipe_def st_generation_def)
      have eq: "s' = (case x of Inl _ \<Rightarrow> ?s\<lparr>sy_alive := False\<rparr> | Inr None \<Rightarrow> ?s
          | Inr (Some d) \<Rightarrow> sy_callback jw tsr m (hyp_of d h) ?s)"
        using False it ex by (simp add: sy_work_def Let_def)
      show thesis
      proof (cases "\<exists>d. x = Inr (Some d)")
        case False
        then have "sy_engine s' = put_pipe p (sy_engine s)" "sy_wakes s' = sy_wakes s"
          "sy_watchdog s' = sy_watchdog s"
          using eq by (auto split: sum.splits option.splits)
        then show thesis using env [of "(we_streamer (sy_engine s))\<lparr>st_pipe := p\<rparr>"] g
          by (simp add: put_pipe_def st_generation_def)
      next
        case True
        then obtain d where d: "x = Inr (Some d)" by blast
        obtain wake y e where o: "on_hypothesis jw tsr m (fst (sy_matcher s)) (snd (sy_matcher s)) (hyp_of d h)
            (put_pipe p (sy_engine s)) = (wake, y, e)" by (metis prod.exhaust)
        have eq: "s' = ?s\<lparr>sy_engine := e, sy_alive := (y = Inr ()),
            sy_wakes := (case wake of None \<Rightarrow> sy_wakes s | Some _ \<Rightarrow> (dl_generation_id d, hi_t_mark h) # sy_wakes s)\<rparr>"
          using eq o by (cases wake) (simp_all add: d sy_callback_def)
        show thesis
          by (rule hyp [OF Sy_work iteration_mono(2) [OF it d] g o]) (simp_all add: eq)
      qed
    qed
  qed
qed

text \<open>The books of a run: wakes carry falling generations (newest first), all below the stream's current one,
  and every wake and every reset of the watchdog has moved it on.\<close>

definition sy_inv :: "('o, 's) system \<Rightarrow> bool" where
  "sy_inv s \<longleftrightarrow> engine_wf (sy_engine s) \<and> \<not> we_detection_paused (sy_engine s)
     \<and> we_wake_count (sy_engine s) = length (sy_wakes s)
     \<and> sorted_wrt (\<lambda>a b. fst b < fst a) (sy_wakes s)
     \<and> (\<forall>w\<in>set (sy_wakes s). fst w < sy_generation s)
     \<and> (case sy_wakes s of
          [] \<Rightarrow> we_last_trigger_generation (sy_engine s) = -1
        | w # _ \<Rightarrow> we_last_trigger_generation (sy_engine s) = int (fst w))
     \<and> 1 + wd_resets_total (sy_watchdog s) + length (sy_wakes s) \<le> sy_generation s"

lemma engine_start_streamer:
  "engine_start now created mic e =
     (fst (st_start now created mic (we_streamer e)),
      e\<lparr>we_state_machine := rt_transition ''start'' (we_state_machine e),
        we_streamer := snd (st_start now created mic (we_streamer e))\<rparr>)"
  by (simp add: engine_start_def Let_def case_prod_unfold)

lemma sy_started:
  assumes "sy_start m session now created mic g = (Inr (), s)"
  obtains x where "created = Inr x" "mic = Inr ()"
    "sy_engine s = snd (engine_start now created mic (new_engine (new_streamer m session now) now))"
    "we_streamer (sy_engine s) = snd (st_start now (Inr x) (Inr ()) (new_streamer m session now))"
    "sy_watchdog s = new_watchdog" "sy_matcher s = g" "sy_alive s" "sy_wakes s = []"
proof -
  have ok: "fst (st_start now created mic (new_streamer m session now)) = Inr ()"
    using assms by (simp add: sy_start_def engine_start_streamer new_engine_def)
  then obtain x where x: "created = Inr x" "mic = Inr ()"
    using st_start_fresh [of now created mic m session now] by auto
  show thesis
    by (rule that [OF x]) (use assms x in \<open>auto simp: sy_start_def engine_start_streamer new_engine_def\<close>)
qed

lemma sy_start_inv:
  assumes "sy_start m session now created mic g = (Inr (), s)"
  shows "sy_inv s"
  using assms
proof (rule sy_started)
  fix x assume s: "created = Inr x"
    "sy_engine s = snd (engine_start now created mic (new_engine (new_streamer m session now) now))"
    "we_streamer (sy_engine s) = snd (st_start now (Inr x) (Inr ()) (new_streamer m session now))"
    "sy_watchdog s = new_watchdog" "sy_wakes s = []"
  have "engine_wf (sy_engine s)" unfolding s(2) by (intro ava_inv)
  with s show ?thesis
    by (simp add: sy_inv_def st_start_fresh_state)
      (simp add: new_watchdog_def engine_start_streamer new_engine_def)
qed

lemma sy_exec_inv:
  assumes "ratio_ok tsr" "sy_inv s"
  shows "sy_inv (sy_exec jw tsr rz m ev s)"
proof (rule sy_exec_cases [OF refl, of jw tsr rz m ev s])
  fix st assume e: "sy_engine (sy_exec jw tsr rz m ev s) = (sy_engine s)\<lparr>we_streamer := st\<rparr>"
    "sy_wakes (sy_exec jw tsr rz m ev s) = sy_wakes s"
    "wd_resets_total (sy_watchdog (sy_exec jw tsr rz m ev s)) + sy_generation s
       \<le> wd_resets_total (sy_watchdog s) + st_generation st"
    "wd_resets_total (sy_watchdog s) \<le> wd_resets_total (sy_watchdog (sy_exec jw tsr rz m ev s))"
  have wf: "engine_wf ((sy_engine s)\<lparr>we_streamer := st\<rparr>)" using assms(2) by (simp add: sy_inv_def engine_wf_def)
  have "sy_generation s \<le> st_generation st" using e(3,4) by simp
  with assms(2) e wf show ?thesis by (fastforce simp: sy_inv_def split: list.splits)
next
  fix i h d p wake x e
  let ?s = "sy_exec jw tsr rz m ev s"
  assume e: "dl_generation_id d = sp_generation_id (pp_provider p)" "sy_generation s \<le> sp_generation_id (pp_provider p)"
    "on_hypothesis jw tsr m (fst (sy_matcher s)) (snd (sy_matcher s)) (hyp_of d h) (put_pipe p (sy_engine s)) = (wake, x, e)"
    "sy_engine ?s = e" "sy_watchdog ?s = sy_watchdog s"
    "sy_wakes ?s = (case wake of None \<Rightarrow> sy_wakes s | Some _ \<Rightarrow> (dl_generation_id d, hi_t_mark h) # sy_wakes s)"
  have wf: "engine_wf (put_pipe p (sy_engine s))" using assms(2) by (simp add: sy_inv_def)
  note g = on_hypothesis_generation [OF wf assms(1) e(3), unfolded put_pipe_generation, simplified]
  have old: "fst w < sp_generation_id (pp_provider p)" if "w \<in> set (sy_wakes s)" for w
    using assms(2) e(2) that by (fastforce simp: sy_inv_def)
  show ?thesis
  proof (cases wake)
    case None
    with assms(2) e g old show ?thesis by (fastforce simp: sy_inv_def split: list.splits)
  next
    case (Some wk)
    with assms(2) e g old show ?thesis by (auto simp: sy_inv_def less_Suc_eq)
  qed
qed

lemma sy_run_inv: "ratio_ok tsr \<Longrightarrow> sy_inv s \<Longrightarrow> sy_inv (fold (sy_exec jw tsr rz m) es s)"
  by (induction es arbitrary: s) (simp_all add: sy_exec_inv)

definition sy_abs :: "time_s \<Rightarrow> ('o, 's) system \<Rightarrow> ('o, 's) engine_run \<Rightarrow> bool" where
  "sy_abs t s a \<longleftrightarrow> er_engine a = sy_engine s \<and> er_wakes a = sy_wakes s \<and> er_gen a \<le> sy_generation s \<and> er_clock a \<le> t"

lemma sy_exec_sim:
  assumes "ratio_ok tsr" "sy_inv s" "sy_abs t s a" "clock_ok t (ev # es)"
  shows "\<exists>a' t'. (engine_step jw tsr m)\<^sup>*\<^sup>* a a' \<and> sy_abs t' (sy_exec jw tsr rz m ev s) a' \<and> clock_ok t' es"
proof (rule sy_exec_cases [OF refl, of jw tsr rz m ev s])
  fix st assume e: "sy_engine (sy_exec jw tsr rz m ev s) = (sy_engine s)\<lparr>we_streamer := st\<rparr>"
    "sy_wakes (sy_exec jw tsr rz m ev s) = sy_wakes s"
    "wd_resets_total (sy_watchdog (sy_exec jw tsr rz m ev s)) + sy_generation s
       \<le> wd_resets_total (sy_watchdog s) + st_generation st"
    "wd_resets_total (sy_watchdog s) \<le> wd_resets_total (sy_watchdog (sy_exec jw tsr rz m ev s))"
  let ?a = "a\<lparr>er_engine := (er_engine a)\<lparr>we_streamer := st\<rparr>, er_clock := er_clock a\<rparr>"
  have step: "engine_step jw tsr m a ?a" by (rule engine_step.environment) simp
  obtain t' where t': "t \<le> t'" "clock_ok t' es" using clock_ok_tail [OF assms(4)] by blast
  have "sy_abs t' (sy_exec jw tsr rz m ev s) ?a"
    using assms(3) e t'(1) by (simp add: sy_abs_def)
  with step t'(2) show ?thesis by blast
next
  fix i h d p wake x e
  let ?s = "sy_exec jw tsr rz m ev s"
  assume e: "ev = Sy_work i h" "dl_generation_id d = sp_generation_id (pp_provider p)"
    "sy_generation s \<le> sp_generation_id (pp_provider p)"
    "on_hypothesis jw tsr m (fst (sy_matcher s)) (snd (sy_matcher s)) (hyp_of d h) (put_pipe p (sy_engine s)) = (wake, x, e)"
    "sy_engine ?s = e"
    "sy_wakes ?s = (case wake of None \<Rightarrow> sy_wakes s | Some _ \<Rightarrow> (dl_generation_id d, hi_t_mark h) # sy_wakes s)"
  let ?b = "a\<lparr>er_engine := (er_engine a)\<lparr>we_streamer := we_streamer (put_pipe p (sy_engine s))\<rparr>, er_clock := er_clock a\<rparr>"
  let ?c = "?b\<lparr>er_engine := e,
      er_wakes := (case wake of None \<Rightarrow> er_wakes ?b | Some _ \<Rightarrow> (hi_generation_id (hyp_of d h), hi_t_mark (hyp_of d h)) # er_wakes ?b),
      er_gen := hi_generation_id (hyp_of d h), er_clock := hi_t_mark (hyp_of d h)\<rparr>"
  have wf: "engine_wf (put_pipe p (sy_engine s))" using assms(2) by (simp add: sy_inv_def)
  have b: "engine_step jw tsr m a ?b" by (rule engine_step.environment) simp
  have eng: "er_engine ?b = put_pipe p (sy_engine s)" using assms(3) by (simp add: sy_abs_def put_pipe_def)
  have "engine_step jw tsr m ?b ?c"
  proof (rule engine_step.hypothesis)
    show "on_hypothesis jw tsr m (fst (sy_matcher s)) (snd (sy_matcher s)) (hyp_of d h) (er_engine ?b) = (wake, x, e)"
      using e(4) eng by (simp only:)
  qed (use assms(3,4) e(1-3) in \<open>simp_all add: sy_abs_def\<close>)
  with b have run: "(engine_step jw tsr m)\<^sup>*\<^sup>* a ?c"
    by (rule converse_rtranclp_into_rtranclp [OF _ r_into_rtranclp])
  have "sy_abs (hi_t_mark h) ?s ?c"
    using assms(3) e on_hypothesis_generation(1) [OF wf assms(1) e(4)]
    by (simp add: sy_abs_def st_generation_def split: option.splits)
  with run assms(4) e(1) show ?thesis by auto
qed

lemma sy_run_sim:
  assumes "ratio_ok tsr"
  shows "sy_inv s \<Longrightarrow> sy_abs t s a \<Longrightarrow> clock_ok t es \<Longrightarrow>
    \<exists>a' t'. (engine_step jw tsr m)\<^sup>*\<^sup>* a a' \<and> sy_abs t' (fold (sy_exec jw tsr rz m) es s) a'"
proof (induction es arbitrary: s a t)
  case (Cons ev es)
  obtain b t1 where b: "(engine_step jw tsr m)\<^sup>*\<^sup>* a b" "sy_abs t1 (sy_exec jw tsr rz m ev s) b" "clock_ok t1 es"
    using sy_exec_sim [OF assms Cons.prems] by blast
  obtain a' t' where "(engine_step jw tsr m)\<^sup>*\<^sup>* b a'"
    "sy_abs t' (fold (sy_exec jw tsr rz m) es (sy_exec jw tsr rz m ev s)) a'"
    using Cons.IH [OF sy_exec_inv [OF assms Cons.prems(1)] b(2,3)] by blast
  with b(1) show ?case by (metis fold_simps(2) rtranclp_trans)
qed auto

section \<open>A worker that survives\<close>

text \<open>What a hypothesis does to the streamer.\<close>

lemma confirm_candidate_streamer [simp]: "we_streamer (confirm_candidate e) = we_streamer e"
  by (simp add: confirm_candidate_def split: option.splits)

lemma on_hypothesis_streamer:
  assumes "on_hypothesis jw tsr m r ix i e = (wake, x, e')"
  shows "we_streamer e' \<in> {we_streamer e, we_streamer (on_metrics i e),
     snd (st_reset_stream m (''wake'', hi_t_reset i, hi_t_state i, hi_created i) (we_streamer (on_metrics i e)))}"
proof (cases "we_detection_paused e")
  case True
  then show ?thesis using assms by (simp add: on_hypothesis_def)
next
  case False
  define e1 where "e1 = on_metrics i e"
  obtain w e2 where e2: "on_buffer i e1 = (w, e2)" by fastforce
  obtain score phrase variant where bm: "best_match jw tsr r ix w = (score, phrase, variant)"
    by (metis prod.exhaust)
  obtain raw e3 where e3: "on_score i score w e2 = (raw, e3)" by fastforce
  define c where "c = (if variant \<noteq> '''' then get_canonical ix variant else Some '''')"
  define e5 where "e5 = on_ema i phrase raw (on_candidate i phrase variant c raw e3)"
  have eq: "on_gates m i phrase raw e5 = (wake, x, e')"
    using assms False by (simp add: on_hypothesis_def e2 bm e3 Let_def e5_def c_def flip: e1_def)
  have s5: "we_streamer e5 = we_streamer e1"
  proof -
    have "we_streamer e2 = we_streamer e1" using e2 by (auto simp: on_buffer_def Let_def split: prod.splits)
    moreover have "we_streamer e3 = we_streamer e2" using e3 by (auto simp: on_score_def Let_def)
    moreover have "we_streamer e5 = we_streamer e3"
      by (simp add: e5_def on_ema_def on_candidate_def candidate_defs Let_def split: option.splits)
    ultimately show ?thesis by simp
  qed
  show ?thesis
    using eq s5 by (auto simp: on_gates_def on_fire_def case_prod_unfold Let_def e1_def split: if_splits)
qed

definition pipe_live :: "('o, 's) pipe \<Rightarrow> bool" where
  "pipe_live p \<longleftrightarrow> pp_wf p \<and> [] \<notin> set (aq_queue (pp_queue p))"

definition streamer_live :: "('o, 's) streamer \<Rightarrow> bool" where
  "streamer_live st \<longleftrightarrow> pipe_live (st_pipe st) \<and> \<not> st_stop st"

lemma reset_live: "streamer_live st \<Longrightarrow> streamer_live (snd (st_reset_stream m i st))"
  using st_reset_wf [of st m i]
  by (cases i) (auto simp: streamer_live_def pipe_live_def st_reset_stream_eq Let_def split: sum.splits)

lemma metrics_live: "streamer_live (we_streamer e) \<Longrightarrow> streamer_live (we_streamer (on_metrics i e))"
  by (simp add: streamer_live_def pipe_live_def on_metrics_def pp_wf_def vad_ready_def noise_wf_def Let_def)

lemma hypothesis_live:
  assumes "on_hypothesis jw tsr m r ix i e = (wake, x, e')" "streamer_live (we_streamer e)"
  shows "streamer_live (we_streamer e')"
  using on_hypothesis_streamer [OF assms(1)] metrics_live [OF assms(2), of i] assms(2)
  by (auto simp: reset_live)

lemma watch_live:
  "streamer_live (snd ws) \<Longrightarrow> streamer_live (snd (snd (wd_monitor_pass m x ws)))"
proof (rule wd_pass_preserves [where P = "\<lambda>ws. streamer_live (snd ws)"])
  fix i reason and us :: "watchdog \<times> ('a, 'b) streamer"
  assume "streamer_live (snd us)"
  then show "streamer_live (snd (snd (wd_recover_stream m i reason us)))"
    using reset_live [of "snd us" m]
    by (cases i; cases us) (auto simp: wd_recover_stream_def Let_def case_prod_unfold split: sum.splits)
qed

lemma audio_live: "streamer_live st \<Longrightarrow> c \<noteq> [] \<Longrightarrow> streamer_live (snd (st_audio_callback c st))"
  by (auto simp: streamer_live_def pipe_live_def pp_wf_def st_audio_callback_def aq_enqueue_def Let_def)

text \<open>An iteration leaves the queue as the dequeue did.\<close>

lemma timeout_queue: "aw_timeout i p = (r, p') \<Longrightarrow> pp_queue p' = pp_queue p"
  by (auto simp: aw_timeout_def aw_do_stream_reset_def fsm_moves_eq Let_def split: if_splits prod.splits sum.splits)

lemma transcribe_queue: "aw_transcribe rz i c p = Some (r, p') \<Longrightarrow> aq_queue (pp_queue p') = aq_queue (pp_queue p)"
  by (auto simp: aw_transcribe_def aw_diag_def aq_reset_warn_def Let_def
      split: prod.splits sum.splits option.splits if_splits)

lemma process_queue: "aw_process rz m i c p = Some (r, p') \<Longrightarrow> aq_queue (pp_queue p') = aq_queue (pp_queue p)"
  by (auto simp: aw_process_def Let_def dest!: timeout_queue transcribe_queue
      split: prod.splits sum.splits if_splits)

lemma iteration_live:
  assumes "pipe_live p" "decode_progress rz k"
  obtains r p' where "aw_iteration rz m i p = Some (r, p')" "pipe_live p'" "\<And>e. r = Inl e \<Longrightarrow> wi_created i = Inl e"
proof -
  have tick: "aw_wf (w\<lparr>aw_heartbeat := t\<rparr>) \<longleftrightarrow> aw_wf w"
    "aw_wf (w\<lparr>aw_processing_active := b\<rparr>) \<longleftrightarrow> aw_wf w" for w b t
    by (simp_all add: aw_wf_def pre_wf_def)
  show thesis
  proof (cases "aq_queue (pp_queue p)")
    case Nil
    then show thesis
      using that assms(1) by (auto simp: aw_iteration_def aq_dequeue_def pipe_live_def pp_wf_def tick Let_def)
  next
    case (Cons c cs)
    let ?q = "p\<lparr>pp_queue := (pp_queue p)\<lparr>aq_queue := cs\<rparr>, pp_worker := (pp_worker p)
        \<lparr>aw_heartbeat := wi_t_dequeue i, aw_processing_active := True\<rparr>\<rparr>"
    have ne: "c \<noteq> []" "[] \<notin> set cs" using assms(1) Cons by (auto simp: pipe_live_def)
    have wf: "pp_wf ?q" using assms(1) by (simp add: pipe_live_def pp_wf_def tick)
    have eq: "aw_iteration rz m i p = aw_process rz m i c ?q"
      by (simp add: aw_iteration_def aq_dequeue_def Cons Let_def)
    obtain r p' where o: "aw_process rz m i c ?q = Some (r, p')" "pp_wf p'" "\<And>e. r = Inl e \<Longrightarrow> wi_created i = Inl e"
      using process_outcome [OF wf assms(2) ne(1), of m i] by metis
    have "pipe_live p'" using o(2) process_queue [OF o(1)] ne(2) by (simp add: pipe_live_def)
    show thesis
      by (rule that [of r p']) (use o(1) eq o(3) \<open>pipe_live p'\<close> in \<open>simp_all only:\<close>)
  qed
qed

text \<open>Events from a microphone that delivers samples and a recognizer that always creates streams; what the
  watchdog's resets meet does not matter.\<close>

fun healthy_event :: "'o sy_event \<Rightarrow> bool" where
  "healthy_event (Sy_audio c) \<longleftrightarrow> c \<noteq> []"
| "healthy_event (Sy_work i h) \<longleftrightarrow> (\<exists>x y. wi_created i = Inr x \<and> hi_created h = Inr y)"
| "healthy_event ev \<longleftrightarrow> True"

definition sy_live :: "('o, 's) system \<Rightarrow> bool" where
  "sy_live s \<longleftrightarrow> sy_alive s \<and> engine_wf (sy_engine s) \<and> streamer_live (we_streamer (sy_engine s))"

lemma sy_exec_live:
  assumes "ratio_ok tsr" "decode_progress rz k" "healthy_event ev" "sy_live s"
  shows "sy_live (sy_exec jw tsr rz m ev s)"
proof (cases ev)
  case (Sy_audio c)
  then show ?thesis using assms by (simp add: sy_audio_def sy_live_def audio_live engine_wf_def)
next
  case (Sy_profile ds)
  then show ?thesis using assms by (simp add: sy_profile_def sy_live_def split: sum.splits)
next
  case (Sy_watch y)
  then show ?thesis
    using assms watch_live [of "(sy_watchdog s, we_streamer (sy_engine s))"]
    by (simp add: sy_watch_def sy_live_def engine_wf_def case_prod_unfold Let_def)
next
  case (Sy_work i h)
  have live: "pipe_live (engine_pipe (sy_engine s))"
    using assms(4) by (simp add: sy_live_def streamer_live_def engine_pipe_def)
  obtain x y where c: "wi_created i = Inr x" "hi_created h = Inr y" using assms(3) Sy_work by auto
  obtain r p where o: "aw_iteration rz m i (engine_pipe (sy_engine s)) = Some (r, p)" "pipe_live p"
    "\<And>e. r = Inl e \<Longrightarrow> wi_created i = Inl e"
    using iteration_live [OF live assms(2), of m i] by blast
  obtain v where r: "r = Inr v" using o(3) c(1) by (cases r) auto
  have st: "streamer_live (we_streamer (put_pipe p (sy_engine s)))" "engine_wf (put_pipe p (sy_engine s))"
    using o(2) assms(4) by (simp_all add: sy_live_def streamer_live_def)
  have run: "sy_alive s" "\<not> st_stop (we_streamer (sy_engine s))"
    using assms(4) by (simp_all add: sy_live_def streamer_live_def)
  show ?thesis
  proof (cases v)
    case None
    then show ?thesis using o(1) r st run Sy_work by (simp add: sy_work_def sy_live_def Let_def)
  next
    case (Some d)
    obtain wake z e where h: "on_hypothesis jw tsr m (fst (sy_matcher s)) (snd (sy_matcher s)) (hyp_of d h)
        (put_pipe p (sy_engine s)) = (wake, z, e)" by (metis prod.exhaust)
    note g = on_hypothesis_generation [OF st(2) assms(1) h]
    obtain u where "z = Inr u" using g(8) c(2) by (cases z) fastforce+
    with g(4) hypothesis_live [OF h st(1)] show ?thesis
      using o(1) r Some run Sy_work by (simp add: sy_work_def sy_callback_def sy_live_def h Let_def)
  qed
qed

lemma sy_start_live:
  assumes "sy_start m True now created mic g = (Inr (), s)"
  shows "sy_live s"
  using assms
proof (rule sy_started)
  fix x assume s: "sy_engine s = snd (engine_start now created mic (new_engine (new_streamer m True now) now))"
    "we_streamer (sy_engine s) = snd (st_start now (Inr x) (Inr ()) (new_streamer m True now))" "sy_alive s"
  let ?st = "snd (st_start now (Inr x) (Inr ()) (new_streamer m True now))"
  have "pp_wf (st_pipe ?st)"
    using vad_ready_new [of m] by (simp add: pp_wf_def st_start_fresh_state aw_wf_new) (simp add: new_vad_def Let_def)
  moreover have "\<not> st_stop ?st" "aq_queue (pp_queue (st_pipe ?st)) = []"
    by (simp_all add: st_start_defs new_audio_queue_def)
  moreover have "engine_wf (sy_engine s)" unfolding s(1) by (intro ava_inv)
  ultimately show ?thesis using s(2,3) by (simp add: sy_live_def streamer_live_def pipe_live_def)
qed

section \<open>Properties\<close>

lemma sy_run_live:
  "ratio_ok tsr \<Longrightarrow> decode_progress rz k \<Longrightarrow> list_all healthy_event es \<Longrightarrow> sy_live s \<Longrightarrow>
     sy_live (fold (sy_exec jw tsr rz m) es s)"
  by (induction es arbitrary: s) (simp_all add: sy_exec_live)

text \<open>C6: the process runs the engine that the wake properties are about. After a start that succeeded, in
  every sequence of worker iterations, microphone callbacks, watchdog passes and profile changes
  whose worker reads a clock that does not go back, the engine and its wakes are those of a run of
  the engine from a fresh one: the generations it is handed never go down, because the provider the
  worker reads them from, and the watchdog and the engine reset, only counts up.\<close>

theorem process_refines_engine:
  assumes "ratio_ok tsr" "sy_start m session now created mic g = (Inr (), s)"
    and "0 \<le> t" "clock_ok t es"
  shows "\<exists>a a'. run_init a \<and> (engine_step jw tsr m)\<^sup>*\<^sup>* a a' \<and> er_engine a = sy_engine s
     \<and> er_engine a' = sy_engine (fold (sy_exec jw tsr rz m) es s)
     \<and> er_wakes a' = sy_wakes (fold (sy_exec jw tsr rz m) es s)"
proof -
  let ?a = "\<lparr>er_engine = sy_engine s, er_wakes = [], er_gen = 0, er_clock = t\<rparr>"
  obtain x where s: "sy_engine s = snd (engine_start now created mic (new_engine (new_streamer m session now) now))"
    "sy_wakes s = []" using sy_started [OF assms(2)] by metis
  have "\<exists>st t. sy_engine s = new_engine st t
      \<or> (\<exists>now created mic. sy_engine s = snd (engine_start now created mic (new_engine st t)))"
    using s(1) by blast
  with assms(3) have init: "run_init ?a" by (simp add: run_init_def)
  have "sy_abs t s ?a" using s(2) by (simp add: sy_abs_def)
  from sy_run_sim [OF assms(1) sy_start_inv [OF assms(2)] this assms(4)]
  obtain a' t' where "(engine_step jw tsr m)\<^sup>*\<^sup>* ?a a'" "sy_abs t' (fold (sy_exec jw tsr rz m) es s) a'" by blast
  with init show ?thesis by (intro exI [of _ ?a] exI [of _ a']) (simp add: sy_abs_def)
qed

definition toy_system :: "(nat \<times> string, unit) system" where
  "toy_system = snd (sy_start toy_vad_models True 0 (Inr (0, '''')) (Inr ()) (demo_registry, demo_index))"

definition toy_events :: "(nat \<times> string) sy_event list" where
  "toy_events = [Sy_audio [1/100], Sy_work toy_input demo_hyp,
     Sy_watch \<lparr>wp_thread = None, wp_now = 10, wp_worker = broken_recognizer, wp_queue = broken_recognizer,
               wp_vad = broken_recognizer\<rparr>,
     Sy_audio [1/100], Sy_work toy_input demo_hyp]"

lemma toy_system_starts:
  "sy_start toy_vad_models True 0 (Inr (0, '''')) (Inr ()) (demo_registry, demo_index) = (Inr (), toy_system)"
proof -
  have "fst (st_start 0 (Inr (0 :: nat, '''' :: string)) (Inr ()) (new_streamer toy_vad_models True 0)) = Inr ()"
    using st_start_fresh [of 0 "Inr (0 :: nat, '''' :: string)" "Inr ()" toy_vad_models True 0] by simp
  then show ?thesis
    by (simp add: toy_system_def sy_start_def engine_start_streamer new_engine_def)
qed

lemma demo_ratio_ok: "ratio_ok demo_ratio"
  by (simp add: ratio_ok_def demo_ratio_def)

theorem process_refines_engine_witness:
  "\<exists>a a'. run_init a \<and> (engine_step (\<lambda>_ _. 0) demo_ratio toy_vad_models)\<^sup>*\<^sup>* a a'
     \<and> er_engine a' = sy_engine (fold (sy_exec (\<lambda>_ _. 0) demo_ratio toy_recognizer toy_vad_models) toy_events toy_system)"
proof -
  have "clock_ok 0 toy_events" by (simp add: toy_events_def demo_hyp_def)
  from process_refines_engine [OF demo_ratio_ok toy_system_starts order_refl this, of "\<lambda>_ _. 0" toy_recognizer]
  show ?thesis by blast
qed

text \<open>C9: the books of the process. After a start that succeeded, whatever happens then (failing streams,
  empty chunks and clocks that jump included), the wakes carry strictly rising generations, each
  below the stream's current one; the engine counted exactly them; every wake and every reset of the
  watchdog has moved the stream to a generation of its own; and detection is never paused.\<close>

theorem process_accounts_for_wakes:
  assumes "ratio_ok tsr" "sy_start m session now created mic g = (Inr (), s0)"
    and "s = fold (sy_exec jw tsr rz m) es s0"
  shows "sorted_wrt (<) (rev (map fst (sy_wakes s)))
     \<and> (\<forall>w\<in>set (sy_wakes s). fst w < sy_generation s)
     \<and> we_wake_count (sy_engine s) = length (sy_wakes s)
     \<and> 1 + wd_resets_total (sy_watchdog s) + length (sy_wakes s) \<le> sy_generation s
     \<and> \<not> we_detection_paused (sy_engine s)"
proof -
  have "sy_inv s" unfolding assms(3) by (rule sy_run_inv [OF assms(1) sy_start_inv [OF assms(2)]])
  then show ?thesis by (simp add: sy_inv_def sorted_wrt_rev sorted_wrt_map)
qed

theorem process_accounts_for_wakes_witness:
  "\<exists>s. s = fold (sy_exec (\<lambda>_ _. 0) demo_ratio toy_recognizer toy_vad_models) toy_events toy_system
     \<and> we_wake_count (sy_engine s) = length (sy_wakes s) \<and> 1 \<le> sy_generation s"
  using process_accounts_for_wakes [OF demo_ratio_ok toy_system_starts refl,
      of "\<lambda>_ _. 0" toy_recognizer toy_events] by auto



end
