(* ===== verification/Supervisor_System.thy ===== *)
theory Supervisor_System
  imports Process_Entry Worker_Transport
begin

text \<open>
  The supervisor process as one machine: the monitor loop, the readers of the worker's output and of the
  IPC channel, the WebSocket server with its timers and its clients, and the end of standard input,
  in any order (\<^verbatim>\<open>src/runtime/supervisor/supervisor.py\<close>, \<^verbatim>\<open>src/runtime/transport/websocket_server.py\<close>). A
  step is one pass, one message, one line or one tick; steps of different threads are not
  interleaved within each other. \<open>stop\<close> ends the threads, so nothing happens after it.
\<close>

section \<open>Steps\<close>

text \<open>A frame of a client: the server checks it, and hands what is no acknowledgement to the supervisor.\<close>

definition sv_frame ::
  "(json \<Rightarrow> string option) \<Rightarrow> string + json \<Rightarrow> ws_input \<Rightarrow> shim_results \<Rightarrow> supervisor \<Rightarrow> supervisor" where
  "sv_frame validate parsed w sh s =
     (let (a, ws) = ws_frame validate parsed (sv_ws s); s = s\<lparr>sv_ws := ws\<rparr> in
      case a of
        Wa_message d \<Rightarrow> snd (sv_on_ws_receive w sh d s)
      | _ \<Rightarrow> s)"

datatype sv_event =
    Sv_monitor sup_input
  | Sv_ipc time_s ws_input "(string, json) dict"
  | Sv_line time_s ws_input ws_input string "json option"
  | Sv_frame "json \<Rightarrow> string option" "string + json" ws_input shim_results
  | Sv_retry time_s gone_conns
  | Sv_batch time_s string gone_conns
  | Sv_connect gone_conns nat
  | Sv_disconnect nat
  | Sv_stdin_end

fun sv_step :: "sv_event \<Rightarrow> supervisor \<Rightarrow> supervisor" where
  "sv_step (Sv_monitor i) s = sv_monitor_pass i s"
| "sv_step (Sv_ipc now w d) s = sv_on_ipc_receive now w d s"
| "sv_step (Sv_line now w w' line parsed) s = sv_worker_line now w w' line parsed s"
| "sv_step (Sv_frame v x w sh) s = sv_frame v x w sh s"
| "sv_step (Sv_retry now gone) s = s\<lparr>sv_ws := ws_retry_tick now gone (sv_ws s)\<rparr>"
| "sv_step (Sv_batch now uuid gone) s = s\<lparr>sv_ws := ws_batch_tick gone now uuid (sv_ws s)\<rparr>"
| "sv_step (Sv_connect gone c) s = s\<lparr>sv_ws := ws_connect gone c (sv_ws s)\<rparr>"
| "sv_step (Sv_disconnect c) s = s\<lparr>sv_ws := snd (ws_disconnect c (sv_ws s))\<rparr>"
| "sv_step Sv_stdin_end s = sv_stop_all s"

definition sv_exec :: "sv_event \<Rightarrow> supervisor \<Rightarrow> supervisor" where
  "sv_exec e s = (if sv_stop s then s else sv_step e s)"

section \<open>What stops the supervisor\<close>

text \<open>The two events that ask for it: the end of standard input, and a valid shutdown message.\<close>

fun asks_stop :: "sv_event \<Rightarrow> bool" where
  "asks_stop Sv_stdin_end \<longleftrightarrow> True"
| "asks_stop (Sv_frame v x w sh) \<longleftrightarrow>
     (case validate_message v x of Inr d \<Rightarrow> jget d ''type'' JNull = JStr ''shutdown'' | Inl _ \<Rightarrow> False)"
| "asks_stop _ \<longleftrightarrow> False"

lemma sv_broadcast_frame [simp]:
  "sv_stop (snd (sv_broadcast w d s)) = sv_stop s"
  "sv_degraded (snd (sv_broadcast w d s)) = sv_degraded s"
  "sv_recovery_policy (snd (sv_broadcast w d s)) = sv_recovery_policy s"
  "sv_ws (snd (sv_broadcast w d s)) = snd (ws_broadcast w d (sv_ws s))"
  by (simp_all add: sv_broadcast_def case_prod_unfold Let_def)

lemma sv_emit_frame [simp]:
  "sv_stop (sv_emit d s) = sv_stop s" "sv_degraded (sv_emit d s) = sv_degraded s"
  "sv_recovery_policy (sv_emit d s) = sv_recovery_policy s" "sv_ws (sv_emit d s) = sv_ws s"
  by (simp_all add: sv_emit_def)

definition same_control :: "supervisor \<Rightarrow> supervisor \<Rightarrow> bool" where
  "same_control s s' \<longleftrightarrow>
     sv_stop s' = sv_stop s \<and> sv_degraded s' = sv_degraded s \<and> sv_recovery_policy s' = sv_recovery_policy s"

lemma ipc_control: "same_control s (sv_on_ipc_receive now w d s)"
  by (auto simp: same_control_def sv_on_ipc_receive_def Let_def split: option.splits json.splits)

lemma line_control: "same_control s (sv_worker_line now w w' line parsed s)"
proof -
  have b: "same_control s (snd (sv_broadcast w d t))" if "same_control s t" for w d t
    using that by (simp add: same_control_def)
  have g: "same_control s (snd (sv_broadcast w' out (sv_emit out t)))" if "same_control s t" for t out
    using that by (simp add: same_control_def)
  have h: "same_control s (s\<lparr>sv_emitted := xs\<rparr>)" for xs by (simp add: same_control_def)
  show ?thesis
  proof (cases "\<exists>d. parsed = Some (JObj d)")
    case True
    then obtain d where d: "parsed = Some (JObj d)" by blast
    obtain r t where t: "sv_broadcast w d (s\<lparr>sv_emitted := sv_emitted s @ [JObj d]\<rparr>) = (r, t)" by (metis prod.exhaust)
    have "same_control s t" using b [OF h, of w d "sv_emitted s @ [JObj d]"] t by simp
    with g [OF this] show ?thesis
      by (cases r) (auto simp: sv_worker_line_def d t Let_def same_control_def)
  next
    case False
    then show ?thesis using g [OF h] g [of s]
      by (cases parsed) (auto simp: sv_worker_line_def Let_def same_control_def split: json.splits)
  qed
qed

lemma receive_control:
  "jget d ''type'' JNull \<noteq> JStr ''shutdown'' \<Longrightarrow> same_control s (snd (sv_on_ws_receive w sh d s))"
  by (auto simp: same_control_def sv_on_ws_receive_def sv_diagnostics_def sv_forward_def Let_def split: sum.splits)

lemma receive_shutdown:
  "jget d ''type'' JNull = JStr ''shutdown'' \<Longrightarrow> sv_on_ws_receive w sh d s = (Inr (), sv_stop_all s)"
  by (simp add: sv_on_ws_receive_def Let_def)

lemma frame_cases:
  obtains (other) ws where "sv_frame v x w sh s = s\<lparr>sv_ws := ws\<rparr>" "ws = snd (ws_frame v x (sv_ws s))"
      "\<not> asks_stop (Sv_frame v x w sh)"
  | (message) d where "validate_message v x = Inr d" "ws_frame v x (sv_ws s) = (Wa_message d, sv_ws s)"
      "sv_frame v x w sh s = snd (sv_on_ws_receive w sh d s)"
proof (cases "validate_message v x")
  case (Inl e)
  then show thesis using other [of "sv_ws s"] by (simp add: sv_frame_def ws_frame_def)
next
  case (Inr d)
  show thesis
  proof (cases "map_of d ''type'' = Some (JStr ''ack'')")
    case True
    have "\<exists>ws. ws_frame v x (sv_ws s) = (Wa_none, ws)"
      using Inr True by (cases "jget d ''payload'' (JObj [])") (auto simp: ws_frame_def Let_def)
    then obtain ws where ws: "ws_frame v x (sv_ws s) = (Wa_none, ws)" by blast
    show thesis
      by (rule other [of ws]) (use True Inr ws in \<open>simp_all add: sv_frame_def jget_def\<close>)
  next
    case False
    then have "ws_frame v x (sv_ws s) = (Wa_message d, sv_ws s)" using Inr by (simp add: ws_frame_def)
    then show thesis using message [of d] Inr by (simp add: sv_frame_def)
  qed
qed

lemma sv_step_control:
  assumes "low_failures s" "\<not> sv_stop s"
  shows "low_failures (sv_step e s) \<and> sv_degraded (sv_step e s) = sv_degraded s \<and> (sv_stop (sv_step e s) \<longleftrightarrow> asks_stop e)"
proof -
  have same: ?thesis if "same_control s (sv_step e s)" "\<not> asks_stop e"
    using that assms by (simp add: same_control_def low_failures_def)
  show ?thesis
  proof (cases e)
    case (Sv_monitor i)
    then show ?thesis using sv_pass_low [OF assms(1)] assms(2) by simp
  next
    case (Sv_frame v x w sh)
    show ?thesis
    proof (cases rule: frame_cases [of v x w sh s])
      case (other ws)
      then show ?thesis using same Sv_frame by (simp add: same_control_def)
    next
      case (message d)
      show ?thesis
      proof (cases "jget d ''type'' JNull = JStr ''shutdown''")
        case True
        then show ?thesis
          using message assms(1) receive_shutdown [OF True, of w sh s] Sv_frame
          by (simp add: sv_stop_all_def low_failures_def)
      next
        case False
        then show ?thesis using message receive_control [OF False, of s w sh] Sv_frame same by simp
      qed
    qed
  qed (use same ipc_control line_control assms in
      \<open>simp_all add: same_control_def sv_stop_all_def low_failures_def\<close>)
qed

lemma sv_exec_control:
  assumes "low_failures s"
  shows "low_failures (fold sv_exec es s) \<and> sv_degraded (fold sv_exec es s) = sv_degraded s
    \<and> (sv_stop (fold sv_exec es s) \<longleftrightarrow> sv_stop s \<or> (\<exists>e\<in>set es. asks_stop e))"
  using assms
proof (induction es arbitrary: s)
  case (Cons e es)
  show ?case
  proof (cases "sv_stop s")
    case True
    then show ?thesis using Cons.IH [OF Cons.prems] by (simp add: sv_exec_def)
  next
    case False
    note step = sv_step_control [OF Cons.prems False, of e]
    show ?thesis using Cons.IH [of "sv_step e s"] step False by (auto simp: sv_exec_def)
  qed
qed simp

section \<open>What a held message survives\<close>

text \<open>The events that keep the messages with correlation id \<open>k\<close>: no acknowledgement of it, no other message
  under the same id, and no client that connects (which sends the offline queue once and empties it).\<close>

fun keeps :: "json \<Rightarrow> sv_event \<Rightarrow> bool" where
  "keeps k (Sv_ipc now w d) \<longleftrightarrow> JStr (fst (snd w)) \<noteq> k"
| "keeps k (Sv_line now w w' line parsed) \<longleftrightarrow>
     JStr (fst (snd w')) \<noteq> k
   \<and> (case parsed of Some (JObj d) \<Rightarrow> jget d ''correlationId'' (JStr (fst (snd w))) \<noteq> k | _ \<Rightarrow> True)"
| "keeps k (Sv_frame v x w sh) \<longleftrightarrow>
     JStr (fst (snd w)) \<noteq> k
   \<and> (case validate_message v x of
        Inl _ \<Rightarrow> True
      | Inr d \<Rightarrow> jget d ''correlationId'' JNull \<noteq> k
          \<and> \<not> (jget d ''type'' JNull = JStr ''ack''
               \<and> (case jget d ''payload'' (JObj []) of JObj p \<Rightarrow> jget p ''correlationId'' JNull = k | _ \<Rightarrow> False)))"
| "keeps k (Sv_connect gone c) \<longleftrightarrow> False"
| "keeps k _ \<longleftrightarrow> True"

definition holding :: "ws_msg \<Rightarrow> supervisor \<Rightarrow> bool" where
  "holding m s \<longleftrightarrow> ws_wf (sv_ws s) \<and> held m (sv_ws s)"

lemma holding_broadcast:
  "holding m s \<Longrightarrow> jget d ''correlationId'' (JStr (fst (snd w))) \<noteq> wm_corr m \<Longrightarrow> holding m (snd (sv_broadcast w d s))"
  using held_broadcast [of m "sv_ws s" w d] ws_wf_broadcast [of "sv_ws s" w d]
  by (simp add: holding_def ws_envelope_def)

lemma holding_same: "sv_ws s' = sv_ws s \<Longrightarrow> holding m s \<Longrightarrow> holding m s'"
  by (simp add: holding_def)

lemma monitor_ws: "sv_ws (sv_monitor_pass i s) = sv_ws s"
proof -
  have spawn: "sv_ws (snd (sv_spawn_worker now p s)) = sv_ws s" for now p s
    by (simp add: sv_spawn_worker_def split: option.splits)
  have stale: "sv_ws (snd (sv_restart_worker r i s)) = sv_ws s" for r s
    by (simp add: sv_restart_worker_def spawn Let_def split: option.splits)
  have exit': "sv_ws (snd (sv_handle_worker_exit i s)) = sv_ws s" for s
    by (simp add: sv_handle_worker_exit_def spawn case_prod_unfold Let_def)
  have "sv_ws (sv_recover ret i s) = sv_ws s" for ret
    by (simp add: sv_recover_def sv_action_worker_restart_def sv_action_provider_reload_def sv_action_runtime_restart_def sv_action_degraded_mode_def
        sv_action_fatal_def sv_stop_all_def exit' spawn Let_def split: rec_step.splits)
  then show ?thesis by (simp add: sv_monitor_pass_def stale split: option.splits)
qed

lemma ipc_holding:
  assumes "holding m s" "JStr (fst (snd w)) \<noteq> wm_corr m"
  shows "holding m (sv_on_ipc_receive now w d s)"
proof -
  have b: "holding m (snd (sv_broadcast w [(''type'', a), (''payload'', b)] (sv_emit c t)))"
    if "sv_ws t = sv_ws s" for a b c t
    by (rule holding_broadcast) (use assms that in \<open>simp_all add: jget_def holding_def\<close>)
  show ?thesis using assms(1) b
    by (auto simp: sv_on_ipc_receive_def Let_def split: option.splits json.splits)
qed

lemma line_holding:
  assumes "holding m s" "keeps (wm_corr m) (Sv_line now w w' line parsed)"
  shows "holding m (sv_worker_line now w w' line parsed s)"
proof -
  have g: "holding m (snd (sv_broadcast w' (ev n @ [(''line'', l)]) (sv_emit c t)))" if "holding m t" for n l c t
    by (rule holding_broadcast) (use assms(2) that in \<open>simp_all add: jget_def ev_def holding_def\<close>)
  have same: "holding m (s\<lparr>sv_emitted := xs\<rparr>)" for xs by (rule holding_same [OF _ assms(1)]) simp
  show ?thesis
  proof (cases "\<exists>d. parsed = Some (JObj d)")
    case True
    then obtain d where d: "parsed = Some (JObj d)" by blast
    obtain r t where t: "sv_broadcast w d (s\<lparr>sv_emitted := sv_emitted s @ [JObj d]\<rparr>) = (r, t)" by (metis prod.exhaust)
    have "holding m (snd (sv_broadcast w d (s\<lparr>sv_emitted := sv_emitted s @ [JObj d]\<rparr>)))"
      by (rule holding_broadcast) (use assms(2) same in \<open>simp_all add: d\<close>)
    then have ht: "holding m t" by (simp add: t)
    then have "holding m (t\<lparr>sv_last_heartbeat := now\<rparr>)" by (rule holding_same [rotated]) simp
    with ht g [OF ht] show ?thesis by (cases r) (auto simp: sv_worker_line_def d t Let_def)
  next
    case False
    then show ?thesis using g [OF same] g [OF assms(1)]
      by (cases parsed) (auto simp: sv_worker_line_def Let_def split: json.splits)
  qed
qed

lemma frame_holding:
  assumes "holding m s" "keeps (wm_corr m) (Sv_frame v x w sh)"
  shows "holding m (sv_frame v x w sh s)"
proof (cases rule: frame_cases [of v x w sh s])
  case (other ws)
  have "\<not> acks v x (wm_corr m)" using assms(2) by (auto simp: acks_def jget_def)
  then show ?thesis
    using held_frame [of m "sv_ws s" v x] ws_wf_frame [of "sv_ws s" v x] assms(1) other by (simp add: holding_def)
next
  case (message d)
  have ids: "JStr (fst (snd w)) \<noteq> wm_corr m" "jget d ''correlationId'' JNull \<noteq> wm_corr m"
    using assms(2) message(1) by simp_all
  have r: "holding m (snd (sv_broadcast w (reply n d res) s))" for n res
    by (rule holding_broadcast [OF assms(1)]) (use ids(2) in \<open>simp add: reply_def jget_def Let_def\<close>)
  have h: "holding m (snd (sv_broadcast w
      [(''type'', JStr ''handshake_ack''), (''schemaVersion'', JNum 1), (''protocolVersion'', JStr ''1.0''),
       (''manifest'', JObj []), (''capabilities'', JObj [])] s))"
    by (rule holding_broadcast [OF assms(1)]) (use ids(1) in \<open>simp add: jget_def\<close>)
  have f: "holding m (sv_forward c p s)" for c p
    by (rule holding_same [OF _ assms(1)]) (simp add: sv_forward_def)
  have st: "holding m (sv_stop_all s)" by (rule holding_same [OF _ assms(1)]) (simp add: sv_stop_all_def)
  show ?thesis
    unfolding message(3) using r h f st assms(1)
    by (auto simp: sv_on_ws_receive_def sv_diagnostics_def Let_def split: sum.splits)
qed

lemma sv_exec_holding:
  assumes "holding m s" "wm_type m \<in> GUARANTEED" "keeps (wm_corr m) e"
  shows "holding m (sv_exec e s)"
proof (cases "sv_stop s")
  case False
  have step: "holding m (sv_step e s)"
  proof (cases e)
    case (Sv_monitor i)
    then show ?thesis using assms(1) by (simp add: holding_def monitor_ws)
  next
    case (Sv_ipc now w d)
    then show ?thesis using ipc_holding assms by simp
  next
    case (Sv_line now w w' line parsed)
    then show ?thesis using line_holding assms by simp
  next
    case (Sv_frame v x w sh)
    then show ?thesis using frame_holding assms by simp
  next
    case (Sv_retry now gone)
    then show ?thesis using assms ws_wf_tick held_tick by (simp add: holding_def)
  next
    case (Sv_batch now uuid gone)
    have "held m (ws_batch_tick gone now uuid (sv_ws s)) = held m (sv_ws s)"
      by (simp add: ws_batch_tick_def ws_flush_batch_def held_def)
    then show ?thesis using Sv_batch assms(1) ws_wf_batch_tick by (simp add: holding_def)
  next
    case (Sv_disconnect c)
    have "held m (snd (ws_disconnect c (sv_ws s))) = held m (sv_ws s)"
      by (simp add: ws_disconnect_def held_def)
    then show ?thesis using Sv_disconnect assms(1) ws_wf_disconnect by (simp add: holding_def)
  next
    case Sv_stdin_end
    then show ?thesis using assms(1) by (simp add: holding_def sv_stop_all_def)
  qed (use assms(3) in simp)
  then show ?thesis using False by (simp add: sv_exec_def)
qed (use assms(1) in \<open>simp add: sv_exec_def\<close>)

lemma sv_run_holding:
  "holding m s \<Longrightarrow> wm_type m \<in> GUARANTEED \<Longrightarrow> \<forall>e\<in>set es. keeps (wm_corr m) e \<Longrightarrow> holding m (fold sv_exec es s)"
  by (induction es arbitrary: s) (simp_all add: sv_exec_holding)

section \<open>Properties\<close>

text \<open>C17: the supervisor stops exactly when it is told to. From a running supervisor with at most two failures
  on the books, through any sequence of monitor passes, worker messages and lines, frames and
  connections of clients and timers, however the worker crashes and whatever the operating system
  answers: it has stopped if and only if standard input ended or a client sent a valid shutdown
  message, it is degraded only if it was before, and its failures never climb past the third step, so
  the last two steps of the documented ladder, degraded mode and fatal, are never taken.\<close>

theorem supervisor_stops_when_told:
  assumes "failures (sv_recovery_policy s) \<in> {0, 1, 2}" "\<not> sv_stop s" "s' = fold sv_exec es s"
  shows "(sv_stop s' \<longleftrightarrow> (\<exists>e\<in>set es. asks_stop e)) \<and> sv_degraded s' = sv_degraded s
    \<and> failures (sv_recovery_policy s') \<in> {0, 1, 2}"
proof -
  have "low_failures s" using assms(1) by (simp add: low_failures_def)
  from sv_exec_control [OF this, of es] show ?thesis using assms(2,3) by (simp add: low_failures_def)
qed

theorem supervisor_stops_when_told_witness:
  "\<not> sv_stop (fold sv_exec (map (Sv_monitor \<circ> crashing) [2..<40]) (running_supervisor (new_restart_policy 5 60)))"
proof -
  have "\<not> (\<exists>e\<in>set (map (Sv_monitor \<circ> crashing) [2..<40]). asks_stop e)" by simp
  with supervisor_stops_when_told [of "running_supervisor (new_restart_policy 5 60)", OF _ _ refl,
      of "map (Sv_monitor \<circ> crashing) [2..<40]"] show ?thesis
    by (simp add: running_supervisor_def new_supervisor_def new_sup_recovery_def del: upt_conv_Cons)
qed

text \<open>C15: a wake outlives everything but its delivery. A wake that the worker sends over IPC becomes a message
  that the server holds through any sequence of events of the process that follows: crashes and
  restarts of the worker, other messages, lines, commands, timers and clients that disconnect. Only an
  acknowledgement of it, another message under its correlation id or a client that connects can
  take it away.\<close>

theorem wake_outlives_worker:
  assumes "ws_wf (sv_ws s)" "ws_loop (sv_ws s)"
    and "m = wake_message w phrase raw smooth latency ts"
    and "s' = feed_supervisor t w w' (emit_wake Send_ok phrase raw smooth latency ts) s"
    and "\<forall>e\<in>set es. keeps (wm_corr m) e"
  shows "held m (sv_ws (fold sv_exec es s')) \<and> ws_wf (sv_ws (fold sv_exec es s'))"
proof -
  have "holding m s'"
    using ipc_wake_held [OF assms(2), of w phrase raw smooth latency ts t w'] ipc_wake_wf [OF assms(1)]
    by (simp add: holding_def assms(3,4))
  moreover have "wm_type m \<in> GUARANTEED" by (simp add: assms(3) wake_message_fields GUARANTEED_def)
  ultimately show ?thesis using sv_run_holding assms(5) by (auto simp: holding_def)
qed

theorem wake_outlives_worker_witness:
  "held (wake_message (0, ''w1'', 0, ''v'', \<lambda>x c. False) ''ava'' 1 1 1 0)
     (sv_ws (fold sv_exec (map (Sv_monitor \<circ> crashing) [2..<40] @ [Sv_retry 5 (\<lambda>x c. False), Sv_disconnect 7])
       (feed_supervisor 0 (0, ''w1'', 0, ''v'', \<lambda>x c. False) (0, ''w2'', 0, ''v'', \<lambda>x c. False)
          (emit_wake Send_ok ''ava'' 1 1 1 0)
          ((running_supervisor (new_restart_policy 5 60))\<lparr>sv_ws := new_ws_server\<lparr>ws_loop := True\<rparr>\<rparr>))))"
proof -
  have "ws_wf (new_ws_server\<lparr>ws_loop := True\<rparr>)" by (simp add: ws_wf_def new_ws_server_def)
  with wake_outlives_worker [of "(running_supervisor (new_restart_policy 5 60))\<lparr>sv_ws := new_ws_server\<lparr>ws_loop := True\<rparr>\<rparr>",
      OF _ _ refl refl, of "map (Sv_monitor \<circ> crashing) [2..<40] @ [Sv_retry 5 (\<lambda>x c. False), Sv_disconnect 7]"
      "(0, ''w1'', 0, ''v'', \<lambda>x c. False)" "''ava''" 1 1 1 0 0 "(0, ''w2'', 0, ''v'', \<lambda>x c. False)"]
  show ?thesis by (auto simp del: upt_conv_Cons)
qed

end
