(* ===== verification/Whole_Program.thy ===== *)
theory Whole_Program
  imports Worker_System Supervisor_System
begin

text \<open>
  The two processes together: the worker process of \<open>Worker_System\<close>, whose engine sends its wakes over the
  bridge (\<^verbatim>\<open>src/runtime/transport/stream/handler.py\<close>), and the supervisor process of
  \<open>Supervisor_System\<close>, which receives them. A step is a step of one of the processes; the message of a
  wake arrives with the step that sends it. The life of one worker is followed: a worker that the
  supervisor starts later begins a new life. A worker that the supervisor kills may go on here, so the
  runs include all those of the program and some more.
\<close>

section \<open>Steps\<close>

text \<open>What the engine sends for a wake event it emits: \<open>emit_wake\<close> is called with the members of the event.\<close>

definition send_wake :: "ipc_outcome \<Rightarrow> time_s \<Rightarrow> wake_event \<Rightarrow> bridge_output" where
  "send_wake oc ts wk = emit_wake oc (wk_phrase wk) (wk_raw wk) (wk_smooth wk) (wk_latency_ms wk) ts"

text \<open>The wake event of a step of the worker, if it has one.\<close>

definition sy_wake_of ::
  "(string \<Rightarrow> string \<Rightarrow> pyfloat) \<Rightarrow> (string \<Rightarrow> string \<Rightarrow> pyfloat) \<Rightarrow> 'o recognizer \<Rightarrow> 's vad_models
     \<Rightarrow> 'o sy_event \<Rightarrow> ('o, 's) system \<Rightarrow> wake_event option" where
  "sy_wake_of jw tsr rz m e s =
     (case e of
        Sy_work i h \<Rightarrow>
          if \<not> sy_alive s \<or> st_stop (we_streamer (sy_engine s)) then None
          else (case aw_iteration rz m i (engine_pipe (sy_engine s)) of
                  Some (Inr (Some d), p) \<Rightarrow>
                    fst (on_hypothesis jw tsr m (fst (sy_matcher s)) (snd (sy_matcher s)) (hyp_of d h)
                           (put_pipe p (sy_engine s)))
                | _ \<Rightarrow> None)
      | _ \<Rightarrow> None)"

text \<open>The messages of the wakes that went over IPC, and the number of those that did not: sent to standard
  output, or after the supervisor had stopped.\<close>

record ('o, 's) program =
  pg_worker :: "('o, 's) system"
  pg_super :: supervisor
  pg_over_ipc :: "ws_msg list"
  pg_lost :: nat

datatype 'o pg_event =
    Pg_worker "'o sy_event" ipc_outcome time_s time_s ws_input ws_input
  | Pg_super sv_event

fun pg_exec ::
  "(string \<Rightarrow> string \<Rightarrow> pyfloat) \<Rightarrow> (string \<Rightarrow> string \<Rightarrow> pyfloat) \<Rightarrow> 'o recognizer \<Rightarrow> 's vad_models
     \<Rightarrow> 'o pg_event \<Rightarrow> ('o, 's) program \<Rightarrow> ('o, 's) program" where
  "pg_exec jw tsr rz m (Pg_worker e oc ts t w w') p =
     (let wake = sy_wake_of jw tsr rz m e (pg_worker p);
          p = p\<lparr>pg_worker := sy_exec jw tsr rz m e (pg_worker p)\<rparr>
      in case wake of
           None \<Rightarrow> p
         | Some wk \<Rightarrow>
             if sv_stop (pg_super p) then p\<lparr>pg_lost := pg_lost p + 1\<rparr>
             else let p = p\<lparr>pg_super := feed_supervisor t w w' (send_wake oc ts wk) (pg_super p)\<rparr>
                  in if oc = Send_ok
                     then p\<lparr>pg_over_ipc := pg_over_ipc p @ [wake_message w (wk_phrase wk) (wk_raw wk) (wk_smooth wk) (wk_latency_ms wk) ts]\<rparr>
                     else p\<lparr>pg_lost := pg_lost p + 1\<rparr>)"
| "pg_exec jw tsr rz m (Pg_super e) p = p\<lparr>pg_super := sv_exec e (pg_super p)\<rparr>"

section \<open>Every wake is counted once\<close>

lemma callback_wakes:
  "length (sy_wakes (sy_callback jw tsr m h s)) = length (sy_wakes s)
     + (if fst (on_hypothesis jw tsr m (fst (sy_matcher s)) (snd (sy_matcher s)) h (sy_engine s)) = None then 0 else 1)"
  by (auto simp: sy_callback_def Let_def split: prod.splits option.splits)

lemma wake_of_counts:
  "length (sy_wakes (sy_exec jw tsr rz m e s)) =
     length (sy_wakes s) + (if sy_wake_of jw tsr rz m e s = None then 0 else 1)"
proof (cases e)
  case (Sy_work i h)
  show ?thesis
  proof (cases "aw_iteration rz m i (engine_pipe (sy_engine s))")
    case None
    then show ?thesis by (simp add: Sy_work sy_work_def sy_wake_of_def)
  next
    case (Some q)
    obtain x p where q: "q = (x, p)" by (cases q)
    show ?thesis
    proof (cases "\<exists>d. x = Inr (Some d)")
      case True
      then obtain d where d: "x = Inr (Some d)" by blast
      show ?thesis
        using callback_wakes [of jw tsr m "hyp_of d h" "s\<lparr>sy_engine := put_pipe p (sy_engine s)\<rparr>"] Some
        by (simp add: Sy_work sy_work_def sy_wake_of_def q d Let_def)
    next
      case False
      then show ?thesis using Some
        by (auto simp: Sy_work sy_work_def sy_wake_of_def q Let_def split: sum.splits option.splits)
    qed
  qed
qed (auto simp: sy_wake_of_def sy_audio_def sy_watch_def sy_profile_def case_prod_unfold Let_def split: sum.splits)

section \<open>What the supervisor's server keeps\<close>

text \<open>A property of the server that each of its operations keeps is kept by every step of the supervisor, and
  by a wake that arrives.\<close>

locale server_property =
  fixes P :: "ws_server \<Rightarrow> bool"
  assumes broadcast: "P ws \<Longrightarrow> P (snd (ws_broadcast i d ws))"
    and frame: "P ws \<Longrightarrow> P (snd (ws_frame v x ws))"
    and retry: "P ws \<Longrightarrow> P (ws_retry_tick now gone ws)"
    and batch: "P ws \<Longrightarrow> P (ws_batch_tick gone now uuid ws)"
    and connect: "P ws \<Longrightarrow> P (ws_connect gone c ws)"
    and disconnect: "P ws \<Longrightarrow> P (snd (ws_disconnect c ws))"
begin

lemma ipc: "P (sv_ws s) \<Longrightarrow> P (sv_ws (sv_on_ipc_receive now w d s))"
  by (auto simp: sv_on_ipc_receive_def Let_def broadcast split: option.splits json.splits)

lemma line: 
  assumes "P (sv_ws s)" shows "P (sv_ws (sv_worker_line now w w' line parsed s))"
proof (cases "\<exists>d. parsed = Some (JObj d)")
  case True
  then obtain d where d: "parsed = Some (JObj d)" by blast
  obtain r t where t: "sv_broadcast w d (s\<lparr>sv_emitted := sv_emitted s @ [JObj d]\<rparr>) = (r, t)" by (metis prod.exhaust)
  have "sv_ws t = snd (ws_broadcast w d (sv_ws s))"
    using sv_broadcast_frame(4) [of w d "s\<lparr>sv_emitted := sv_emitted s @ [JObj d]\<rparr>"] t by simp
  then have "P (sv_ws t)" using broadcast assms by simp
  then show ?thesis by (cases r) (auto simp: sv_worker_line_def d t Let_def broadcast)
next
  case False
  then show ?thesis using assms by (cases parsed) (auto simp: sv_worker_line_def Let_def broadcast split: json.splits)
qed

lemma receive: "P (sv_ws s) \<Longrightarrow> P (sv_ws (snd (sv_on_ws_receive w sh d s)))"
  by (auto simp: sv_on_ws_receive_def sv_diagnostics_def sv_forward_def sv_stop_all_def Let_def broadcast split: sum.splits)

lemma client_frame: "P (sv_ws s) \<Longrightarrow> P (sv_ws (sv_frame v x w sh s))"
  using frame [of "sv_ws s" v x] receive by (cases rule: frame_cases [of v x w sh s]) auto

lemma exec: "P (sv_ws s) \<Longrightarrow> P (sv_ws (sv_exec e s))"
  by (cases e) (auto simp: sv_exec_def monitor_ws ipc line client_frame retry batch connect disconnect sv_stop_all_def)

lemma feed: "P (sv_ws s) \<Longrightarrow> P (sv_ws (feed_supervisor t w w' out s))"
  by (simp add: feed_supervisor_def ipc line split: bridge_output.splits)

end

lemma ws_loop_ops [simp]:
  "ws_loop (snd (ws_broadcast i d s)) = ws_loop s" "ws_loop (snd (ws_frame v x s)) = ws_loop s"
  "ws_loop (ws_retry_tick now gone s) = ws_loop s" "ws_loop (ws_batch_tick gone now uuid s) = ws_loop s"
  "ws_loop (ws_connect gone c s) = ws_loop s" "ws_loop (snd (ws_disconnect c s)) = ws_loop s"
proof -
  have sends: "ws_loop (fold (ws_send gone) ms s) = ws_loop s" for gone ms s
    by (induction ms arbitrary: s) simp_all
  have hs: "ws_loop (ws_handle_send gone now m s) = ws_loop s" for gone now m s
    by (simp add: ws_handle_send_def)
  have ab: "ws_loop (ws_add_to_batch gone now uuid m s) = ws_loop s" for gone now uuid m s
    by (simp add: ws_add_to_batch_def ws_flush_batch_def Let_def)
  have off: "ws_loop (fold (\<lambda>m s. s\<lparr>ws_pending := AList.delete (wm_corr m) (ws_pending s),
      ws_offline := ws_offline s @ [m]\<rparr>) ms s) = ws_loop s" for ms s
    by (induction ms arbitrary: s) simp_all
  show "ws_loop (snd (ws_broadcast i d s)) = ws_loop s"
    by (auto simp: ws_broadcast_def Let_def hs ab split: prod.splits)
  show "ws_loop (snd (ws_frame v x s)) = ws_loop s"
    by (auto simp: ws_frame_def Let_def split: sum.splits json.splits)
  show "ws_loop (ws_batch_tick gone now uuid s) = ws_loop s"
    by (simp add: ws_batch_tick_def ws_flush_batch_def)
  show "ws_loop (ws_connect gone c s) = ws_loop s"
    by (simp add: ws_connect_def sends Let_def)
  show "ws_loop (snd (ws_disconnect c s)) = ws_loop s" by (simp add: ws_disconnect_def)
  show "ws_loop (ws_retry_tick now gone s) = ws_loop s"
    by (simp add: ws_retry_tick_def sends off Let_def)
qed

interpretation serving: server_property "\<lambda>ws. ws_wf ws \<and> ws_loop ws"
  by unfold_locales (auto intro: ava_inv)

section \<open>What becomes of a held message\<close>

text \<open>The message has been sent to a client; the server's record of what it sent only grows.\<close>

definition given :: "ws_msg \<Rightarrow> ws_server \<Rightarrow> bool" where
  "given m ws \<longleftrightarrow> m \<in> snd ` set (ws_sent ws)"

lemma sends_grow: "x \<in> set (ws_sent s) \<Longrightarrow> x \<in> set (ws_sent (fold (ws_send gone) ms s))"
  by (induction ms arbitrary: s) (simp_all add: ws_send_def Let_def)

lemma send_grows: "x \<in> set (ws_sent s) \<Longrightarrow> x \<in> set (ws_sent (ws_send gone m s))"
  by (simp add: ws_send_def Let_def)

interpretation sent: server_property "\<lambda>ws. x \<in> set (ws_sent ws)" for x
proof
  fix i d v y now gone uuid c and ws :: ws_server
  assume a: "x \<in> set (ws_sent ws)"
  have ab: "x \<in> set (ws_sent (ws_add_to_batch gone now uuid m ws))" for gone now uuid m
    using a by (auto simp: ws_add_to_batch_def ws_flush_batch_def Let_def intro: send_grows)
  have hs: "x \<in> set (ws_sent (ws_handle_send gone now m ws))" for gone now m
    using a by (auto simp: ws_handle_send_def intro: send_grows)
  show "x \<in> set (ws_sent (snd (ws_broadcast i d ws)))"
    using a ab hs by (auto simp: ws_broadcast_def Let_def split: prod.splits)
  show "x \<in> set (ws_sent (snd (ws_frame v y ws)))"
    using a by (auto simp: ws_frame_def Let_def split: sum.splits json.splits)
  show "x \<in> set (ws_sent (ws_retry_tick now gone ws))"
    using a by (auto simp: ws_retry_tick_eq Let_def intro: sends_grow)
  show "x \<in> set (ws_sent (ws_batch_tick gone now uuid ws))"
    using a by (auto simp: ws_batch_tick_def ws_flush_batch_def intro: send_grows)
  show "x \<in> set (ws_sent (ws_connect gone c ws))"
    using a by (auto simp: ws_connect_def Let_def intro: sends_grow)
  show "x \<in> set (ws_sent (snd (ws_disconnect c ws)))" using a by (simp add: ws_disconnect_def)
qed

lemma given_exec:
  assumes "given m (sv_ws s)" shows "given m (sv_ws (sv_exec e s))"
proof -
  obtain c where "(c, m) \<in> set (ws_sent (sv_ws s))" using assms by (auto simp: given_def)
  from sent.exec [OF this, of e] show ?thesis unfolding given_def by (metis image_eqI snd_conv)
qed

lemma given_feed:
  assumes "given m (sv_ws s)" shows "given m (sv_ws (feed_supervisor t w w' out s))"
proof -
  obtain c where "(c, m) \<in> set (ws_sent (sv_ws s))" using assms by (auto simp: given_def)
  from sent.feed [OF this, of t w w' out] show ?thesis unfolding given_def by (metis image_eqI snd_conv)
qed

text \<open>A client that connects, and stays while the queue is flushed, is sent all of it.\<close>

lemma flush_gives:
  "c \<in> set (ws_clients s) \<Longrightarrow> \<forall>x. \<not> gone x c \<Longrightarrow> m \<in> set ms \<Longrightarrow> given m (fold (ws_send gone) ms s)"
proof (induction ms arbitrary: s)
  case (Cons x ms)
  have c: "c \<in> set (ws_clients (ws_send gone x s))" "(c, x) \<in> set (ws_sent (ws_send gone x s))"
    using Cons.prems(1,2) by (auto simp: ws_send_def Let_def)
  show ?case
  proof (cases "m = x")
    case True
    then show ?thesis using sends_grow [OF c(2), of gone ms] by (force simp: given_def)
  next
    case False
    then show ?thesis using Cons.IH [OF c(1)] Cons.prems by simp
  qed
qed simp

lemma connect_reaches:
  assumes "held m s" "\<forall>x. \<not> gone x c"
  shows "held m (ws_connect gone c s) \<or> given m (ws_connect gone c s)"
proof (cases "m \<in> set (ws_offline s)")
  case True
  have "given m (fold (ws_send gone) (ws_offline s) (s\<lparr>ws_clients := List.insert c (ws_clients s)\<rparr>))"
    by (rule flush_gives [where c = c]) (use assms(2) True in simp_all)
  then show ?thesis using True by (auto simp: ws_connect_def given_def Let_def)
next
  case False
  then show ?thesis using assms(1) by (auto simp: ws_connect_def held_def Let_def)
qed

text \<open>The identifiers an event acknowledges, and the events that take the message \<open>k\<close> away in no other way.\<close>

fun sv_acks :: "sv_event \<Rightarrow> json set" where
  "sv_acks (Sv_frame v x w sh) = {k. acks v x k}"
| "sv_acks _ = {}"

fun tame :: "json \<Rightarrow> sv_event \<Rightarrow> bool" where
  "tame k (Sv_connect gone c) \<longleftrightarrow> (\<forall>x. \<not> gone x c)"
| "tame k (Sv_frame v x w sh) \<longleftrightarrow> acks v x k \<or> keeps k (Sv_frame v x w sh)"
| "tame k e \<longleftrightarrow> keeps k e"

definition settled :: "json set \<Rightarrow> ws_msg \<Rightarrow> ws_server \<Rightarrow> bool" where
  "settled K m ws \<longleftrightarrow> held m ws \<or> given m ws \<or> wm_corr m \<in> K"

lemma sv_exec_settled:
  assumes "settled K m (sv_ws s)" "ws_wf (sv_ws s)" "wm_type m \<in> GUARANTEED" "tame (wm_corr m) e"
  shows "settled (K \<union> sv_acks e) m (sv_ws (sv_exec e s))"
proof (cases "held m (sv_ws s)")
  case False
  then show ?thesis using assms(1) given_exec by (auto simp: settled_def)
next
  case True
  show ?thesis
  proof (cases "keeps (wm_corr m) e")
    case True
    then show ?thesis
      using sv_exec_holding [of m s e] \<open>held m (sv_ws s)\<close> assms(2,3) by (simp add: settled_def holding_def)
  next
    case False
    have c: ?thesis if "e = Sv_connect gone c" for gone c
      using connect_reaches [OF True, of gone c] assms(4) True
      by (auto simp: that sv_exec_def settled_def)
    show ?thesis using False assms(4) c by (cases e) (auto simp: settled_def)
  qed
qed

section \<open>Every wake is accounted for\<close>

fun pg_ids :: "'o pg_event \<Rightarrow> json set" where
  "pg_ids (Pg_worker e oc ts t w w') = {JStr (fst (snd w))}"
| "pg_ids (Pg_super e) = {}"

fun pg_tame :: "json \<Rightarrow> 'o pg_event \<Rightarrow> bool" where
  "pg_tame k (Pg_worker e oc ts t w w') \<longleftrightarrow> JStr (fst (snd w)) \<noteq> k \<and> JStr (fst (snd w')) \<noteq> k"
| "pg_tame k (Pg_super e) \<longleftrightarrow> tame k e"

fun pg_acks :: "'o pg_event \<Rightarrow> json set" where
  "pg_acks (Pg_super e) = sv_acks e"
| "pg_acks _ = {}"

text \<open>Identifiers are fresh, and a client that connects stays while the offline queue is flushed.\<close>

abbreviation undisturbed :: "'o pg_event list \<Rightarrow> bool" where
  "undisturbed \<equiv> sorted_wrt (\<lambda>a b. \<forall>k\<in>pg_ids a. pg_tame k b)"

text \<open>IPC delivers, and nobody asks the supervisor to stop.\<close>

fun pg_healthy :: "'o pg_event \<Rightarrow> bool" where
  "pg_healthy (Pg_worker e oc ts t w w') \<longleftrightarrow> oc = Send_ok"
| "pg_healthy (Pg_super e) \<longleftrightarrow> \<not> asks_stop e"

definition pg_inv :: "json set \<Rightarrow> ('o, 's) program \<Rightarrow> bool" where
  "pg_inv K p \<longleftrightarrow> sy_inv (pg_worker p) \<and> ws_wf (sv_ws (pg_super p)) \<and> ws_loop (sv_ws (pg_super p))
     \<and> length (sy_wakes (pg_worker p)) = length (pg_over_ipc p) + pg_lost p
     \<and> (\<forall>m\<in>set (pg_over_ipc p). wm_type m = JStr ''wake'' \<and> settled K m (sv_ws (pg_super p)))"

lemma wake_message_corr: "wm_corr (wake_message w phrase raw smooth latency ts) = JStr (fst (snd w))"
  by (simp add: wake_message_def ws_envelope_def jget_def)

lemma feed_holding:
  assumes "holding m s" "JStr (fst (snd w)) \<noteq> wm_corr m" "JStr (fst (snd w')) \<noteq> wm_corr m"
  shows "holding m (feed_supervisor t w w' (send_wake oc ts wk) s)"
proof (cases "oc = Send_ok")
  case True
  then show ?thesis using ipc_holding assms by (simp add: send_wake_def feed_supervisor_def emit_wake_ipc)
next
  case False
  then have "keeps (wm_corr m) (Sv_line t w w' [] (Some (JObj d)))"
    if "send_wake oc ts wk = Via_stdout d" for d
    using assms that by (auto simp: send_wake_def emit_wake_stdout wake_payload_def jget_def)
  then show ?thesis using False line_holding [OF assms(1)]
    by (simp add: send_wake_def feed_supervisor_def emit_wake_stdout)
qed

lemma feed_settled:
  assumes "settled K m (sv_ws s)" "ws_wf (sv_ws s)" "JStr (fst (snd w)) \<noteq> wm_corr m" "JStr (fst (snd w')) \<noteq> wm_corr m"
  shows "settled K m (sv_ws (feed_supervisor t w w' (send_wake oc ts wk) s))"
  using assms feed_holding [of m s w w' t oc ts wk] given_feed [of m s t w w' "send_wake oc ts wk"]
  by (auto simp: settled_def holding_def)

lemma pg_exec_ids:
  "m \<in> set (pg_over_ipc (pg_exec jw tsr rz m' e p)) \<Longrightarrow> m \<in> set (pg_over_ipc p) \<or> wm_corr m \<in> pg_ids e"
  by (cases e) (auto simp: Let_def wake_message_corr split: option.splits if_splits)

lemma pg_exec_inv:
  assumes "ratio_ok tsr" "pg_inv K p" "\<forall>x\<in>set (pg_over_ipc p). pg_tame (wm_corr x) e"
  shows "pg_inv (K \<union> pg_acks e) (pg_exec jw tsr rz m e p)"
proof (cases e)
  case (Pg_super x)
  have "settled (K \<union> sv_acks x) y (sv_ws (sv_exec x (pg_super p)))" if "y \<in> set (pg_over_ipc p)" for y
    by (rule sv_exec_settled) (use assms(2,3) that Pg_super in \<open>auto simp: pg_inv_def GUARANTEED_def\<close>)
  then show ?thesis using assms(2) serving.exec [of "pg_super p" x]
    by (simp add: Pg_super pg_inv_def)
next
  case (Pg_worker x oc ts t w w')
  let ?wake = "sy_wake_of jw tsr rz m x (pg_worker p)"
  have inv: "sy_inv (sy_exec jw tsr rz m x (pg_worker p))"
    by (rule sy_exec_inv [OF assms(1)]) (use assms(2) in \<open>simp add: pg_inv_def\<close>)
  note count = wake_of_counts [of jw tsr rz m x "pg_worker p"]
  show ?thesis
  proof (cases ?wake)
    case None
    then show ?thesis using assms(2) inv count by (simp add: Pg_worker pg_inv_def)
  next
    case (Some wk)
    have old: "settled K y (sv_ws (feed_supervisor t w w' (send_wake oc ts wk) (pg_super p)))"
      if "y \<in> set (pg_over_ipc p)" for y
      by (rule feed_settled) (use assms(2,3) that Pg_worker in \<open>auto simp: pg_inv_def\<close>)
    have new: "settled K (wake_message w (wk_phrase wk) (wk_raw wk) (wk_smooth wk) (wk_latency_ms wk) ts)
        (sv_ws (feed_supervisor t w w' (send_wake Send_ok ts wk) (pg_super p)))"
      using ipc_wake_held assms(2) by (simp add: send_wake_def pg_inv_def settled_def)
    show ?thesis using assms(2) inv count Some old new serving.feed [of "pg_super p" t w w' "send_wake oc ts wk"]
      by (auto simp: Pg_worker pg_inv_def wake_message_fields Let_def)
  qed
qed

lemma pg_run_inv:
  assumes "ratio_ok tsr" "pg_inv K p" "undisturbed es" "\<forall>x\<in>set (pg_over_ipc p). \<forall>e\<in>set es. pg_tame (wm_corr x) e"
  shows "pg_inv (K \<union> \<Union> (pg_acks ` set es)) (fold (pg_exec jw tsr rz m) es p)"
  using assms(2-)
proof (induction es arbitrary: p K)
  case (Cons e es)
  have inv: "pg_inv (K \<union> pg_acks e) (pg_exec jw tsr rz m e p)"
    by (rule pg_exec_inv [OF assms(1)]) (use Cons.prems in simp_all)
  have tame: "\<forall>x\<in>set (pg_over_ipc (pg_exec jw tsr rz m e p)). \<forall>e'\<in>set es. pg_tame (wm_corr x) e'"
    using Cons.prems pg_exec_ids by fastforce
  have "undisturbed es" using Cons.prems(2) by simp
  from Cons.IH [OF inv this tame] show ?case by (simp add: Un_assoc)
qed simp

lemma feed_control: "same_control s (feed_supervisor t w w' out s)"
  by (simp add: feed_supervisor_def ipc_control line_control split: bridge_output.splits)

lemma pg_run_healthy:
  assumes "low_failures (pg_super p)" "\<not> sv_stop (pg_super p)" "\<forall>e\<in>set es. pg_healthy e"
  shows "pg_lost (fold (pg_exec jw tsr rz m) es p) = pg_lost p"
  using assms
proof (induction es arbitrary: p)
  case (Cons e es)
  let ?q = "pg_exec jw tsr rz m e p"
  have "low_failures (pg_super ?q) \<and> \<not> sv_stop (pg_super ?q) \<and> pg_lost ?q = pg_lost p"
  proof (cases e)
    case (Pg_super x)
    then show ?thesis using sv_step_control [OF Cons.prems(1,2), of x] Cons.prems by (simp add: sv_exec_def)
  next
    case (Pg_worker x oc ts t w w')
    have "low_failures (feed_supervisor t w w' out (pg_super p)) \<and> \<not> sv_stop (feed_supervisor t w w' out (pg_super p))" for out
      using feed_control [of "pg_super p" t w w' out] Cons.prems(1,2) by (simp add: same_control_def low_failures_def)
    then show ?thesis using Cons.prems by (simp add: Pg_worker Let_def split: option.splits)
  qed
  then show ?case using Cons by simp
qed simp

section \<open>Property\<close>


text \<open>The events of the worker of \<open>Worker_System\<close>, one message identifier each, between events of the supervisor.\<close>

definition toy_program_run :: "(nat \<times> string) pg_event list" where
  "toy_program_run =
     (let w = (\<lambda>id. (0, id, 0, ''v'', \<lambda>x c. False)) in
      [Pg_worker (Sy_audio [1/100]) Send_ok 0 0 (w ''a'') (w ''z''), Pg_super (Sv_monitor (crashing 2)),
       Pg_worker (Sy_work toy_input demo_hyp) Send_ok 0 0 (w ''b'') (w ''z''), Pg_super (Sv_retry 5 (\<lambda>x c. False)),
       Pg_worker (Sy_work toy_input demo_hyp) Send_ok 0 0 (w ''c'') (w ''z''), Pg_super (Sv_connect (\<lambda>x c. False) 7)])"


end
