(* ===== verification/Restart_Stats.thy ===== *)
theory Restart_Stats
  imports Restart_Manager Json_Text
begin

text \<open>
  What the restart manager reports (\<open>get_stats\<close> in \<^verbatim>\<open>src/runtime/hardening/restart_manager.py\<close>): the restart
  count of every subsystem and the text of its policy (\<open>__repr__\<close> in \<^verbatim>\<open>recovery_policy.py\<close>).
\<close>

definition rp_repr :: "recovery_policy \<Rightarrow> string" where
  "rp_repr p =
     ''RecoveryPolicy(retries='' @ nat_text (rp_retries p) @ ''/'' @ nat_text (rp_max_retries p)
     @ '' at_max='' @ nat_text (rp_at_max p) @ ''/'' @ nat_text (rp_threshold p)
     @ '' total_failures='' @ nat_text (rp_total p) @ '')''"

definition rm_get_stats :: "restart_manager \<Rightarrow> (string, (string, json) dict) dict" where
  "rm_get_stats m =
     map (\<lambda>(name, rec).
            (name, [(''restart_count'', JNum (of_nat (rr_restart_count rec))), (''policy'', JStr (rp_repr (rr_policy rec)))]))
       (rm_records m)"

text \<open>The statistics have one entry for every managed subsystem, with the count the manager gives for it.\<close>

lemma stats_complete:
  assumes "rm_wf m" "n \<in> set MANAGED_SUBSYSTEMS"
  shows "\<exists>d. map_of (rm_get_stats m) n = Some d \<and> map_of d ''restart_count'' = Some (JNum (of_nat (rm_restart_count n m)))"
proof -
  have "n \<in> dom (map_of (rm_records m))" using assms by (simp add: rm_wf_def)
  then obtain r where "map_of (rm_records m) n = Some r" by blast
  then show ?thesis by (simp add: rm_get_stats_def rm_restart_count_def map_of_map)
qed

lemma stats_policy_example:
  "rp_repr (new_policy 5 100 8000 3) = ''RecoveryPolicy(retries=0/5 at_max=0/3 total_failures=0)''"
  by code_simp

end
