(* ===== verification/Candidate_Copies.thy ===== *)
theory Candidate_Copies
  imports Orchestrator
begin

text \<open>
  The class \<open>CandidateSession\<close> is written out three times: in \<^verbatim>\<open>src/runtime/session/context.py\<close> (modelled in
  \<open>Telemetry_Collector\<close>), in \<^verbatim>\<open>src/runtime/telemetry/collector.py\<close> and in
  \<^verbatim>\<open>src/runtime/kernel/orchestrator.py\<close>. The collector keeps objects of its own class and the engine objects
  of its own; the model of both uses the class of the session context. Here the two copies are
  translated, with the state as the string it is, and shown to behave like it.
\<close>

section \<open>What the copies share\<close>

definition state_text :: "candidate_state \<Rightarrow> string" where
  "state_text s =
     (case s of
        CANDIDATE_STARTED \<Rightarrow> ''CANDIDATE_STARTED'' | CANDIDATE_UPDATED \<Rightarrow> ''CANDIDATE_UPDATED''
      | CANDIDATE_CONFIRMED \<Rightarrow> ''CANDIDATE_CONFIRMED'' | CANDIDATE_DROPPED \<Rightarrow> ''CANDIDATE_DROPPED'')"

datatype candidate_call = Call_update time_s string pyfloat pyfloat nat | Call_confirm | Call_drop

fun cs_call :: "candidate_call \<Rightarrow> candidate_session \<Rightarrow> candidate_session" where
  "cs_call (Call_update now txt r s f) c = cs_update now txt r s f c"
| "cs_call Call_confirm c = cs_confirm c"
| "cs_call Call_drop c = cs_drop c"

text \<open>A class whose objects are images of sessions, method by method.\<close>

locale candidate_class =
  fixes copy :: "candidate_session \<Rightarrow> 'c"
    and update :: "time_s \<Rightarrow> string \<Rightarrow> pyfloat \<Rightarrow> pyfloat \<Rightarrow> nat \<Rightarrow> 'c \<Rightarrow> 'c"
    and confirm :: "'c \<Rightarrow> 'c" and drop_it :: "'c \<Rightarrow> 'c"
    and duration :: "'c \<Rightarrow> pyfloat" and state :: "'c \<Rightarrow> string"
  assumes copy_update: "update now txt r s f (copy c) = copy (cs_update now txt r s f c)"
    and copy_confirm: "confirm (copy c) = copy (cs_confirm c)"
    and copy_drop: "drop_it (copy c) = copy (cs_drop c)"
    and copy_duration: "duration (copy c) = cs_duration_ms c"
    and copy_state: "state (copy c) = state_text (cs_state c)"
begin

fun call :: "candidate_call \<Rightarrow> 'c \<Rightarrow> 'c" where
  "call (Call_update now txt r s f) c = update now txt r s f c"
| "call Call_confirm c = confirm c"
| "call Call_drop c = drop_it c"

lemma call_copy: "call a (copy c) = copy (cs_call a c)"
  by (cases a) (simp_all add: copy_update copy_confirm copy_drop)

lemma calls_copy: "fold call as (copy c) = copy (fold cs_call as c)"
  by (induction as arbitrary: c) (simp_all add: call_copy)

lemma calls_seen:
  "duration (fold call as (copy c)) = cs_duration_ms (fold cs_call as c)
   \<and> state (fold call as (copy c)) = state_text (cs_state (fold cs_call as c))"
  by (simp add: calls_copy copy_duration copy_state)

end

section \<open>The class of \<^verbatim>\<open>src/runtime/telemetry/collector.py\<close>\<close>

record collector_candidate =
  tk_phrase :: string
  tk_variant :: string
  tk_canonical :: string
  tk_start_time :: time_s
  tk_last_update :: time_s
  tk_peak_raw :: pyfloat
  tk_peak_smooth :: pyfloat
  tk_transcript_evolution :: "string list"
  tk_stabilization_frames :: nat
  tk_state :: string

definition tk_update :: "time_s \<Rightarrow> string \<Rightarrow> pyfloat \<Rightarrow> pyfloat \<Rightarrow> nat \<Rightarrow> collector_candidate \<Rightarrow> collector_candidate" where
  "tk_update now txt raw_conf smooth_conf frames c =
     c\<lparr>tk_last_update := now,
       tk_transcript_evolution := tk_transcript_evolution c @ [txt],
       tk_peak_raw := max (tk_peak_raw c) raw_conf,
       tk_peak_smooth := max (tk_peak_smooth c) smooth_conf,
       tk_stabilization_frames := max (tk_stabilization_frames c) frames,
       tk_state := ''CANDIDATE_UPDATED''\<rparr>"

definition tk_confirm :: "collector_candidate \<Rightarrow> collector_candidate" where
  "tk_confirm c = c\<lparr>tk_state := ''CANDIDATE_CONFIRMED''\<rparr>"

definition tk_drop :: "collector_candidate \<Rightarrow> collector_candidate" where
  "tk_drop c = c\<lparr>tk_state := ''CANDIDATE_DROPPED''\<rparr>"

definition tk_duration_ms :: "collector_candidate \<Rightarrow> pyfloat" where
  "tk_duration_ms c = (tk_last_update c - tk_start_time c) * 1000"

text \<open>The same session as an object of this class.\<close>

definition tk_of :: "candidate_session \<Rightarrow> collector_candidate" where
  "tk_of c =
     \<lparr>tk_phrase = cs_phrase c, tk_variant = cs_variant c, tk_canonical = cs_canonical c,
      tk_start_time = cs_start_time c, tk_last_update = cs_last_update c, tk_peak_raw = cs_peak_raw c,
      tk_peak_smooth = cs_peak_smooth c, tk_transcript_evolution = cs_transcript_evolution c,
      tk_stabilization_frames = cs_stabilization_frames c, tk_state = state_text (cs_state c)\<rparr>"

interpretation tk: candidate_class tk_of tk_update tk_confirm tk_drop tk_duration_ms tk_state
  by unfold_locales
    (simp_all add: tk_of_def tk_update_def tk_confirm_def tk_drop_def tk_duration_ms_def
      cs_update_def cs_confirm_def cs_drop_def cs_duration_ms_def state_text_def)

section \<open>The class of \<^verbatim>\<open>src/runtime/kernel/orchestrator.py\<close>\<close>

record engine_candidate =
  ok_phrase :: string
  ok_variant :: string
  ok_canonical :: string
  ok_start_time :: time_s
  ok_last_update :: time_s
  ok_peak_raw :: pyfloat
  ok_peak_smooth :: pyfloat
  ok_transcript_evolution :: "string list"
  ok_stabilization_frames :: nat
  ok_state :: string

definition ok_update :: "time_s \<Rightarrow> string \<Rightarrow> pyfloat \<Rightarrow> pyfloat \<Rightarrow> nat \<Rightarrow> engine_candidate \<Rightarrow> engine_candidate" where
  "ok_update now txt raw_conf smooth_conf frames c =
     c\<lparr>ok_last_update := now,
       ok_transcript_evolution := ok_transcript_evolution c @ [txt],
       ok_peak_raw := max (ok_peak_raw c) raw_conf,
       ok_peak_smooth := max (ok_peak_smooth c) smooth_conf,
       ok_stabilization_frames := max (ok_stabilization_frames c) frames,
       ok_state := ''CANDIDATE_UPDATED''\<rparr>"

definition ok_confirm :: "engine_candidate \<Rightarrow> engine_candidate" where
  "ok_confirm c = c\<lparr>ok_state := ''CANDIDATE_CONFIRMED''\<rparr>"

definition ok_drop :: "engine_candidate \<Rightarrow> engine_candidate" where
  "ok_drop c = c\<lparr>ok_state := ''CANDIDATE_DROPPED''\<rparr>"

definition ok_duration_ms :: "engine_candidate \<Rightarrow> pyfloat" where
  "ok_duration_ms c = (ok_last_update c - ok_start_time c) * 1000"

text \<open>The same session as an object of this class.\<close>

definition ok_of :: "candidate_session \<Rightarrow> engine_candidate" where
  "ok_of c =
     \<lparr>ok_phrase = cs_phrase c, ok_variant = cs_variant c, ok_canonical = cs_canonical c,
      ok_start_time = cs_start_time c, ok_last_update = cs_last_update c, ok_peak_raw = cs_peak_raw c,
      ok_peak_smooth = cs_peak_smooth c, ok_transcript_evolution = cs_transcript_evolution c,
      ok_stabilization_frames = cs_stabilization_frames c, ok_state = state_text (cs_state c)\<rparr>"

interpretation ok: candidate_class ok_of ok_update ok_confirm ok_drop ok_duration_ms ok_state
  by unfold_locales
    (simp_all add: ok_of_def ok_update_def ok_confirm_def ok_drop_def ok_duration_ms_def
      cs_update_def cs_confirm_def cs_drop_def cs_duration_ms_def state_text_def)

section \<open>The copies agree\<close>

text \<open>After the same calls, the session of the engine and the one of the collector have the same duration and
  the same state, those of the session that the model keeps.\<close>

theorem candidate_copies_agree:
  "tk_duration_ms (fold tk.call as (tk_of c)) = ok_duration_ms (fold ok.call as (ok_of c))
   \<and> tk_state (fold tk.call as (tk_of c)) = ok_state (fold ok.call as (ok_of c))
   \<and> fold tk.call as (tk_of c) = tk_of (fold cs_call as c) \<and> fold ok.call as (ok_of c) = ok_of (fold cs_call as c)"
  by (simp add: tk.calls_copy ok.calls_copy tk.copy_duration ok.copy_duration tk.copy_state ok.copy_state)

end
