(* ===== verification/WS_Interleaving.thy ===== *)
theory WS_Interleaving
  imports WS_Server
begin

text \<open>
  The retry timer of \<^verbatim>\<open>src/runtime/transport/websocket_server.py\<close> at the granularity of its \<open>await\<close>s.
  \<open>WS_Server\<close> takes a round of the timer as one step; here \<open>_send_to_clients\<close> is suspended after
  each client, and any other callback of the event loop may run in between. \<open>_send_to_clients\<close> iterates over
  the live set of clients, and Python's set iterator raises \<open>RuntimeError\<close> when the size of the set
  differs from what it was when the iteration began. Connections that come and go so that the size is
  the same when the iteration goes on are outside the model: it goes on with the clients it began with.
\<close>

section \<open>Sending, client by client\<close>

record send_task =
  sd_msg :: ws_msg
  sd_todo :: "nat list"
  sd_size :: nat
  sd_gone :: "nat list"

definition send_begin :: "ws_msg \<Rightarrow> ws_server \<Rightarrow> send_task option" where
  "send_begin m s =
     (if ws_clients s = [] then None
      else Some \<lparr>sd_msg = m, sd_todo = ws_clients s, sd_size = length (ws_clients s), sd_gone = []\<rparr>)"

text \<open>The iterator is asked for the next client; \<open>shut\<close>: sending to it raises \<open>ConnectionClosed\<close>. After the
  last one the closed connections are discarded.\<close>

definition send_next :: "bool \<Rightarrow> send_task \<Rightarrow> ws_server \<Rightarrow> (py_exc + send_task option) \<times> ws_server" where
  "send_next shut t s =
     (if length (ws_clients s) \<noteq> sd_size t then (Inl (RuntimeError ''Set changed size during iteration''), s)
      else case sd_todo t of
             [] \<Rightarrow> (Inr None, s\<lparr>ws_clients := filter (\<lambda>c. c \<notin> set (sd_gone t)) (ws_clients s)\<rparr>)
           | c # cs \<Rightarrow>
               if shut then (Inr (Some (t\<lparr>sd_todo := cs, sd_gone := sd_gone t @ [c]\<rparr>)), s)
               else (Inr (Some (t\<lparr>sd_todo := cs\<rparr>)), s\<lparr>ws_sent := ws_sent s @ [(c, sd_msg t)]\<rparr>))"

section \<open>The timer\<close>

text \<open>The task of \<open>_retry_loop\<close>: the messages of this round it has not begun to send, and the send it is
  suspended in. An exception ends it: nothing in the loop catches one.\<close>

record retry_timer =
  il_server :: ws_server
  il_queue :: "ws_msg list"
  il_send :: "send_task option"
  il_alive :: bool

definition il_idle :: "ws_server \<Rightarrow> retry_timer" where
  "il_idle s = \<lparr>il_server = s, il_queue = [], il_send = None, il_alive = True\<rparr>"

definition il_tick :: "time_s \<Rightarrow> retry_timer \<Rightarrow> retry_timer" where
  "il_tick now x =
     (if \<not> il_alive x \<or> il_queue x \<noteq> [] \<or> il_send x \<noteq> None then x
      else let s = il_server x;
               items = map (\<lambda>(k, p). (k, retry_item now p)) (ws_pending s);
               to_retry = map (\<lambda>(k, v, p). pa_msg p) (filter (\<lambda>(k, v, p). v = Resend) items)
           in if to_retry = [] \<or> ws_clients s = [] then x\<lparr>il_server := ws_retry_tick now (\<lambda>m c. False) s\<rparr>
              else x\<lparr>il_server := s\<lparr>ws_pending := map (\<lambda>(k, v, p). (k, p)) (filter (\<lambda>(k, v, p). v \<noteq> Drop) items)\<rparr>,
                     il_queue := to_retry\<rparr>)"

definition il_resume :: "bool \<Rightarrow> retry_timer \<Rightarrow> retry_timer" where
  "il_resume shut x =
     (if \<not> il_alive x then x
      else case il_send x of
             None \<Rightarrow>
               (case il_queue x of
                  [] \<Rightarrow> x
                | m # ms \<Rightarrow> x\<lparr>il_queue := ms, il_send := send_begin m (il_server x)\<rparr>)
           | Some t \<Rightarrow>
               (case send_next shut t (il_server x) of
                  (Inl e, s) \<Rightarrow> x\<lparr>il_server := s, il_send := None, il_alive := False\<rparr>
                | (Inr t', s) \<Rightarrow> x\<lparr>il_server := s, il_send := t'\<rparr>))"

text \<open>The other callbacks are the events of \<open>WS_Server\<close> but its atomic retry.\<close>

datatype il_event = Il_tick time_s | Il_resume bool | Il_other ws_event

fun il_exec :: "il_event \<Rightarrow> retry_timer \<Rightarrow> retry_timer" where
  "il_exec (Il_tick now) x = il_tick now x"
| "il_exec (Il_resume shut) x = il_resume shut x"
| "il_exec (Il_other e) x =
     (case e of E_retry now gone \<Rightarrow> x | _ \<Rightarrow> x\<lparr>il_server := ws_exec e (il_server x)\<rparr>)"

section \<open>A round that nothing interrupts\<close>

text \<open>The resumptions of one send, and of the sends of a list of messages.\<close>

definition resume_send :: "gone_conns \<Rightarrow> ws_msg \<Rightarrow> ws_server \<Rightarrow> il_event list" where
  "resume_send gone m s =
     Il_resume False # (if ws_clients s = [] then [] else map (\<lambda>c. Il_resume (gone m c)) (ws_clients s) @ [Il_resume False])"

fun resume_sends :: "gone_conns \<Rightarrow> ws_msg list \<Rightarrow> ws_server \<Rightarrow> il_event list" where
  "resume_sends gone [] s = []"
| "resume_sends gone (m # ms) s = resume_send gone m s @ resume_sends gone ms (ws_send gone m s)"

lemma send_steps:
  assumes "il_alive x" "il_send x = Some t" "sd_size t = length (ws_clients (il_server x))"
  shows "fold il_exec (map (\<lambda>c. Il_resume (gone (sd_msg t) c)) (sd_todo t)) x =
    x\<lparr>il_server := (il_server x)\<lparr>ws_sent := ws_sent (il_server x)
          @ map (\<lambda>c. (c, sd_msg t)) (filter (\<lambda>c. \<not> gone (sd_msg t) c) (sd_todo t))\<rparr>,
      il_send := Some (t\<lparr>sd_todo := [], sd_gone := sd_gone t @ filter (gone (sd_msg t)) (sd_todo t)\<rparr>)\<rparr>"
  using assms
proof (induction "sd_todo t" arbitrary: t x)
  case Nil
  then show ?case by (cases x; cases t) simp
next
  case (Cons c cs)
  let ?x = "il_resume (gone (sd_msg t) c) x"
  let ?t = "t\<lparr>sd_todo := cs, sd_gone := sd_gone t @ (if gone (sd_msg t) c then [c] else [])\<rparr>"
  have x: "?x = x\<lparr>il_server := (il_server x)\<lparr>ws_sent := ws_sent (il_server x)
        @ (if gone (sd_msg t) c then [] else [(c, sd_msg t)])\<rparr>, il_send := Some ?t\<rparr>"
    using Cons.prems Cons.hyps(2) [symmetric] by (cases x; cases t) (simp add: il_resume_def send_next_def)
  have ok: "il_alive ?x" "il_send ?x = Some ?t" "sd_size ?t = length (ws_clients (il_server ?x))"
    unfolding x using Cons.prems by simp_all
  have start: "fold il_exec (map (\<lambda>c. Il_resume (gone (sd_msg t) c)) (sd_todo t)) x =
      fold il_exec (map (\<lambda>c. Il_resume (gone (sd_msg ?t) c)) (sd_todo ?t)) ?x"
    by (simp add: Cons.hyps(2) [symmetric])
  have ih: "fold il_exec (map (\<lambda>c. Il_resume (gone (sd_msg ?t) c)) (sd_todo ?t)) ?x =
    ?x\<lparr>il_server := (il_server ?x)\<lparr>ws_sent := ws_sent (il_server ?x)
          @ map (\<lambda>c. (c, sd_msg ?t)) (filter (\<lambda>c. \<not> gone (sd_msg ?t) c) (sd_todo ?t))\<rparr>,
      il_send := Some (?t\<lparr>sd_todo := [], sd_gone := sd_gone ?t @ filter (gone (sd_msg ?t)) (sd_todo ?t)\<rparr>)\<rparr>"
    by (rule Cons.hyps(1) [OF _ ok]) simp
  show ?case unfolding start ih by (simp add: x Cons.hyps(2) [symmetric])
qed

lemma resume_send_atomic:
  assumes "il_alive x" "il_send x = None" "il_queue x = m # ms"
  shows "fold il_exec (resume_send gone m (il_server x)) x =
    x\<lparr>il_server := ws_send gone m (il_server x), il_queue := ms\<rparr>"
proof (cases "ws_clients (il_server x) = []")
  case True
  then show ?thesis using assms by (cases x) (simp add: resume_send_def il_resume_def send_begin_def ws_send_def)
next
  case False
  let ?t = "\<lparr>sd_msg = m, sd_todo = ws_clients (il_server x), sd_size = length (ws_clients (il_server x)), sd_gone = []\<rparr>"
  have b: "il_exec (Il_resume False) x = x\<lparr>il_queue := ms, il_send := Some ?t\<rparr>"
    using assms False by (simp add: il_resume_def send_begin_def)
  let ?y = "x\<lparr>il_queue := ms, il_send := Some ?t\<rparr>"
  let ?z = "x\<lparr>il_server := (il_server x)\<lparr>ws_sent := ws_sent (il_server x)
        @ map (\<lambda>c. (c, m)) (filter (\<lambda>c. \<not> gone m c) (ws_clients (il_server x)))\<rparr>, il_queue := ms,
      il_send := Some (?t\<lparr>sd_todo := [], sd_gone := filter (gone m) (ws_clients (il_server x))\<rparr>)\<rparr>"
  have "fold il_exec (map (\<lambda>c. Il_resume (gone m c)) (ws_clients (il_server x))) ?y = ?z"
    using send_steps [of ?y ?t gone] assms(1) by simp
  moreover have "filter (\<lambda>c. c \<in> set cs \<longrightarrow> \<not> gone m c) cs = filter (\<lambda>c. \<not> gone m c) cs" for cs
    by (rule filter_cong) simp_all
  then have "il_exec (Il_resume False) ?z = x\<lparr>il_server := ws_send gone m (il_server x), il_queue := ms\<rparr>"
    using assms False by (cases x) (simp add: il_resume_def send_next_def ws_send_def Let_def)
  ultimately show ?thesis using False by (simp add: resume_send_def b del: il_exec.simps)
qed

lemma resume_sends_atomic:
  "fold il_exec (resume_sends gone ms s) \<lparr>il_server = s, il_queue = ms, il_send = None, il_alive = True\<rparr>
     = il_idle (fold (ws_send gone) ms s)"
proof (induction ms arbitrary: s)
  case (Cons m ms)
  then show ?case
    using resume_send_atomic [of "\<lparr>il_server = s, il_queue = m # ms, il_send = None, il_alive = True\<rparr>" m ms gone] by simp
qed (simp add: il_idle_def)

text \<open>Left alone, a round is the step of \<open>WS_Server\<close>.\<close>

theorem retry_round_atomic:
  "\<exists>es. (\<forall>e\<in>set es. \<exists>shut. e = Il_resume shut)
     \<and> fold il_exec (Il_tick now # es) (il_idle s) = il_idle (ws_retry_tick now gone s)"
proof -
  let ?ms = "tick_resend now (ws_pending s)"
  have ms: "map (\<lambda>(k, v, p). pa_msg p) (filter (\<lambda>(k, v, p). v = Resend)
        (map (\<lambda>(k, p). (k, retry_item now p)) (ws_pending s))) = ?ms"
    by (auto simp: tick_resend_def filter_map o_def case_prod_unfold)
  have d: "map (\<lambda>(k, v, p). (k, p)) (filter (\<lambda>(k, v, p). v \<noteq> Drop)
        (map (\<lambda>(k, p). (k, retry_item now p)) (ws_pending s))) = tick_pending now (ws_pending s)"
    by (auto simp: tick_pending_def filter_map o_def case_prod_unfold)
  have e: "filter (\<lambda>(k, v, p). v = Resend) (map (\<lambda>(k, p). (k, retry_item now p)) (ws_pending s)) = [] \<longleftrightarrow> ?ms = []"
    unfolding ms [symmetric] by simp
  show ?thesis
  proof (cases "?ms = [] \<or> ws_clients s = []")
    case True
    then have "ws_retry_tick now g s = ws_retry_tick now gone s" for g by (auto simp: ws_retry_tick_eq Let_def)
    then show ?thesis using True
      by (intro exI [of _ "[]"]) (simp add: il_tick_def il_idle_def e Let_def)
  next
    case False
    let ?s = "s\<lparr>ws_pending := tick_pending now (ws_pending s)\<rparr>"
    have resumes: "\<forall>e\<in>set (resume_sends gone ms t). \<exists>shut. e = Il_resume shut" for ms t
      by (induction ms arbitrary: t) (auto simp: resume_send_def)
    have "fold il_exec (resume_sends gone ?ms ?s) (il_tick now (il_idle s)) = il_idle (ws_retry_tick now gone s)"
      using resume_sends_atomic [of gone ?ms ?s] False
      by (simp add: il_tick_def il_idle_def e ms d ws_retry_tick_eq Let_def)
    with resumes show ?thesis by (intro exI [of _ "resume_sends gone ?ms ?s"]) simp
  qed
qed

section \<open>A round that is interrupted\<close>

definition others :: "il_event list \<Rightarrow> ws_event list" where
  "others es = List.map_filter (\<lambda>e. case e of Il_other (E_retry now gone) \<Rightarrow> None | Il_other x \<Rightarrow> Some x | _ \<Rightarrow> None) es"

lemma dead_timer: "\<not> il_alive x \<Longrightarrow> fold il_exec es x = x\<lparr>il_server := fold ws_exec (others es) (il_server x)\<rparr>"
proof (induction es arbitrary: x)
  case (Cons e es)
  then show ?case
    by (cases e) (auto simp: others_def List.map_filter_simps il_tick_def il_resume_def split: ws_event.splits)
qed (simp add: others_def List.map_filter_simps)

text \<open>C20: a client that leaves while the retry timer is suspended in a send ends the timer. The set of clients
  has another size when the iteration goes on, which raises, and nothing in the retry loop catches the
  exception: from then on the server does what its other callbacks do and nothing else, so messages that wait
  for an acknowledgement are still held but never sent again.\<close>

theorem interrupted_retry_ends_timer:
  assumes "il_alive x" "il_send x = Some t" "sd_size t = length (ws_clients (il_server x))"
    and "c \<in> set (ws_clients (il_server x))"
    and "x' = fold il_exec [Il_other (E_disconnect c), Il_resume shut] x"
  shows "\<not> il_alive x'
    \<and> (\<forall>m. held m (il_server x') \<longleftrightarrow> held m (il_server x))
    \<and> ws_sent (il_server x') = ws_sent (il_server x)
    \<and> (\<forall>es. il_server (fold il_exec es x') = fold ws_exec (others es) (il_server x'))"
proof -
  let ?s = "snd (ws_disconnect c (il_server x))"
  have s: "?s = (il_server x)\<lparr>ws_clients := remove1 c (ws_clients (il_server x))\<rparr>"
    using assms(4) by (simp add: ws_disconnect_def)
  have "length (remove1 c cs) < length cs" if "c \<in> set cs" for cs :: "nat list"
    using that by (induction cs) auto
  from this [OF assms(4)] have "length (ws_clients ?s) \<noteq> sd_size t" using assms(3) by (simp add: s)
  then have x': "x' = x\<lparr>il_server := ?s, il_send := None, il_alive := False\<rparr>"
    using assms(1,2,5) by (simp add: il_resume_def send_next_def)
  then show ?thesis using dead_timer [of x'] by (simp add: s held_def)
qed

theorem interrupted_retry_ends_timer_witness:
  "\<not> il_alive (fold il_exec [Il_tick 5, Il_resume False, Il_other (E_disconnect 7), Il_resume False]
       (il_idle (one_pending Ws_guaranteed wake_msg)))"
proof -
  let ?s = "one_pending Ws_guaranteed wake_msg"
  let ?p = "\<lparr>pa_msg = wake_msg, pa_class = Ws_guaranteed, pa_retries = 0, pa_next_retry = 1/10\<rparr>"
  let ?t = "\<lparr>sd_msg = wake_msg, sd_todo = [7], sd_size = 1, sd_gone = []\<rparr>"
  have item: "retry_item 5 ?p = (Resend, ?p\<lparr>pa_next_retry := 5 + 1/2\<rparr>)" by (simp add: retry_item_def)
  have "il_tick 5 (il_idle ?s) = (il_idle ?s)\<lparr>il_server := ?s\<lparr>ws_pending := [(wm_corr wake_msg, ?p\<lparr>pa_next_retry := 5 + 1/2\<rparr>)]\<rparr>,
      il_queue := [wake_msg]\<rparr>"
    unfolding il_tick_def Let_def by (simp add: il_idle_def one_pending_def item)
  then have x: "fold il_exec [Il_tick 5, Il_resume False] (il_idle ?s) = (il_idle ?s)\<lparr>
      il_server := ?s\<lparr>ws_pending := [(wm_corr wake_msg, ?p\<lparr>pa_next_retry := 5 + 1/2\<rparr>)]\<rparr>, il_send := Some ?t\<rparr>"
    by (simp add: il_resume_def send_begin_def il_idle_def one_pending_def)
  have "\<not> il_alive (fold il_exec [Il_other (E_disconnect 7), Il_resume False]
      (fold il_exec [Il_tick 5, Il_resume False] (il_idle ?s)))"
    unfolding x by (rule interrupted_retry_ends_timer [OF _ _ _ _ refl, THEN conjunct1, where t1 = ?t])
      (simp_all add: il_idle_def one_pending_def)
  then show ?thesis by simp
qed

end
