(* ===== verification/Spec2Isabelle.thy ===== *)
theory Spec2Isabelle
  imports Recovery_Coordinator IPC_Channel Health Diagnostics Runtime_Logging Process_Entry Stress_Gates
    Repo_Gates Wake_Liveness Telemetry_Persistence Command_Line Modularize Linear_Pipeline
    Defaults_Module Module_Aliases Stress_Runs Gate_Reports Worker_Timing Whole_Program Restart_Stats
    Candidate_Copies WS_Interleaving
begin

text \<open>
  A model of the Python runtime of AVA-Listener, a wake-phrase listener: a microphone feeds a speech
  recogniser, a matcher looks for phrases of a profile in what it hears, and a wake is sent to a client.

  \<^bold>\<open>The program.\<close> The supervisor process (\<^verbatim>\<open>runtime/supervisor\<close>) starts a worker process, watches its heartbeat,
  restarts it, and serves the client over WebSocket (\<^verbatim>\<open>runtime/transport\<close>). Both processes talk over a TCP
  channel of JSON lines (\<^verbatim>\<open>runtime/ipc\<close>), with standard output as the fallback. The worker runs the engine
  (\<^verbatim>\<open>runtime/kernel/orchestrator.py\<close>): the streamer (\<^verbatim>\<open>runtime/asr\<close>, \<^verbatim>\<open>runtime/audio\<close>) takes audio blocks from a queue,
  asks the voice activity detector (\<^verbatim>\<open>runtime/vad\<close>), feeds the recogniser and delivers hypotheses; the
  engine keeps a window of them, scores it with the matcher (\<^verbatim>\<open>runtime/matcher\<close>) against the phrase
  registry, smooths the confidence and fires through its gates. A watchdog (\<^verbatim>\<open>runtime/supervisor/watchdog.py\<close>)
  resets a stuck stream; telemetry, health and logging observe.

  \<^bold>\<open>The theories\<close>, in the order of their imports, and the sources they model:

  \<^item> \<open>Ava_Prelude\<close>: types, exceptions, Python strings, dictionaries and bounded deques; \<open>Ava_Contracts\<close>: the
    interfaces as locales (bounded logs, keyed stores, machines with an invariant, retry policies and
    others), each interpreted in the theory that provides it; \<open>Settings\<close>: the constants of
    \<^verbatim>\<open>config/defaults.py\<close>; \<open>Defaults_Module\<close>: that file as it runs, with its configuration twice.
  \<^item> \<open>Lifecycle\<close> (\<^verbatim>\<open>kernel/lifecycle.py\<close>), \<open>Fault_Classifier\<close>, \<open>Recovery_Policy\<close>, \<open>Restart_Manager\<close>,
    \<open>Recovery_Coordinator\<close> (\<^verbatim>\<open>hardening/\<close>), \<open>Telemetry_Events\<close> (\<^verbatim>\<open>telemetry/events.py\<close>), \<open>Restart_Throttle\<close>
    (\<^verbatim>\<open>supervisor/restart_policy.py\<close>).
  \<^item> \<open>Phrase_Registry\<close>, \<open>Variants\<close>, \<open>Evaluator\<close>, \<open>Confidence\<close> (\<^verbatim>\<open>matcher/\<close>), \<open>Hypothesis_Buffer\<close>
    (\<^verbatim>\<open>audio/realtime/ring_buffer.py\<close>), \<open>Telemetry_Collector\<close> (\<^verbatim>\<open>telemetry/collector.py\<close>, \<^verbatim>\<open>session/context.py\<close>),
    \<open>Telemetry_Persistence\<close> (the collector and its file).
  \<^item> \<open>Sherpa_Provider\<close> (\<^verbatim>\<open>asr/providers/sherpa.py\<close>, \<^verbatim>\<open>audio/queue_manager.py\<close>), \<open>Hybrid_VAD\<close> (\<^verbatim>\<open>vad/pipeline.py\<close>),
    \<open>Audio_Worker\<close> (\<^verbatim>\<open>audio/worker.py\<close>), \<open>Streamer\<close> (\<^verbatim>\<open>asr/streaming.py\<close>), \<open>Orchestrator\<close> and \<open>Engine_Config\<close>
    (\<^verbatim>\<open>kernel/orchestrator.py\<close>), \<open>Watchdog\<close> (\<^verbatim>\<open>supervisor/watchdog.py\<close>).
  \<^item> \<open>Json_Value\<close> and \<open>Json_Text\<close> (the values and the text of Python's \<open>json\<close>), \<open>Profiles\<close> (\<^verbatim>\<open>config/\<close>: profile
    files, migration, inheritance, validation, mutability), \<open>WS_Server\<close> (\<^verbatim>\<open>transport/websocket_server.py\<close> and the
    protocol check), \<open>Supervisor\<close> (\<^verbatim>\<open>supervisor/supervisor.py\<close>), \<open>Worker_Transport\<close>
    (\<^verbatim>\<open>transport/stream/handler.py\<close>), \<open>IPC_Channel\<close> (\<^verbatim>\<open>ipc/\<close>, \<^verbatim>\<open>worker/worker_process.py\<close>).
  \<^item> \<open>Metrics\<close> and \<open>Health\<close> (\<^verbatim>\<open>telemetry/metrics.py\<close>, \<^verbatim>\<open>timing/latency.py\<close>, \<^verbatim>\<open>health/\<close>), \<open>Diagnostics\<close> (\<^verbatim>\<open>debug/\<close>,
    \<^verbatim>\<open>telemetry/diagnostics.py\<close>, \<^verbatim>\<open>telemetry/replay_capture.py\<close>), \<open>Runtime_Logging\<close> (\<^verbatim>\<open>telemetry/logging.py\<close>,
    \<^verbatim>\<open>logging/\<close>).
  \<^item> \<open>Runtime_Threads\<close> (the threads of the worker process, their owners, and the machine that runs streamer,
    worker threads, microphone and watchdog together), \<open>Process_Entry\<close> (\<^verbatim>\<open>main\<close> and \<^verbatim>\<open>start\<close> of the supervisor,
    the thread of the WebSocket server, \<^verbatim>\<open>resources/\<close>, \<^verbatim>\<open>timing/clock.py\<close>, \<^verbatim>\<open>manifest/\<close>).
  \<^item> \<open>Worker_System\<close>: the worker process composed as one machine, in which the engine is the callback of the
    speech worker and a wake resets the stream the worker reads; \<open>Wake_Liveness\<close>: the hypotheses of one
    utterance; \<open>Worker_Timing\<close>: the times the worker measures, and the demo of \<^verbatim>\<open>engine.py\<close>.
  \<^item> \<open>Supervisor_System\<close>: the supervisor process composed as one machine: monitor passes, worker messages and
    lines, client frames, timers and the end of standard input, in any order; \<open>Whole_Program\<close>: both processes
    together, from the worker's microphone to the messages the server holds; \<open>WS_Interleaving\<close>: the retry timer
    of the server between its suspensions; \<open>Command_Line\<close>: the options of
    both processes; \<open>Restart_Stats\<close>: what the restart manager reports.
  \<^item> \<open>Module_Aliases\<close>: the modules at the old import paths (\<^verbatim>\<open>asr/\<close>, \<^verbatim>\<open>audio/\<close>, \<^verbatim>\<open>config/\<close>, \<^verbatim>\<open>core/\<close>, \<^verbatim>\<open>detection/\<close>,
    \<^verbatim>\<open>decision/\<close>, \<^verbatim>\<open>integration/\<close>, \<^verbatim>\<open>confidence/\<close>, \<^verbatim>\<open>telemetry/\<close>, \<^verbatim>\<open>utils/\<close>), which copy the names of the modules
    they stand for; \<open>Candidate_Copies\<close>: the class \<open>CandidateSession\<close>, which the code writes out three times.
  \<^item> \<open>Stress_Gates\<close> and \<open>Repo_Gates\<close>: the decisions of the gate scripts in \<^verbatim>\<open>scripts/\<close>; \<open>Stress_Runs\<close> and
    \<open>Gate_Reports\<close>: what they do to the engine and to a spawned process, and the reports they write, with the
    formats of \<open>Text_Format\<close>; \<open>Modularize\<close>:
    \<^verbatim>\<open>scripts/do_modularize.py\<close>; \<open>Linear_Pipeline\<close>: \<^verbatim>\<open>pipeline/linear.py\<close>.

  An object of the code is a record with the object's attributes, prefixed (\<open>we_\<close> the engine, \<open>aw_\<close> the
  worker, \<open>sv_\<close> the supervisor, \<open>ws_\<close> the server and so on); a method is a definition from the old record to
  the new one with the method's name under the same prefix. This theory holds the property that
  spans all of them: from a hypothesis to the client.

  \<^bold>\<open>What the theorems show.\<close> Engine: an utterance wakes at most once, wakes keep the cooldown, a wake has a
  cause in the window, a phrase that keeps being heard is woken on within five hypotheses, and the
  engine's candidate agrees with the collector's. Worker process: its engine is a run of the engine alone, the
  generations, wakes and resets add up, and the worker thread survives what a healthy recognizer and
  microphone give it. Matcher: the winner is
  sound and maximal, the anchor gate and the variant index are exact. Audio: an iteration keeps the
  worker's invariant, the hysteresis debounces, the detector passes exactly what its gates say, resets
  give fresh generations, decoding ends, the queue is first in, first out. Recovery: the watchdog's
  backoff and escalation, the coordinator's escalation, the throttle as a refinement of the full
  restart history, and what the supervisor does in a crash loop; it stops exactly when it is told to.
  Both processes: the wakes the engine has counted are
  those that went over IPC, whose messages are held, sent to a client or acknowledged, and those known to be
  lost; none is lost while IPC delivers and nobody stops the supervisor.
  Transport: a wake outlives the worker that sent it; guaranteed messages are
  held until acknowledged, retries are bounded, a round of the retry timer is one step unless a client comes or
  goes in it, which ends the timer, a frame is read as it was sent, and what is lost when
  frames meet or do not decode. Configuration: loading ends, merging keeps the child, migration is
  idempotent, stored profiles are well formed, the effective configuration is the profile path by path.
  Threads: the speech worker of a process is spawned once and never replaced, so one uncaught exception
  in its loop is final. Command lines: the worker reads what the supervisor was told. Gates: the memory gate's line is the least-squares fit; the exit codes of the
  other gates are characterised; the refactoring script is not repeatable. Old import paths lead to the same objects, but debugging
  flags set there never reach the engine. The copies of the candidate class agree.
  Several theorems state what the code does where that is not what it means to do; the list of findings
  that goes with the development names them.

  \<^bold>\<open>Conventions.\<close> Floats are exact rationals: the shape of every expression and every decimal constant is
  kept, rounding of IEEE arithmetic is not modelled. Strings have 8-bit characters and the case and
  space rules are those of ASCII. A clock reading, a fresh identifier, the outcome of an operating
  system call (a socket, a process, a file) is an argument; so are the third-party models (sherpa-onnx,
  webrtcvad, Silero, jellyfish, rapidfuzz, jsonschema, psutil), with the assumptions on them as
  hypotheses (\<open>ratio_ok\<close>: a similarity between 0 and 100). An exception is the left side of a sum, and
  the state a method leaves behind when it raises is part of its result. A method that holds a lock,
  and a callback or a coroutine of an event loop, is one atomic step (\<open>WS_Interleaving\<close> opens up the
  retry timer); threads interleave between steps. Time stamps
  in the events the supervisor prints are left out. A boolean is not identified with 0 or 1.

  \<^bold>\<open>Loops.\<close> Loops over lists are structural. The decoding loop of the provider and the inheritance loop of
  the profile loader are \<open>partial_function\<close>s into options, where \<open>None\<close> is a run that does not end; the
  first ends under the recogniser's documented progress, the second whenever finitely many files
  exist, which are theorems. The JSON reader carries a bound of one more than the length of the text;
  \<open>loads_dumps\<close> shows that it is enough for every text the writer makes. The endless loops (the worker,
  the monitor, the watchdog, the channel, the retry timer) are modelled by one round; statements over
  runs quantify over sequences of rounds.

  \<^bold>\<open>Not modelled.\<close> The Node.js SDK and its lifecycle (\<^verbatim>\<open>node/\<close>, \<^verbatim>\<open>sdk/\<close>), another language. Sockets, processes,
  audio devices and model files themselves, and pure input and output. Of \<open>argparse\<close>, abbreviations of
  options, \<open>--name=value\<close> and numbers not written in digits. The empty stubs of
  \<^verbatim>\<open>runtime/\<close>, which have no logic. What the scripts print
  on the terminal; tests, documents and profile data.
\<close>

section \<open>From a hypothesis to the client\<close>

text \<open>C4: when a hypothesis wakes the engine, its confidence has reached a threshold, and the wake travels over
  IPC to the supervisor as one frame, which is delivered as it was sent: the WebSocket server then holds a guaranteed message with the event's phrase
  and rounded confidences, whether or not a client is connected, and its retry timer does not drop it.
  When IPC fails and no client is connected, the same wake is lost: the server is as it was.\<close>

theorem wake_reaches_server:
  assumes "engine_wf e" "ratio_ok tsr" "ws_wf (sv_ws s)" "ws_loop (sv_ws s)"
    and "on_hypothesis jw tsr m r ix i e = (Some wk, x, e')"
    and "is_reading srv" "\<forall>q\<in>{py_round 3 (wk_raw wk), py_round 3 (wk_smooth wk), py_round 1 (wk_latency_ms wk), ts}. num_ok fr q"
  shows "(DEFAULT_THRESHOLD + 8/100 \<le> wk_raw wk \<or> DEFAULT_THRESHOLD \<le> wk_smooth wk)
       \<and> (\<exists>d. send_wake Send_ok ts wk = Via_ipc d
            \<and> is_delivered (is_read json_loads (frame fr (JObj d)) srv) = is_delivered srv @ [JObj d])
       \<and> (\<exists>msg. wm_type msg = JStr ''wake''
            \<and> wm_payload msg = JObj (wake_payload (wk_phrase wk) (wk_raw wk) (wk_smooth wk) (wk_latency_ms wk) ts)
            \<and> held msg (sv_ws (feed_supervisor t w w' (send_wake Send_ok ts wk) s))
            \<and> (\<forall>now gone. held msg (ws_retry_tick now gone
                 (sv_ws (feed_supervisor t w w' (send_wake Send_ok ts wk) s)))))
       \<and> (ws_clients (sv_ws s) = [] \<longrightarrow> sv_ws (feed_supervisor t w w' (send_wake Send_failed ts wk) s) = sv_ws s)"
proof (intro conjI impI)
  show "DEFAULT_THRESHOLD + 8/100 \<le> wk_raw wk \<or> DEFAULT_THRESHOLD \<le> wk_smooth wk"
    using assms(1,2,5)
  proof (cases rule: on_hypothesis_cases)
    case (fire w e1 score phrase variant raw h)
    with on_fire_outcome [OF fire(8)] show ?thesis by auto
  qed simp
next
  let ?d = "[(''type'', JStr ''WAKE''),
      (''payload'', JObj (tl (wake_payload (wk_phrase wk) (wk_raw wk) (wk_smooth wk) (wk_latency_ms wk) ts)))]"
  have "nums_ok fr (JObj ?d)" "json_wf (JObj ?d)" using assms(7) by (simp_all add: wake_payload_def dict_wf_def)
  from frame_read_back [OF this] read_delivers [OF assms(6)]
  have "is_delivered (is_read json_loads (frame fr (JObj ?d)) srv) = is_delivered srv @ [JObj ?d]" by simp
  then show "\<exists>d. send_wake Send_ok ts wk = Via_ipc d
      \<and> is_delivered (is_read json_loads (frame fr (JObj d)) srv) = is_delivered srv @ [JObj d]"
    by (intro exI [of _ ?d]) (simp add: send_wake_def emit_wake_ipc)
next
  let ?msg = "wake_message w (wk_phrase wk) (wk_raw wk) (wk_smooth wk) (wk_latency_ms wk) ts"
  let ?ws = "sv_ws (feed_supervisor t w w' (send_wake Send_ok ts wk) s)"
  have "held ?msg ?ws" "ws_wf ?ws" using assms(3,4) by (simp_all add: send_wake_def ipc_wake_held ipc_wake_wf)
  then show "\<exists>msg. wm_type msg = JStr ''wake''
            \<and> wm_payload msg = JObj (wake_payload (wk_phrase wk) (wk_raw wk) (wk_smooth wk) (wk_latency_ms wk) ts)
            \<and> held msg ?ws \<and> (\<forall>now gone. held msg (ws_retry_tick now gone ?ws))"
    by (intro exI [of _ ?msg]) (simp add: wake_message_fields held_tick GUARANTEED_def)
next
  assume "ws_clients (sv_ws s) = []"
  then show "sv_ws (feed_supervisor t w w' (send_wake Send_failed ts wk) s) = sv_ws s"
    using assms(4) by (simp add: send_wake_def stdout_wake_lost)
qed

text \<open>The rounded members of a wake event have at most three decimals.\<close>

lemma rounded_num_ok: "num_ok milli_text (py_round 3 x)" "num_ok milli_text (py_round 1 x)"
proof -
  obtain i where "py_round 3 x = of_int i / 10 ^ 3" unfolding py_round_def Let_def by blast
  then show "num_ok milli_text (py_round 3 x)" by (intro num_ok_milli [where i = i]) simp
next
  obtain i where "py_round 1 x = of_int i / 10 ^ 1" unfolding py_round_def Let_def by blast
  then show "num_ok milli_text (py_round 1 x)" by (intro num_ok_milli [where i = "100 * i"]) simp
qed

theorem wake_reaches_server_witness:
  "\<exists>wk x e' msg d. on_hypothesis (\<lambda>_ _. 0) demo_ratio toy_vad_models demo_registry demo_index demo_hyp demo_engine
       = (Some wk, x, e')
     \<and> is_delivered (is_read json_loads (frame milli_text (JObj d)) (is_accept new_ipc_server)) = [JObj d]
     \<and> send_wake Send_ok 5 wk = Via_ipc d
     \<and> held msg (sv_ws (feed_supervisor 0 (0, ''u'', 0, ''v'', \<lambda>x c. False) (0, ''u'', 0, ''v'', \<lambda>x c. False)
         (send_wake Send_ok 5 wk)
         ((running_supervisor (new_restart_policy 5 60))\<lparr>sv_ws := new_ws_server\<lparr>ws_loop := True\<rparr>\<rparr>)))"
proof -
  let ?s = "(running_supervisor (new_restart_policy 5 60))\<lparr>sv_ws := new_ws_server\<lparr>ws_loop := True\<rparr>\<rparr>"
  obtain wk x e' where o: "on_hypothesis (\<lambda>_ _. 0) demo_ratio toy_vad_models demo_registry demo_index
      demo_hyp demo_engine = (Some wk, x, e')" using demo_wakes by blast
  have ok: "ratio_ok demo_ratio" by (simp add: ratio_ok_def demo_ratio_def)
  have ws: "ws_wf (sv_ws ?s)" "ws_loop (sv_ws ?s)" by (simp_all add: ws_wf_def new_ws_server_def)
  have srv: "is_reading (is_accept new_ipc_server)" "is_delivered (is_accept new_ipc_server) = []"
    by (simp_all add: is_accept_def new_ipc_server_def)
  have nums: "\<forall>q\<in>{py_round 3 (wk_raw wk), py_round 3 (wk_smooth wk), py_round 1 (wk_latency_ms wk), 5}. num_ok milli_text q"
    using rounded_num_ok num_ok_int [of milli_text 5] by simp
  from wake_reaches_server [OF demo_engine_wf ok ws o srv(1) nums, of 0 "(0, ''u'', 0, ''v'', \<lambda>x c. False)"
      "(0, ''u'', 0, ''v'', \<lambda>x c. False)"] o srv(2)
  show ?thesis by (metis append_Nil)
qed

end
